(* ===== verification/C_Prelude.thy ===== *)
theory C_Prelude
  imports Main "HOL-Library.Word" "HOL-Library.Monad_Syntax"
begin

unbundle bit_operations_syntax

section \<open>The C machine the client runs on\<close>

text \<open>
  The part of the C language and its library that the sources under \<^verbatim>\<open>src/\<close> use, shared by every
  component theory.

  \<^item> Integers keep their width: \<open>u8\<close>, \<open>u16\<close>, \<open>u32\<close> are the \<^verbatim>\<open>uint8_t\<close>, \<^verbatim>\<open>uint16_t\<close>,
    \<^verbatim>\<open>uint32_t\<close> of the code and \<open>size_t\<close> is the 64 bit \<^verbatim>\<open>size_t\<close> of an LP64 machine
    (the sources print it with \<^verbatim>\<open>%lu\<close>). \<^verbatim>\<open>long\<close> and \<^verbatim>\<open>int\<close> results are \<^typ>\<open>int\<close>.
  \<^item> A byte array is the list of its bytes. A pointer into it is an index, and a read or a write
    outside the array is undefined behaviour: the operation returns \<^const>\<open>None\<close>. Every operation
    that touches memory therefore lives in the option monad, and \<open>Some\<close> means that the code ran
    without leaving its arrays (and without a null or dangling pointer).
  \<^item> A \<^verbatim>\<open>const char *\<close> argument is the list of the bytes it points to; \<open>cstr\<close> is the part
    before the first NUL, which is all that \<^verbatim>\<open>strlen\<close> and \<^verbatim>\<open>strncpy\<close> look at. A pointer that may be
    \<^verbatim>\<open>NULL\<close> is an option.
\<close>

type_synonym u8 = "8 word"
type_synonym u16 = "16 word"
type_synonym u32 = "32 word"
type_synonym size_t = "64 word"
type_synonym bytes = "u8 list"

named_theorems mem_simps \<open>rewriting of checked memory accesses\<close>

subsection \<open>Checked array accesses\<close>

definition buf_get :: "bytes \<Rightarrow> nat \<Rightarrow> u8 option" where
  "buf_get b i = (if i < length b then Some (b ! i) else None)"

definition buf_set :: "bytes \<Rightarrow> nat \<Rightarrow> u8 \<Rightarrow> bytes option" where
  "buf_set b i v = (if i < length b then Some (b[i := v]) else None)"

definition list_get :: "'a list \<Rightarrow> nat \<Rightarrow> 'a option" where
  "list_get xs i = (if i < length xs then Some (xs ! i) else None)"

text \<open>Overwriting a whole block, the net effect of a sequence of byte stores.\<close>

definition buf_put :: "bytes \<Rightarrow> nat \<Rightarrow> bytes \<Rightarrow> bytes option" where
  "buf_put b i vs =
     (if vs = [] then Some b
      else if i + length vs \<le> length b
      then Some (take i b @ vs @ drop (i + length vs) b) else None)"

subsection \<open>C strings\<close>

definition cstr :: "bytes \<Rightarrow> bytes" where
  "cstr s = takeWhile (\<lambda>c. c \<noteq> 0) s"

definition strlen :: "bytes \<Rightarrow> size_t" where
  "strlen s = of_nat (length (cstr s))"

text \<open>
  \<^verbatim>\<open>strncpy(dst, src, n)\<close> stores exactly \<open>n\<close> bytes: the characters of \<open>src\<close> up to a NUL, and NULs
  after it. \<open>strncpy_str\<close> reads a string argument, \<open>strncpy_mem\<close> reads from an array, where
  running off the end before a NUL or before \<open>n\<close> characters is undefined.
\<close>

definition strncpy_str :: "bytes \<Rightarrow> nat \<Rightarrow> bytes" where
  "strncpy_str s n = take n (cstr s) @ replicate (n - length (cstr s)) 0"

fun strncpy_mem :: "bytes \<Rightarrow> nat \<Rightarrow> nat \<Rightarrow> bytes option" where
  "strncpy_mem b i 0 = Some []"
| "strncpy_mem b i (Suc n) =
     do {
       c \<leftarrow> buf_get b i;
       if c = 0 then Some (replicate (Suc n) 0)
       else do {
         cs \<leftarrow> strncpy_mem b (Suc i) n;
         Some (c # cs)
       }
     }"

subsection \<open>A block of bytes at a position\<close>

definition bytes_at :: "bytes \<Rightarrow> nat \<Rightarrow> bytes \<Rightarrow> bool" where
  "bytes_at b p vs \<longleftrightarrow> p + length vs \<le> length b \<and> take (length vs) (drop p b) = vs"

subsection \<open>Facts about the option monad\<close>

lemma bind_Some_map: "Option.bind x (\<lambda>y. Some (f y)) = map_option f x"
  by (cases x) auto

lemma bind_map_option: "Option.bind (map_option f x) g = Option.bind x (\<lambda>y. g (f y))"
  by (cases x) auto

subsection \<open>Facts about checked accesses\<close>

lemma buf_get_in [mem_simps]: "i < length b \<Longrightarrow> buf_get b i = Some (b ! i)"
  by (simp add: buf_get_def)

lemma buf_get_eq_Some: "buf_get b i = Some v \<longleftrightarrow> i < length b \<and> v = b ! i"
  by (auto simp: buf_get_def)

lemma buf_get_eq_None: "buf_get b i = None \<longleftrightarrow> length b \<le> i"
  by (auto simp: buf_get_def)

lemma list_get_in [mem_simps]: "i < length xs \<Longrightarrow> list_get xs i = Some (xs ! i)"
  by (simp add: list_get_def)

lemma list_get_eq_Some: "list_get xs i = Some v \<longleftrightarrow> i < length xs \<and> v = xs ! i"
  by (auto simp: list_get_def)

lemma buf_put_length: "buf_put b i vs = Some b' \<Longrightarrow> length b' = length b"
  by (auto simp: buf_put_def split: if_splits)

lemma buf_put_in [mem_simps]:
  "i + length vs \<le> length b \<Longrightarrow>
    buf_put b i vs = Some (take i b @ vs @ drop (i + length vs) b)"
  by (simp add: buf_put_def)

lemma buf_put_out: "vs \<noteq> [] \<Longrightarrow> length b < i + length vs \<Longrightarrow> buf_put b i vs = None"
  by (simp add: buf_put_def)

lemma buf_put_Nil [simp]: "buf_put b i [] = Some b"
  by (simp add: buf_put_def)

text \<open>A byte store is a one byte block, and two adjacent blocks are one block.\<close>

lemma buf_set_put: "buf_set b i v = buf_put b i [v]"
  by (simp add: buf_set_def buf_put_def upd_conv_take_nth_drop Suc_le_eq)

lemma buf_put_append:
  "Option.bind (buf_put b i us) (\<lambda>b'. buf_put b' (i + length us) vs) = buf_put b i (us @ vs)"
proof (cases "us = [] \<or> vs = []")
  case True
  then show ?thesis by (auto simp: Option.bind_eq_Some_conv split: Option.bind_splits)
next
  case False
  then show ?thesis
    by (cases "i + length us + length vs \<le> length b") (auto simp: buf_put_def ac_simps)
qed

lemma buf_put_Cons:
  "Option.bind (buf_set b i v) (\<lambda>b'. map_option f (buf_put b' (Suc i) vs)) =
    map_option f (buf_put b i (v # vs))"
proof -
  have "Option.bind (buf_set b i v) (\<lambda>b'. buf_put b' (Suc i) vs) = buf_put b i (v # vs)"
    using buf_put_append [of b i "[v]" vs] by (simp add: buf_set_put)
  then show ?thesis by (cases "buf_set b i v") auto
qed

subsection \<open>Facts about blocks\<close>

lemma bytes_at_Nil [simp]: "bytes_at b p [] \<longleftrightarrow> p \<le> length b"
  by (simp add: bytes_at_def)

lemma bytes_at_Cons:
  "bytes_at b p (v # vs) \<longleftrightarrow> p < length b \<and> b ! p = v \<and> bytes_at b (Suc p) vs"
proof (cases "p < length b")
  case True
  then have "drop p b = b ! p # drop (Suc p) b" by (simp add: Cons_nth_drop_Suc)
  with True show ?thesis by (auto simp: bytes_at_def)
next
  case False
  then show ?thesis by (auto simp: bytes_at_def)
qed

lemma bytes_at_append:
  "bytes_at b p (us @ vs) \<longleftrightarrow> bytes_at b p us \<and> bytes_at b (p + length us) vs"
  by (induction us arbitrary: p) (auto simp: bytes_at_Cons, simp add: bytes_at_def)

lemma bytes_at_whole: "bytes_at (vs @ rest) 0 vs"
  by (simp add: bytes_at_def)

lemma bytes_at_get: "bytes_at b p vs \<Longrightarrow> i < length vs \<Longrightarrow> buf_get b (p + i) = Some (vs ! i)"
  by (auto simp: bytes_at_def buf_get_def) (metis nth_take nth_drop le_add1 add.commute le_trans)

lemma bytes_at_length: "bytes_at b p vs \<Longrightarrow> p + length vs \<le> length b"
  by (simp add: bytes_at_def)

lemma buf_put_bytes_at: "buf_put b i vs = Some b' \<Longrightarrow> i \<le> length b \<Longrightarrow> bytes_at b' i vs"
  by (auto simp: buf_put_def bytes_at_def split: if_splits)

subsection \<open>Facts about strings\<close>

lemma cstr_no_nul: "0 \<notin> set (cstr s)"
  by (auto simp: cstr_def dest: set_takeWhileD)

lemma cstr_id: "0 \<notin> set s \<Longrightarrow> cstr s = s"
  by (auto simp: cstr_def takeWhile_eq_all_conv)

lemma cstr_cstr [simp]: "cstr (cstr s) = cstr s"
  by (rule cstr_id) (rule cstr_no_nul)

lemma strncpy_str_full [simp]: "strncpy_str s (length (cstr s)) = cstr s"
  by (simp add: strncpy_str_def)

lemma length_strncpy_str [simp]: "length (strncpy_str s n) = n"
  by (simp add: strncpy_str_def)

lemma strncpy_mem_length: "strncpy_mem b i n = Some cs \<Longrightarrow> length cs = n"
  by (induction n arbitrary: i cs) (auto split: if_splits Option.bind_splits)

text \<open>Copying a whole string out of an array, and copying towards a NUL that stops the copy.\<close>

lemma strncpy_mem_exact:
  "take n (drop i b) = s \<Longrightarrow> length s = n \<Longrightarrow> 0 \<notin> set s \<Longrightarrow> strncpy_mem b i n = Some s"
proof (induction n arbitrary: i s)
  case 0
  then show ?case by simp
next
  case (Suc n)
  then have "i < length b" by (cases "i < length b") auto
  then have d: "drop i b = b ! i # drop (Suc i) b" by (simp add: Cons_nth_drop_Suc)
  obtain c cs where s: "s = c # cs" using Suc.prems(2) by (cases s) auto
  with Suc.prems d have "take n (drop (Suc i) b) = cs" "b ! i = c" "c \<noteq> 0" "0 \<notin> set cs"
    by auto
  with Suc.IH [of "Suc i" cs] Suc.prems(2) s \<open>i < length b\<close> show ?case
    by (simp add: buf_get_in)
qed

lemma strncpy_mem_stops:
  "i \<le> j \<Longrightarrow> j < length b \<Longrightarrow> b ! j = 0 \<Longrightarrow> \<exists>cs. strncpy_mem b i n = Some cs"
proof (induction n arbitrary: i)
  case 0
  then show ?case by simp
next
  case (Suc n)
  show ?case
  proof (cases "i = j")
    case True
    with Suc.prems show ?thesis by (simp add: buf_get_in)
  next
    case False
    with Suc.prems have "Suc i \<le> j" by simp
    from Suc.IH [OF this Suc.prems(2,3)] obtain cs where "strncpy_mem b (Suc i) n = Some cs" ..
    with Suc.prems show ?thesis by (simp add: buf_get_in)
  qed
qed

subsection \<open>Facts about words\<close>

lemma unat_of_nat_small: "n < 2 ^ LENGTH('a) \<Longrightarrow> unat (of_nat n :: 'a :: len word) = n"
  by (simp add: unat_of_nat take_bit_nat_eq_self)

lemma unat_of_nat_le: "unat (of_nat n :: 'a :: len word) \<le> n"
  by (simp add: unat_of_nat)

lemma word_eq_of_natI: "unat w = n \<Longrightarrow> w = of_nat n" for w :: "'a :: len word"
  by (metis of_nat_unat ucast_id)

lemma unat_u8_lt: "unat (x :: u8) < 256"
  using unsigned_less [of x] by simp

lemma unat_u16_lt: "unat (x :: u16) < 65536"
  using unsigned_less [of x] by simp

lemma unat_size_t_lt: "unat (x :: size_t) < 2 ^ 64"
  using unsigned_less [of x, where 'a = nat] by simp

lemma unat_ucast_up:
  "LENGTH('a) \<le> LENGTH('b) \<Longrightarrow> unat (ucast (x :: 'a :: len word) :: 'b :: len word) = unat x"
proof -
  assume "LENGTH('a) \<le> LENGTH('b)"
  then have "(2 :: nat) ^ LENGTH('a) \<le> 2 ^ LENGTH('b)" by (intro power_increasing) auto
  then have "unat x < 2 ^ LENGTH('b)" using unsigned_less [of x, where 'a = nat] by linarith
  then show ?thesis by (simp add: unsigned_ucast_eq take_bit_nat_eq_self)
qed

lemma unat_ucast_u8_up [simp]:
  "unat (ucast (x :: u8) :: u16) = unat x"
  "unat (ucast (x :: u8) :: u32) = unat x"
  by (simp_all add: unat_ucast_up)

end
