(* ===== verification/Varlen.thy ===== *)
theory Varlen
  imports C_Prelude
begin

section \<open>The variable length size field (\<^verbatim>\<open>encode_size\<close>, \<^verbatim>\<open>decode_size\<close>)\<close>

text \<open>
  \<^verbatim>\<open>libsmqttcore/messages.c\<close>, lines 79 to 127: the size of an MQTT packet is written in one to four
  bytes of seven bits, least significant first, with the top bit as a continuation mark. The
  loops are modelled with their buffer stores and loads; \<open>varlen\<close> is the encoding of the MQTT
  specification, and the theorems say that the loops implement it and invert each other.
\<close>

subsection \<open>The code\<close>

text \<open>
  The loop of \<^verbatim>\<open>encode_size\<close>: \<open>used\<close> counts the bytes stored, \<open>remaining\<close> is \<^verbatim>\<open>remaining_size\<close>,
  \<open>p\<close> is the pointer \<^verbatim>\<open>buffer\<close> as an index into the array \<open>b\<close>.
\<close>

function encode_loop :: "bytes \<Rightarrow> nat \<Rightarrow> nat \<Rightarrow> size_t \<Rightarrow> (bytes \<times> nat \<times> size_t) option" where
  "encode_loop b p used remaining =
     (if used < 4
      then let digit = (ucast (remaining mod 128) :: u8);
               remaining' = remaining div 128;
               digit' = (if remaining' > 0 then digit OR 0x80 else digit)
           in do {
             b' \<leftarrow> buf_set b (p + used) digit';
             if remaining' = 0 then Some (b', used + 1, remaining')
             else encode_loop b' p (used + 1) remaining'
           }
      else Some (b, used, remaining))"
  by pat_completeness auto
termination
  by (relation "measure (\<lambda>(b, p, used, r). 4 - used)") auto

text \<open>The result is the array, \<^verbatim>\<open>*bytes_used\<close> and the returned flag.\<close>

definition encode_size :: "size_t \<Rightarrow> bytes \<Rightarrow> nat \<Rightarrow> (bytes \<times> nat \<times> bool) option" where
  "encode_size sz b p =
     do {
       (b', used, remaining) \<leftarrow> encode_loop b p 0 sz;
       Some (b', used, \<not> remaining > 0)
     }"

text \<open>
  The loop of \<^verbatim>\<open>decode_size\<close>: it reads while \<^verbatim>\<open>buffer <= buffer_end\<close>, so the byte at
  \<open>buffer_end\<close> itself is read. The result is \<open>used\<close>, the accumulated value and the last digit.
\<close>

function decode_loop ::
  "bytes \<Rightarrow> nat \<Rightarrow> nat \<Rightarrow> nat \<Rightarrow> size_t \<Rightarrow> size_t \<Rightarrow> u8 \<Rightarrow> (nat \<times> size_t \<times> u8) option"
where
  "decode_loop b p buffer_end used multiplier val digit =
     (if p \<le> buffer_end \<and> used < 4
      then do {
        digit' \<leftarrow> buf_get b p;
        let val' = val + ucast (digit' AND 127) * multiplier;
        if digit' AND 0x80 = 0 then Some (used + 1, val', digit')
        else decode_loop b (p + 1) buffer_end (used + 1) (multiplier * 128) val' digit'
      }
      else Some (used, val, digit))"
  by pat_completeness auto
termination
  by (relation "measure (\<lambda>(b, p, e, used, m, v, d). 4 - used)") auto

text \<open>
  The result is \<^verbatim>\<open>*bytes_used\<close> and \<^verbatim>\<open>*size\<close>; the size is \<open>None\<close> where the code returns
  \<^verbatim>\<open>false\<close> and leaves \<^verbatim>\<open>*size\<close> alone.
\<close>

definition decode_size :: "bytes \<Rightarrow> nat \<Rightarrow> nat \<Rightarrow> (nat \<times> size_t option) option" where
  "decode_size b p buffer_end =
     do {
       (used, val, digit) \<leftarrow> decode_loop b p buffer_end 0 1 0 0;
       Some (used, if used = 4 \<and> digit AND 0x80 \<noteq> 0 then None else Some val)
     }"

declare encode_loop.simps [simp del] decode_loop.simps [simp del]

subsection \<open>The encoding of the specification\<close>

text \<open>
  \<open>varlen\<close> is the encoding of any number; \<open>varlen_upto k\<close> stops after \<open>k\<close> bytes, which is what the
  code writes when the number does not fit.
\<close>

fun varlen_upto :: "nat \<Rightarrow> nat \<Rightarrow> bytes" where
  "varlen_upto 0 n = []"
| "varlen_upto (Suc k) n =
     (if n < 128 then [of_nat n] else of_nat (n mod 128 + 128) # varlen_upto k (n div 128))"

fun varlen :: "nat \<Rightarrow> bytes" where
  "varlen n = (if n < 128 then [of_nat n] else of_nat (n mod 128 + 128) # varlen (n div 128))"

declare varlen.simps [simp del]

subsection \<open>Digits\<close>

lemma digit_low: "ucast ((r :: size_t) mod 128) = (of_nat (unat r mod 128) :: u8)"
  by (rule word_eq_of_natI)
    (simp add: unsigned_ucast_eq unat_mod_distrib take_bit_nat_eq_self less_trans [of _ 128 256])

lemma unat_div128 [simp]: "unat ((r :: size_t) div 128) = unat r div 128"
  by (simp add: unat_div_distrib)

lemma and_127: "(d :: u8) AND 127 = of_nat (unat d mod 128)"
proof (rule word_eq_of_natI)
  have "(127 :: u8) = mask 7" by (simp add: mask_eq_exp_minus_1)
  then have "d AND 127 = take_bit 7 d" by (metis take_bit_eq_mask)
  then show "unat (d AND 127) = unat d mod 128"
    by (simp only: unsigned_take_bit_eq) (simp add: take_bit_eq_mod)
qed

lemma even_div_128: "n < 256 \<Longrightarrow> even (n div 128) \<longleftrightarrow> n < 128" for n :: nat
proof (cases "n < 128")
  case False
  assume "n < 256"
  with False have "n div 128 = 1" by (intro div_nat_eqI) auto
  with False show ?thesis by simp
qed simp

lemma and_0x80: "(d :: u8) AND 0x80 = 0 \<longleftrightarrow> unat d < 128"
proof -
  have "d AND 2 ^ 7 = 0 \<longleftrightarrow> \<not> bit d 7" by (rule and_exp_eq_0_iff_not_bit)
  moreover have "bit d 7 \<longleftrightarrow> bit (unat d) 7" by (simp add: bit_unsigned_iff)
  moreover have "bit (unat d) 7 \<longleftrightarrow> odd (unat d div 128)" by (simp only: bit_iff_odd) simp
  moreover note even_div_128 [OF unat_u8_lt [of d]]
  ultimately show ?thesis by simp
qed

lemma or_0x80: "d < 128 \<Longrightarrow> (of_nat d :: u8) OR 0x80 = of_nat (d + 128)"
proof -
  assume "d < 128"
  then have "(of_nat d :: u8) AND 0x80 = 0" by (simp add: and_0x80 unat_of_nat_small)
  then show ?thesis using word_plus_and_or [of "of_nat d :: u8" "0x80"] by simp
qed

subsection \<open>The encoder\<close>

lemma encode_loop_eq:
  "used + k = 4 \<Longrightarrow>
    encode_loop b p used r =
      map_option (\<lambda>b'. (b', used + length (varlen_upto k (unat r)),
                        of_nat (unat r div 128 ^ length (varlen_upto k (unat r)))))
        (buf_put b (p + used) (varlen_upto k (unat r)))"
proof (induction k arbitrary: b used r)
  case 0
  then show ?case by (simp add: encode_loop.simps)
next
  case (Suc k)
  then have used: "used < 4" and IH: "Suc used + k = 4" by simp_all
  have z: "r div 128 = 0 \<longleftrightarrow> unat r < 128"
    by (simp add: word_unat_eq_iff div_eq_0_iff)
  show ?case
  proof (cases "unat r < 128")
    case True
    then show ?thesis
      using used z by (simp add: encode_loop.simps [of b p used] digit_low Let_def buf_set_put)
        (auto split: Option.bind_splits)
  next
    case False
    then have "encode_loop b p used r =
        Option.bind (buf_set b (p + used) (of_nat (unat r mod 128 + 128)))
          (\<lambda>b'. encode_loop b' p (Suc used) (r div 128))"
      using used z
      by (simp add: encode_loop.simps [of b p used] digit_low Let_def or_0x80 word_gt_0)
    then show ?thesis
      using False by (simp add: Suc.IH [OF IH] buf_put_Cons div_mult2_eq)
  qed
qed

lemma varlen_upto_rest: "n div 128 ^ length (varlen_upto k n) > 0 \<longleftrightarrow> 128 ^ k \<le> n"
proof (induction k arbitrary: n)
  case (Suc k)
  have "128 ^ k \<le> n div 128 \<longleftrightarrow> 128 ^ Suc k \<le> n"
    by (simp add: less_eq_div_iff_mult_less_eq mult.commute)
  with Suc.IH [of "n div 128"] show ?case
    by (auto simp: div_mult2_eq dest: le_less_trans)
qed auto

theorem encode_size_eq:
  "encode_size sz b p =
    map_option (\<lambda>b'. (b', length (varlen_upto 4 (unat sz)), unat sz < 2 ^ 28))
      (buf_put b p (varlen_upto 4 (unat sz)))"
proof -
  let ?l = "length (varlen_upto 4 (unat sz))"
  have "unat sz div 128 ^ ?l < 2 ^ 64"
    by (rule le_less_trans [OF div_le_dividend unat_size_t_lt])
  then have "(of_nat (unat sz div 128 ^ ?l) :: size_t) > 0 \<longleftrightarrow> unat sz div 128 ^ ?l > 0"
    by (simp add: word_gt_0 word_unat_eq_iff unat_of_nat_small)
  also have "\<dots> \<longleftrightarrow> \<not> unat sz < 2 ^ 28"
    using varlen_upto_rest [of "unat sz" 4] by (simp add: not_less)
  finally show ?thesis
    by (simp add: encode_size_def encode_loop_eq [of 0 4] map_option_bind) 
      (auto split: Option.bind_splits)
qed

subsection \<open>The specification encoding\<close>

lemma div128_less: "n < 128 ^ Suc k \<Longrightarrow> n div 128 < 128 ^ k" for n :: nat
  by (simp add: less_mult_imp_div_less mult.commute)

lemma varlen_upto_varlen: "n < 128 ^ k \<Longrightarrow> 0 < k \<Longrightarrow> varlen_upto k n = varlen n"
proof (induction k arbitrary: n)
  case (Suc k)
  show ?case
  proof (cases "n < 128")
    case False
    have nk: "n div 128 < 128 ^ k" using Suc.prems(1) by (rule div128_less)
    with False have "0 < k" by (cases k) (auto simp: div_eq_0_iff)
    with False Suc.IH [OF nk] show ?thesis by (simp add: varlen.simps [of n])
  qed (simp add: varlen.simps)
qed simp

lemma varlen_length_pos [simp]: "0 < length (varlen n)"
  by (subst varlen.simps) simp

lemma varlen_length_upto: "length (varlen_upto k n) \<le> k"
  by (induction k arbitrary: n) auto

lemma varlen_length: "n < 128 ^ k \<Longrightarrow> 0 < k \<Longrightarrow> length (varlen n) \<le> k"
  by (metis varlen_upto_varlen varlen_length_upto)

lemma varlen_one: "n < 128 \<Longrightarrow> varlen n = [of_nat n]"
  by (simp add: varlen.simps)

subsection \<open>The decoder\<close>

lemma ucast_digit: "d < 256 \<Longrightarrow> ucast (of_nat d :: u8) = (of_nat d :: size_t)"
  by (rule word_eq_of_natI) (simp add: unsigned_ucast_eq unat_of_nat_small take_bit_nat_eq_self)

lemma digit_sum: "of_nat n = of_nat (n mod 128) + 128 * (of_nat (n div 128) :: 'a :: len word)"
  by (metis add.commute mult_div_mod_eq of_nat_add of_nat_mult of_nat_numeral)

lemma decode_loop_varlen:
  "n < 128 ^ k \<Longrightarrow> 0 < k \<Longrightarrow> used + k = 4 \<Longrightarrow> bytes_at b p (varlen n) \<Longrightarrow> p + length (varlen n) \<le> e + 1 \<Longrightarrow>
    decode_loop b p e used m v d =
      Some (used + length (varlen n), v + of_nat n * m, last (varlen n))"
proof (induction k arbitrary: n p used m v d)
  case 0
  then show ?case by simp
next
  case (Suc k)
  then have used: "used < 4" and pe: "p \<le> e"
    using varlen_length_pos [of n] by linarith+
  show ?case
  proof (cases "n < 128")
    case True
    with Suc.prems used pe show ?thesis
      by (simp add: varlen.simps [of n] bytes_at_Cons buf_get_in decode_loop.simps [of b p]
          and_127 and_0x80 unat_of_nat_small ucast_digit)
  next
    case False
    let ?d = "of_nat (n mod 128 + 128) :: u8"
    have vl: "varlen n = ?d # varlen (n div 128)" using False by (simp add: varlen.simps [of n])
    have d: "unat ?d = n mod 128 + 128"
      by (rule unat_of_nat_small) simp
    have nk: "n div 128 < 128 ^ k" using Suc.prems(1) by (rule div128_less)
    with False have k: "0 < k" by (cases k) (auto simp: div_eq_0_iff)
    have "decode_loop b p e used m v d =
        decode_loop b (p + 1) e (used + 1) (m * 128) (v + of_nat (n mod 128) * m) ?d"
      using Suc.prems used pe d
      by (simp add: vl bytes_at_Cons buf_get_in decode_loop.simps [of b p] and_127 and_0x80
          ucast_digit Let_def del: of_nat_add)
    also have "\<dots> = Some (used + 1 + length (varlen (n div 128)),
        v + of_nat (n mod 128) * m + of_nat (n div 128) * (m * 128), last (varlen (n div 128)))"
      using Suc.prems by (intro Suc.IH [OF nk k]) (simp_all add: vl bytes_at_Cons)
    also have "\<dots> = Some (used + length (varlen n), v + of_nat n * m, last (varlen n))"
      using digit_sum [of n, where 'a = 64] varlen_length_pos [of "n div 128"]
      by (simp add: vl algebra_simps)
    finally show ?thesis .
  qed
qed

lemma varlen_last: "unat (last (varlen n)) < 128"
proof (induction n rule: varlen.induct)
  case (1 n)
  then show ?case
    using varlen_length_pos [of "n div 128"]
    by (auto simp: varlen.simps [of n] unat_of_nat_small)
qed

lemma decode_size_varlen:
  assumes "n < 2 ^ 28" "bytes_at b p (varlen n)" "p + length (varlen n) \<le> e + 1"
  shows "decode_size b p e = Some (length (varlen n), Some (of_nat n))"
proof -
  have "decode_loop b p e 0 1 0 0 = Some (length (varlen n), of_nat n, last (varlen n))"
    using decode_loop_varlen [of n 4 0 b p e 1 0 0] assms by simp
  then show ?thesis
    using varlen_last [of n] by (simp add: decode_size_def and_0x80)
qed

subsection \<open>The decoder on arbitrary bytes\<close>

text \<open>Reading at most four bytes, none beyond \<open>buffer_end\<close>, into a value of at most 28 bits.\<close>

lemma digit_step:
  assumes "unat m = 128 ^ used" "unat (v :: size_t) < 128 ^ used" "used < 4"
  shows "unat (v + ucast ((d :: u8) AND 127) * m) < 128 ^ Suc used"
proof -
  let ?x = "unat d mod 128"
  have "(128 :: nat) ^ used \<le> 128 ^ 3" using assms(3) by (intro power_increasing) auto
  then have small: "(128 :: nat) ^ Suc used < 2 ^ 64" by simp
  have "?x * 128 ^ used \<le> 127 * 128 ^ used" by (intro mult_right_mono) (auto simp: less_Suc_eq_le)
  then have le: "?x * 128 ^ used + 128 ^ used \<le> 128 ^ Suc used" by simp
  then have lt: "?x * 128 ^ used < 2 ^ 64" and lt2: "unat v + ?x * 128 ^ used < 2 ^ 64"
    using small assms(2) by linarith+
  have c: "unat (ucast (d AND 127) :: size_t) = ?x"
    by (simp add: and_127 ucast_digit unat_of_nat_small)
  have prod: "unat (ucast (d AND 127) * m) = ?x * 128 ^ used"
    using lt c assms(1) unat_mult_lem [of "ucast (d AND 127) :: size_t" m] by simp
  then have "unat (v + ucast (d AND 127) * m) = unat v + ?x * 128 ^ used"
    using lt2 unat_add_lem [of v "ucast (d AND 127) * m"] by simp
  with le assms(2) show ?thesis by linarith
qed

lemma decode_loop_total:
  "used \<le> 4 \<Longrightarrow> e < length b \<or> p + (4 - used) \<le> length b \<Longrightarrow> unat m = 128 ^ used \<Longrightarrow>
    unat v < 128 ^ used \<Longrightarrow>
    \<exists>used' v' d'. decode_loop b p e used m v d = Some (used', v', d') \<and> used \<le> used' \<and> used' \<le> 4 \<and>
      unat v' < 2 ^ 28 \<and> (p \<le> e \<and> used < 4 \<longrightarrow> used < used') \<and> (used < used' \<longrightarrow> p + (used' - used) \<le> e + 1)"
proof (induction "4 - used" arbitrary: used p m v d)
  case 0
  then show ?case by (auto simp: decode_loop.simps [of b p])
next
  case (Suc k)
  then have used: "used < 4" by simp
  have pow: "(128 :: nat) ^ used \<le> 128 ^ 3" using used by (intro power_increasing) auto
  show ?case
  proof (cases "p \<le> e")
    case False
    with Suc.prems pow show ?thesis by (auto simp: decode_loop.simps [of b p])
  next
    case True
    with Suc.prems used have p: "p < length b" by auto
    let ?d = "b ! p"
    let ?v = "v + ucast (?d AND 127) * m"
    have v: "unat ?v < 128 ^ Suc used" using Suc.prems used by (intro digit_step) auto
    have m: "unat (m * 128) = 128 ^ Suc used"
      using Suc.prems pow by (simp add: unat_word_ariths mult.commute)
    show ?thesis
    proof (cases "?d AND 0x80 = 0")
      case True
      have "(128 :: nat) ^ Suc used \<le> 128 ^ 4" using used by (intro power_increasing) auto
      with v True used \<open>p \<le> e\<close> p show ?thesis
        by (simp add: decode_loop.simps [of b p] buf_get_in)
    next
      case False
      have "\<exists>used' v' d'. decode_loop b (Suc p) e (Suc used) (m * 128) ?v ?d = Some (used', v', d') \<and>
          Suc used \<le> used' \<and> used' \<le> 4 \<and> unat v' < 2 ^ 28 \<and>
          (Suc p \<le> e \<and> Suc used < 4 \<longrightarrow> Suc used < used') \<and>
          (Suc used < used' \<longrightarrow> Suc p + (used' - Suc used) \<le> e + 1)"
        using Suc.prems Suc.hyps(2) used v m by (intro Suc.hyps(1)) auto
      moreover have "decode_loop b p e used m v d = decode_loop b (Suc p) e (Suc used) (m * 128) ?v ?d"
        using False True used p by (simp add: decode_loop.simps [of b p] buf_get_in)
      ultimately show ?thesis using \<open>p \<le> e\<close> used by (fastforce simp: le_less)
    qed
  qed
qed

lemma decode_size_total:
  assumes "e < length b \<or> p + 4 \<le> length b"
  obtains used r where "decode_size b p e = Some (used, r)" "used \<le> 4" "p \<le> e \<Longrightarrow> 1 \<le> used"
    "0 < used \<Longrightarrow> p + used \<le> e + 1" "\<And>v. r = Some v \<Longrightarrow> unat v < 2 ^ 28"
proof -
  from decode_loop_total [of 0 e b p 1 0 0] assms obtain used v d where
    "decode_loop b p e 0 1 0 0 = Some (used, v, d)" "used \<le> 4" "unat v < 2 ^ 28"
    "p \<le> e \<longrightarrow> 0 < used" "0 < used \<longrightarrow> p + used \<le> e + 1"
    by auto
  then show thesis by (intro that) (auto simp: decode_size_def split: if_splits)
qed

end
