(* ===== verification/Messages.thy ===== *)
theory Messages
  imports C_Prelude
begin

section \<open>MQTT message data (\<^verbatim>\<open>inc/protocol.h\<close>, \<^verbatim>\<open>libsmqttcore/messages.h\<close>)\<close>

text \<open>
  The enumerations and the \<^verbatim>\<open>response_t\<close> of the message layer, with the bit macros at the top of
  \<^verbatim>\<open>libsmqttcore/messages.c\<close>.

  \<^item> \<^verbatim>\<open>QoS\<close> is an unsigned enumeration that the code computes with and that may hold any byte a
    peer sends, so it is a 32 bit word with the three named values.
  \<^item> \<^verbatim>\<open>message_type_t\<close> is a datatype; the nibbles 0 and 15 name no message.
  \<^item> \<^verbatim>\<open>connack_msg_t\<close> is assigned from an unchecked byte: \<open>Connack_other\<close> holds the rest.
  \<^item> \<^verbatim>\<open>response_t\<close> is a tagged union, one constructor per message type. Its \<^verbatim>\<open>char *\<close> members point
    into the buffer that was parsed: they are indices. Members that the parser leaves
    uninitialised are \<open>None\<close>, and the arrays hold the elements that were filled.
\<close>

type_synonym QoS = u32

abbreviation QoS0 :: QoS where "QoS0 \<equiv> 0"
abbreviation QoS1 :: QoS where "QoS1 \<equiv> 1"
abbreviation QoS2 :: QoS where "QoS2 \<equiv> 2"

abbreviation MAX_TOPICS :: nat where "MAX_TOPICS \<equiv> 32"

datatype message_type_t =
    CONNECT | CONNACK | PUBLISH | PUBACK | PUBREC | PUBREL | PUBCOMP
  | SUBSCRIBE | SUBACK | UNSUBSCRIBE | UNSUBACK | PINGREQ | PINGRESP | DISCONNECT

fun message_type_code :: "message_type_t \<Rightarrow> u8" where
  "message_type_code CONNECT = 1"
| "message_type_code CONNACK = 2"
| "message_type_code PUBLISH = 3"
| "message_type_code PUBACK = 4"
| "message_type_code PUBREC = 5"
| "message_type_code PUBREL = 6"
| "message_type_code PUBCOMP = 7"
| "message_type_code SUBSCRIBE = 8"
| "message_type_code SUBACK = 9"
| "message_type_code UNSUBSCRIBE = 10"
| "message_type_code UNSUBACK = 11"
| "message_type_code PINGREQ = 12"
| "message_type_code PINGRESP = 13"
| "message_type_code DISCONNECT = 14"

definition message_types :: "message_type_t list" where
  "message_types = [CONNECT, CONNACK, PUBLISH, PUBACK, PUBREC, PUBREL, PUBCOMP, SUBSCRIBE, SUBACK,
     UNSUBSCRIBE, UNSUBACK, PINGREQ, PINGRESP, DISCONNECT]"

text \<open>The enumeration constant with a given value, if there is one.\<close>

definition message_type_of :: "u8 \<Rightarrow> message_type_t option" where
  "message_type_of c = List.find (\<lambda>t. message_type_code t = c) message_types"

datatype connack_msg_t =
    Connection_Accepted
  | Connection_Refused_unacceptable_protocol_version
  | Connection_Refused_identifier_rejected
  | Connection_Refused_server_unavailable
  | Connection_Refused_bad_username_or_password
  | Connection_Refused_not_authorized
  | Connack_other u8

definition connack_of_byte :: "u8 \<Rightarrow> connack_msg_t" where
  "connack_of_byte b =
     (if b = 0 then Connection_Accepted
      else if b = 1 then Connection_Refused_unacceptable_protocol_version
      else if b = 2 then Connection_Refused_identifier_rejected
      else if b = 3 then Connection_Refused_server_unavailable
      else if b = 4 then Connection_Refused_bad_username_or_password
      else if b = 5 then Connection_Refused_not_authorized
      else Connack_other b)"

fun connack_code :: "connack_msg_t \<Rightarrow> u8" where
  "connack_code Connection_Accepted = 0"
| "connack_code Connection_Refused_unacceptable_protocol_version = 1"
| "connack_code Connection_Refused_identifier_rejected = 2"
| "connack_code Connection_Refused_server_unavailable = 3"
| "connack_code Connection_Refused_bad_username_or_password = 4"
| "connack_code Connection_Refused_not_authorized = 5"
| "connack_code (Connack_other b) = b"

subsection \<open>The parsed message\<close>

text \<open>A sized string of a message: its length and the index of its first byte.\<close>

type_synonym sized_ptr = "u16 \<times> nat"

record connect_data =
  c_name_size :: u16
  c_name :: nat
  c_version :: u8
  c_has_user :: bool
  c_has_pw :: bool
  c_has_will :: bool
  c_will_qos :: QoS
  c_will_retain :: bool
  c_has_clean :: bool
  c_keep_alive :: u16
  c_client_id_size :: u16
  c_client_id :: nat
  c_will_topic :: "sized_ptr option"
  c_will_message :: "sized_ptr option"
  c_user :: "sized_ptr option"
  c_pw :: "sized_ptr option"

record publish_data =
  p_qos :: QoS
  p_retain :: bool
  p_topic_size :: u16
  p_topic :: nat
  p_packet_id :: u16
  p_message_size :: u16
  p_message :: nat

record subscribe_data =
  s_packet_id :: u16
  s_topic_lengths :: "u16 list"
  s_topics :: "nat list"
  s_qoss :: "QoS list"
  s_topic_count :: u16

record suback_data =
  sa_packet_id :: u16
  sa_topic_count :: u16
  sa_success :: "bool list"
  sa_qoss :: "QoS list"

record unsubscribe_data =
  us_topic_lengths :: "u16 list"
  us_topics :: "nat list"
  us_topic_count :: u16
  us_packet_id :: u16

datatype response_t =
    Connect_body connect_data
  | Connack_body connack_msg_t
  | Publish_body publish_data
  | Puback_body u16
  | Pubrec_body u16
  | Pubrel_body u16
  | Pubcomp_body u16
  | Subscribe_body subscribe_data
  | Suback_body suback_data
  | Unsubscribe_body unsubscribe_data
  | Unsuback_body u16
  | Pingreq_body
  | Pingresp_body
  | Disconnect_body

fun response_type :: "response_t \<Rightarrow> message_type_t" where
  "response_type (Connect_body _) = CONNECT"
| "response_type (Connack_body _) = CONNACK"
| "response_type (Publish_body _) = PUBLISH"
| "response_type (Puback_body _) = PUBACK"
| "response_type (Pubrec_body _) = PUBREC"
| "response_type (Pubrel_body _) = PUBREL"
| "response_type (Pubcomp_body _) = PUBCOMP"
| "response_type (Subscribe_body _) = SUBSCRIBE"
| "response_type (Suback_body _) = SUBACK"
| "response_type (Unsubscribe_body _) = UNSUBSCRIBE"
| "response_type (Unsuback_body _) = UNSUBACK"
| "response_type Pingreq_body = PINGREQ"
| "response_type Pingresp_body = PINGRESP"
| "response_type Disconnect_body = DISCONNECT"

subsection \<open>The bit macros of \<^verbatim>\<open>messages.c\<close>\<close>

definition PACK_MESSAGE_TYPE :: "message_type_t \<Rightarrow> u8" where
  "PACK_MESSAGE_TYPE m = push_bit 4 (message_type_code m)"

definition UNPACK_MESSAGE_TYPE :: "u8 \<Rightarrow> u8" where
  "UNPACK_MESSAGE_TYPE b = drop_bit 4 b"

definition BOOL_TO_BIT :: "bool \<Rightarrow> u32" where
  "BOOL_TO_BIT b = (if b then 1 else 0)"

definition PACK_CONNECT_FLAGS :: "bool \<Rightarrow> bool \<Rightarrow> bool \<Rightarrow> QoS \<Rightarrow> bool \<Rightarrow> bool \<Rightarrow> u32" where
  "PACK_CONNECT_FLAGS user pw will_flag will_qos will_retain clean =
     push_bit 7 (BOOL_TO_BIT user) OR push_bit 6 (BOOL_TO_BIT pw) OR
     push_bit 5 (BOOL_TO_BIT will_retain) OR push_bit 3 (will_qos AND 3) OR
     push_bit 2 (BOOL_TO_BIT will_flag) OR
     push_bit 1 (BOOL_TO_BIT clean)"

definition FLAGS_UNPACK_USER :: "u8 \<Rightarrow> bool" where
  "FLAGS_UNPACK_USER bits \<longleftrightarrow> drop_bit 7 (bits AND 0x80) \<noteq> 0"

definition FLAGS_UNPACK_PW :: "u8 \<Rightarrow> bool" where
  "FLAGS_UNPACK_PW bits \<longleftrightarrow> drop_bit 6 (bits AND 0x40) \<noteq> 0"

definition FLAGS_UNPACK_WILL_RETAIN :: "u8 \<Rightarrow> bool" where
  "FLAGS_UNPACK_WILL_RETAIN bits \<longleftrightarrow> drop_bit 5 (bits AND 0x20) \<noteq> 0"

definition FLAGS_UNPACK_WILL_QOS :: "u8 \<Rightarrow> QoS" where
  "FLAGS_UNPACK_WILL_QOS bits = ucast (drop_bit 3 (bits AND 0x18))"

definition FLAGS_UNPACK_WILL_FLAG :: "u8 \<Rightarrow> bool" where
  "FLAGS_UNPACK_WILL_FLAG bits \<longleftrightarrow> drop_bit 2 (bits AND 0x04) \<noteq> 0"

definition FLAGS_UNPACK_CLEAN :: "u8 \<Rightarrow> bool" where
  "FLAGS_UNPACK_CLEAN bits \<longleftrightarrow> drop_bit 1 (bits AND 0x02) \<noteq> 0"

definition QOS_RETURN_OK :: "u8 \<Rightarrow> bool" where
  "QOS_RETURN_OK bits \<longleftrightarrow> bits AND 0xFC = 0"

definition QOS_RETURN_QOS :: "u8 \<Rightarrow> QoS" where
  "QOS_RETURN_QOS bits = ucast (bits AND 3)"

text \<open>For pulling apart a \<^verbatim>\<open>uint16_t\<close>: both macros narrow their argument to eight bits first.\<close>

definition MSB :: "'a :: len word \<Rightarrow> u8" where
  "MSB a = ucast (drop_bit 8 ((ucast (ucast a :: u8) :: u32) AND 0xFF00))"

definition LSB :: "'a :: len word \<Rightarrow> u8" where
  "LSB a = ucast ((ucast (ucast a :: u8) :: u32) AND 0x00FF)"

definition short_from_buffer :: "bytes \<Rightarrow> nat \<Rightarrow> u16 option" where
  "short_from_buffer buffer p =
     do {
       b0 \<leftarrow> buf_get buffer p;
       b1 \<leftarrow> buf_get buffer (p + 1);
       Some ((ucast (push_bit 16 (ucast b0 :: u32)) :: u16) OR ucast b1)
     }"

subsection \<open>What the macros compute\<close>

lemma and_FF: "(x :: u32) AND 0xFF = take_bit 8 x"
  using take_bit_eq_mask [of 8 x] by (simp add: mask_eq_exp_minus_1)

lemma and_3: "(x :: 'a :: len word) AND 3 = take_bit 2 x"
  using take_bit_eq_mask [of 2 x] by (simp add: mask_eq_exp_minus_1)

text \<open>
  \<open>MSB\<close> is always 0 and \<open>short_from_buffer\<close> always ignores the first of its two bytes
  (\<^verbatim>\<open>buffer[0] << 16u\<close> leaves the 16 bits of the result empty): the shorts of a message carry eight
  bits of information.
\<close>

lemma MSB_eq [simp]: "MSB a = 0"
  unfolding MSB_def by (rule bit_word_eqI) (auto simp: bit_simps bit_numeral_word_iff)

lemma LSB_eq [simp]: "LSB a = ucast a"
  unfolding LSB_def and_FF by (rule bit_word_eqI) (auto simp: bit_simps)

lemma short_from_buffer_eq:
  "short_from_buffer b p = (if p + 1 < length b then Some (ucast (b ! (p + 1))) else None)"
proof -
  have "(ucast (push_bit 16 (ucast (c :: u8) :: u32)) :: u16) = 0" for c
    by (rule bit_word_eqI) (auto simp: bit_simps)
  then show ?thesis by (auto simp: short_from_buffer_def buf_get_def)
qed

lemma one_bit: "drop_bit n (w AND 2 ^ n) \<noteq> 0 \<longleftrightarrow> bit w n" for w :: "'a :: len word"
proof -
  have "drop_bit n (w AND 2 ^ n) = of_bool (bit w n)"
    by (rule bit_word_eqI) (auto simp: bit_simps dest: bit_imp_le_length)
  then show ?thesis by simp
qed

lemma flag_bits:
  "FLAGS_UNPACK_USER b \<longleftrightarrow> bit b 7"
  "FLAGS_UNPACK_PW b \<longleftrightarrow> bit b 6"
  "FLAGS_UNPACK_WILL_RETAIN b \<longleftrightarrow> bit b 5"
  "FLAGS_UNPACK_WILL_FLAG b \<longleftrightarrow> bit b 2"
  "FLAGS_UNPACK_CLEAN b \<longleftrightarrow> bit b 1"
  using one_bit [of 7 b] one_bit [of 6 b] one_bit [of 5 b] one_bit [of 2 b] one_bit [of 1 b]
  by (simp_all add: FLAGS_UNPACK_USER_def FLAGS_UNPACK_PW_def FLAGS_UNPACK_WILL_RETAIN_def
      FLAGS_UNPACK_WILL_FLAG_def FLAGS_UNPACK_CLEAN_def)

lemma BOOL_TO_BIT_of_bool: "BOOL_TO_BIT b = of_bool b"
  by (simp add: BOOL_TO_BIT_def)

lemma connect_flags_unpack [simp]:
  "FLAGS_UNPACK_USER (ucast (PACK_CONNECT_FLAGS u pw w q r c)) \<longleftrightarrow> u"
  "FLAGS_UNPACK_PW (ucast (PACK_CONNECT_FLAGS u pw w q r c)) \<longleftrightarrow> pw"
  "FLAGS_UNPACK_WILL_RETAIN (ucast (PACK_CONNECT_FLAGS u pw w q r c)) \<longleftrightarrow> r"
  "FLAGS_UNPACK_WILL_FLAG (ucast (PACK_CONNECT_FLAGS u pw w q r c)) \<longleftrightarrow> w"
  "FLAGS_UNPACK_CLEAN (ucast (PACK_CONNECT_FLAGS u pw w q r c)) \<longleftrightarrow> c"
  by (auto simp: flag_bits PACK_CONNECT_FLAGS_def BOOL_TO_BIT_of_bool and_3 bit_simps)

lemma connect_flags_will_qos [simp]:
  "FLAGS_UNPACK_WILL_QOS (ucast (PACK_CONNECT_FLAGS u pw w q r c)) = q AND 3"
proof -
  have m: "(0x18 :: u8) = push_bit 3 (mask 2)" by (simp add: push_bit_eq_mult mask_eq_exp_minus_1)
  have e: "drop_bit 3 (b AND 0x18) = take_bit 2 (drop_bit 3 b)" for b :: u8
    unfolding m by (intro bit_word_eqI) (auto simp: bit_simps)
  show ?thesis
    unfolding FLAGS_UNPACK_WILL_QOS_def e and_3
    by (rule bit_word_eqI) (auto simp: PACK_CONNECT_FLAGS_def BOOL_TO_BIT_of_bool and_3 bit_simps)
qed

lemma message_type_of_code [simp]: "message_type_of (message_type_code m) = Some m"
  by (cases m) (simp_all add: message_type_of_def message_types_def)

lemmas message_type_of_simps [simp] =
  message_type_of_code [of CONNECT, simplified] message_type_of_code [of CONNACK, simplified]
  message_type_of_code [of PUBLISH, simplified] message_type_of_code [of PUBACK, simplified]
  message_type_of_code [of PUBREC, simplified] message_type_of_code [of PUBREL, simplified]
  message_type_of_code [of PUBCOMP, simplified] message_type_of_code [of SUBSCRIBE, simplified]
  message_type_of_code [of SUBACK, simplified] message_type_of_code [of UNSUBSCRIBE, simplified]
  message_type_of_code [of UNSUBACK, simplified] message_type_of_code [of PINGREQ, simplified]
  message_type_of_code [of PINGRESP, simplified] message_type_of_code [of DISCONNECT, simplified]

lemma UNPACK_PACK [simp]: "UNPACK_MESSAGE_TYPE (PACK_MESSAGE_TYPE m) = message_type_code m"
  by (cases m) (simp_all add: UNPACK_MESSAGE_TYPE_def PACK_MESSAGE_TYPE_def)

lemma connack_of_code [simp]: "(\<And>b. t \<noteq> Connack_other b) \<Longrightarrow> connack_of_byte (connack_code t) = t"
  by (cases t) (auto simp: connack_of_byte_def)

end
