(* ===== verification/Serialize.thy ===== *)
theory Serialize
  imports Varlen Messages
begin

section \<open>Building messages (\<^verbatim>\<open>make_*_message\<close>)\<close>

text \<open>
  \<^verbatim>\<open>libsmqttcore/messages.c\<close>, lines 41 to 77 and 333 to 644: the cursor macros and the fourteen
  functions that write a packet into a caller's buffer. The functions take the buffer's length but
  never look at it (the source says \<^verbatim>\<open>TODO: add overflow checks\<close>): a packet that does not fit is an
  out-of-bounds store, \<open>None\<close> in the model.

  The lemmas reduce every function to one block store of the packet's bytes, given by the
  \<open>*_wire\<close> functions; the locale \<open>serializer\<close> is that contract, interpreted for each of the
  fourteen functions.
\<close>

subsection \<open>The cursor\<close>

text \<open>A cursor is the array it writes into and the two pointers of \<^verbatim>\<open>cursor_t\<close>.\<close>

record cursor_t =
  cu_mem :: bytes
  cu_base :: nat
  cu_current :: nat

definition CURSOR_POSITION :: "cursor_t \<Rightarrow> nat" where
  "CURSOR_POSITION c = cu_current c - cu_base c"

definition CURSOR_INIT :: "bytes \<Rightarrow> cursor_t" where
  "CURSOR_INIT origin = \<lparr>cu_mem = origin, cu_base = 0, cu_current = 0\<rparr>"

definition SER_byte :: "u8 \<Rightarrow> cursor_t \<Rightarrow> cursor_t option" where
  "SER_byte b c =
     do {
       m \<leftarrow> buf_set (cu_mem c) (cu_current c) b;
       Some (c\<lparr>cu_mem := m, cu_current := cu_current c + 1\<rparr>)
     }"

definition SER_short :: "'a :: len word \<Rightarrow> cursor_t \<Rightarrow> cursor_t option" where
  "SER_short s c =
     do {
       m \<leftarrow> buf_set (cu_mem c) (cu_current c) (MSB s);
       m' \<leftarrow> buf_set m (cu_current c + 1) (LSB s);
       Some (c\<lparr>cu_mem := m', cu_current := cu_current c + 2\<rparr>)
     }"

definition SER_string :: "bytes \<Rightarrow> cursor_t \<Rightarrow> cursor_t option" where
  "SER_string str c =
     do {
       let len = length (cstr str);
       m \<leftarrow> buf_put (cu_mem c) (cu_current c) (strncpy_str str len);
       Some (c\<lparr>cu_mem := m, cu_current := cu_current c + len\<rparr>)
     }"

definition SER_len :: "size_t \<Rightarrow> cursor_t \<Rightarrow> cursor_t option" where
  "SER_len len c =
     do {
       (m, used, _) \<leftarrow> encode_size len (cu_mem c) (cu_current c);
       Some (c\<lparr>cu_mem := m, cu_current := cu_current c + used\<rparr>)
     }"

definition CURSOR_RESULT :: "cursor_t \<Rightarrow> (bytes \<times> nat) option" where
  "CURSOR_RESULT c = Some (cu_mem c, CURSOR_POSITION c)"

subsection \<open>The messages\<close>

text \<open>\<^verbatim>\<open>"MQIsdp"\<close>\<close>

definition protocol_name :: bytes where
  "protocol_name = [77, 81, 73, 115, 100, 112]"

definition protocol_level :: u8 where
  "protocol_level = 3"

text \<open>The arguments of \<^verbatim>\<open>make_connect_message\<close> after the buffer, in the order of the code.\<close>

record connect_args =
  a_clientid :: bytes
  a_user :: "bytes option"
  a_pw :: "bytes option"
  a_keep_alive :: u8
  a_clean_session :: bool
  a_last_will :: bool
  a_will_qos :: QoS
  a_will_retain :: bool
  a_will_topic :: "bytes option"
  a_will_message :: "bytes option"

text \<open>\<open>SER_short(len); SER_string(s)\<close> for an optional argument.\<close>

definition SER_opt_string :: "bytes option \<Rightarrow> cursor_t \<Rightarrow> cursor_t option" where
  "SER_opt_string s c =
     (case s of None \<Rightarrow> Some c
      | Some str \<Rightarrow> do { c \<leftarrow> SER_short (strlen str) c; SER_string str c })"

definition make_connect_message :: "bytes \<Rightarrow> size_t \<Rightarrow> connect_args \<Rightarrow> (bytes \<times> nat) option" where
  "make_connect_message buffer len_unused a =
     do {
       let protocol_name_len = strlen protocol_name;
       let client_id_len = strlen (a_clientid a);
       c \<leftarrow> SER_byte (PACK_MESSAGE_TYPE CONNECT) (CURSOR_INIT buffer);
       let len = 8 + protocol_name_len + client_id_len;
       len \<leftarrow> (if a_last_will a then do {
           will_topic \<leftarrow> a_will_topic a;
           will_message \<leftarrow> a_will_message a;
           Some (len + (2 + strlen will_topic + 2 + strlen will_message))
         } else Some len);
       let len = (case a_user a of None \<Rightarrow> len | Some user \<Rightarrow> len + (2 + strlen user));
       let len = (case a_pw a of None \<Rightarrow> len | Some pw \<Rightarrow> len + (2 + strlen pw));
       c \<leftarrow> SER_len len c;
       c \<leftarrow> SER_short protocol_name_len c;
       c \<leftarrow> SER_string protocol_name c;
       c \<leftarrow> SER_byte protocol_level c;
       let connect_flags = (ucast (PACK_CONNECT_FLAGS (a_user a \<noteq> None) (a_pw a \<noteq> None)
             (a_last_will a) (a_will_qos a) (a_will_retain a) (a_clean_session a)) :: u8);
       c \<leftarrow> SER_byte connect_flags c;
       c \<leftarrow> SER_short (a_keep_alive a) c;
       c \<leftarrow> SER_short client_id_len c;
       c \<leftarrow> SER_string (a_clientid a) c;
       c \<leftarrow> (if a_last_will a then do {
           c \<leftarrow> SER_opt_string (a_will_topic a) c;
           SER_opt_string (a_will_message a) c
         } else Some c);
       c \<leftarrow> SER_opt_string (a_user a) c;
       c \<leftarrow> SER_opt_string (a_pw a) c;
       CURSOR_RESULT c
     }"

definition make_connack_message :: "bytes \<Rightarrow> size_t \<Rightarrow> connack_msg_t \<Rightarrow> (bytes \<times> nat) option" where
  "make_connack_message buffer len_unused type =
     do {
       c \<leftarrow> SER_byte (PACK_MESSAGE_TYPE CONNACK) (CURSOR_INIT buffer);
       c \<leftarrow> SER_len 2 c;
       c \<leftarrow> SER_byte 0 c;
       c \<leftarrow> SER_byte (connack_code type) c;
       CURSOR_RESULT c
     }"

definition make_disconnect_message :: "bytes \<Rightarrow> size_t \<Rightarrow> (bytes \<times> nat) option" where
  "make_disconnect_message buffer len_unused =
     do {
       c \<leftarrow> SER_byte (PACK_MESSAGE_TYPE DISCONNECT) (CURSOR_INIT buffer);
       c \<leftarrow> SER_byte 0 c;
       CURSOR_RESULT c
     }"

definition make_publish_message ::
  "bytes \<Rightarrow> size_t \<Rightarrow> bytes \<Rightarrow> u16 \<Rightarrow> QoS \<Rightarrow> bool \<Rightarrow> bytes option \<Rightarrow> (bytes \<times> nat) option"
where
  "make_publish_message buffer len_unused topic packet_id qos retain msg =
     do {
       c \<leftarrow> SER_byte (PACK_MESSAGE_TYPE PUBLISH OR ucast (push_bit 1 qos) OR of_bool retain)
             (CURSOR_INIT buffer);
       let packet_id_len = ((if qos \<ge> QoS1 then 2 else 0) :: size_t);
       let message_len = ((case msg of None \<Rightarrow> 0 | Some m \<Rightarrow> ucast (strlen m)) :: u16);
       c \<leftarrow> SER_len (2 + strlen topic + packet_id_len + ucast message_len) c;
       c \<leftarrow> SER_short (strlen topic) c;
       c \<leftarrow> SER_string topic c;
       c \<leftarrow> (if qos \<ge> QoS1 then SER_short packet_id c else Some c);
       c \<leftarrow> (case msg of None \<Rightarrow> Some c | Some m \<Rightarrow> SER_string m c);
       CURSOR_RESULT c
     }"

definition make_puback_message :: "bytes \<Rightarrow> size_t \<Rightarrow> u16 \<Rightarrow> (bytes \<times> nat) option" where
  "make_puback_message buffer len_unused packet_id =
     do {
       c \<leftarrow> SER_byte (PACK_MESSAGE_TYPE PUBACK) (CURSOR_INIT buffer);
       c \<leftarrow> SER_len 2 c;
       c \<leftarrow> SER_short packet_id c;
       CURSOR_RESULT c
     }"

definition make_pubrec_message :: "bytes \<Rightarrow> size_t \<Rightarrow> u16 \<Rightarrow> (bytes \<times> nat) option" where
  "make_pubrec_message buffer len_unused packet_id =
     do {
       c \<leftarrow> SER_byte (PACK_MESSAGE_TYPE PUBREC) (CURSOR_INIT buffer);
       c \<leftarrow> SER_len 2 c;
       c \<leftarrow> SER_short packet_id c;
       CURSOR_RESULT c
     }"

definition make_pubrel_message :: "bytes \<Rightarrow> size_t \<Rightarrow> u16 \<Rightarrow> (bytes \<times> nat) option" where
  "make_pubrel_message buffer len_unused packet_id =
     do {
       c \<leftarrow> SER_byte (PACK_MESSAGE_TYPE PUBREL OR ucast (push_bit 1 QoS1)) (CURSOR_INIT buffer);
       c \<leftarrow> SER_len 2 c;
       c \<leftarrow> SER_short packet_id c;
       CURSOR_RESULT c
     }"

definition make_pubcomp_message :: "bytes \<Rightarrow> size_t \<Rightarrow> u16 \<Rightarrow> (bytes \<times> nat) option" where
  "make_pubcomp_message buffer len_unused packet_id =
     do {
       c \<leftarrow> SER_byte (PACK_MESSAGE_TYPE PUBCOMP) (CURSOR_INIT buffer);
       c \<leftarrow> SER_len 2 c;
       c \<leftarrow> SER_short packet_id c;
       CURSOR_RESULT c
     }"

text \<open>
  The loops over \<open>topic_count\<close> topics read their arrays with the bound check of \<open>list_get\<close>.
  \<open>get_utf8_string_size\<close> sums into a \<^verbatim>\<open>uint16_t\<close>, which wraps.
\<close>

function utf8_size_loop :: "nat \<Rightarrow> nat \<Rightarrow> bytes list \<Rightarrow> bool \<Rightarrow> u16 \<Rightarrow> u16 option" where
  "utf8_size_loop i topic_count topics include_qos tot =
     (if i < topic_count then do {
        t \<leftarrow> list_get topics i;
        let tot = tot + ucast (2 + strlen t);
        utf8_size_loop (i + 1) topic_count topics include_qos (if include_qos then tot + 1 else tot)
      }
      else Some tot)"
  by pat_completeness auto
termination
  by (relation "measure (\<lambda>(i, n, _). n - i)") auto

definition get_utf8_string_size :: "u16 \<Rightarrow> bytes list \<Rightarrow> bool \<Rightarrow> u16 option" where
  "get_utf8_string_size topic_count topics include_qos =
     utf8_size_loop 0 (unat topic_count) topics include_qos 0"

function subscribe_loop ::
  "nat \<Rightarrow> nat \<Rightarrow> bytes list \<Rightarrow> QoS list \<Rightarrow> cursor_t \<Rightarrow> cursor_t option" where
  "subscribe_loop position topic_count topics qoss c =
     (if position < topic_count then do {
        t \<leftarrow> list_get topics position;
        c \<leftarrow> SER_short (strlen t) c;
        c \<leftarrow> SER_string t c;
        q \<leftarrow> list_get qoss position;
        c \<leftarrow> SER_byte (ucast q) c;
        subscribe_loop (position + 1) topic_count topics qoss c
      }
      else Some c)"
  by pat_completeness auto
termination
  by (relation "measure (\<lambda>(i, n, _). n - i)") auto

definition make_subscribe_message ::
  "bytes \<Rightarrow> size_t \<Rightarrow> u16 \<Rightarrow> u16 \<Rightarrow> bytes list \<Rightarrow> QoS list \<Rightarrow> (bytes \<times> nat) option" where
  "make_subscribe_message buffer len_unused packet_id topic_count topics qoss =
     do {
       c \<leftarrow> SER_byte (PACK_MESSAGE_TYPE SUBSCRIBE OR ucast (push_bit 1 QoS1)) (CURSOR_INIT buffer);
       n \<leftarrow> get_utf8_string_size topic_count topics True;
       c \<leftarrow> SER_len (2 + ucast n) c;
       c \<leftarrow> SER_short packet_id c;
       c \<leftarrow> subscribe_loop 0 (unat topic_count) topics qoss c;
       CURSOR_RESULT c
     }"

function suback_loop ::
  "nat \<Rightarrow> nat \<Rightarrow> bool list \<Rightarrow> QoS list \<Rightarrow> cursor_t \<Rightarrow> cursor_t option" where
  "suback_loop i topic_count success qoss c =
     (if i < topic_count then do {
        ok \<leftarrow> list_get success i;
        q \<leftarrow> (if ok then list_get qoss i else Some 0x80);
        c \<leftarrow> SER_byte (ucast q) c;
        suback_loop (i + 1) topic_count success qoss c
      }
      else Some c)"
  by pat_completeness auto
termination
  by (relation "measure (\<lambda>(i, n, _). n - i)") auto

definition make_suback_message ::
  "bytes \<Rightarrow> size_t \<Rightarrow> u16 \<Rightarrow> u16 \<Rightarrow> bool list \<Rightarrow> QoS list \<Rightarrow> (bytes \<times> nat) option" where
  "make_suback_message buffer len_unused packet_id topic_count success qoss =
     do {
       c \<leftarrow> SER_byte (PACK_MESSAGE_TYPE SUBACK) (CURSOR_INIT buffer);
       c \<leftarrow> SER_len (2 + ucast topic_count) c;
       c \<leftarrow> SER_short packet_id c;
       c \<leftarrow> suback_loop 0 (unat topic_count) success qoss c;
       CURSOR_RESULT c
     }"

function unsubscribe_loop :: "nat \<Rightarrow> nat \<Rightarrow> bytes list \<Rightarrow> cursor_t \<Rightarrow> cursor_t option" where
  "unsubscribe_loop i topic_count topics c =
     (if i < topic_count then do {
        t \<leftarrow> list_get topics i;
        c \<leftarrow> SER_short (strlen t) c;
        c \<leftarrow> SER_string t c;
        unsubscribe_loop (i + 1) topic_count topics c
      }
      else Some c)"
  by pat_completeness auto
termination
  by (relation "measure (\<lambda>(i, n, _). n - i)") auto

definition make_unsubscribe_message ::
  "bytes \<Rightarrow> size_t \<Rightarrow> u16 \<Rightarrow> u16 \<Rightarrow> bytes list \<Rightarrow> (bytes \<times> nat) option" where
  "make_unsubscribe_message buffer len_unused packet_id topic_count topics =
     do {
       c \<leftarrow> SER_byte (PACK_MESSAGE_TYPE UNSUBSCRIBE OR ucast (push_bit 1 QoS1)) (CURSOR_INIT buffer);
       n \<leftarrow> get_utf8_string_size topic_count topics False;
       c \<leftarrow> SER_len (2 + ucast n) c;
       c \<leftarrow> SER_short packet_id c;
       c \<leftarrow> unsubscribe_loop 0 (unat topic_count) topics c;
       CURSOR_RESULT c
     }"

definition make_unsuback_message :: "bytes \<Rightarrow> size_t \<Rightarrow> u16 \<Rightarrow> (bytes \<times> nat) option" where
  "make_unsuback_message buffer len_unused packet_id =
     do {
       c \<leftarrow> SER_byte (PACK_MESSAGE_TYPE UNSUBACK) (CURSOR_INIT buffer);
       c \<leftarrow> SER_len 2 c;
       c \<leftarrow> SER_short packet_id c;
       CURSOR_RESULT c
     }"

definition make_pingreq_message :: "bytes \<Rightarrow> size_t \<Rightarrow> (bytes \<times> nat) option" where
  "make_pingreq_message buffer len_unused =
     do {
       c \<leftarrow> SER_byte (PACK_MESSAGE_TYPE PINGREQ) (CURSOR_INIT buffer);
       c \<leftarrow> SER_len 0 c;
       CURSOR_RESULT c
     }"

definition make_pingresp_message :: "bytes \<Rightarrow> size_t \<Rightarrow> (bytes \<times> nat) option" where
  "make_pingresp_message buffer len_unused =
     do {
       c \<leftarrow> SER_byte (PACK_MESSAGE_TYPE PINGRESP) (CURSOR_INIT buffer);
       c \<leftarrow> SER_len 0 c;
       CURSOR_RESULT c
     }"

declare utf8_size_loop.simps [simp del] subscribe_loop.simps [simp del]
  suback_loop.simps [simp del] unsubscribe_loop.simps [simp del]

subsection \<open>The bytes of each message\<close>

text \<open>
  The packets as byte sequences. \<open>size_field\<close> is what \<open>SER_len\<close> stores (\<open>varlen\<close> for a size below
  \<open>2 ^ 28\<close>), \<open>short_wire\<close> what \<open>SER_short\<close> stores: a zero and the low byte.
\<close>

definition size_field :: "size_t \<Rightarrow> bytes" where
  "size_field n = varlen_upto 4 (unat n)"

definition short_wire :: "'a :: len word \<Rightarrow> bytes" where
  "short_wire s = [0, ucast s]"

definition string_wire :: "bytes \<Rightarrow> bytes" where
  "string_wire s = short_wire (strlen s) @ cstr s"

definition opt_wire :: "bytes option \<Rightarrow> bytes" where
  "opt_wire s = (case s of None \<Rightarrow> [] | Some str \<Rightarrow> string_wire str)"

definition opt_len :: "bytes option \<Rightarrow> size_t" where
  "opt_len s = (case s of None \<Rightarrow> 0 | Some str \<Rightarrow> 2 + strlen str)"

definition connect_len :: "connect_args \<Rightarrow> size_t" where
  "connect_len a =
     8 + strlen protocol_name + strlen (a_clientid a) +
     (if a_last_will a then opt_len (a_will_topic a) + opt_len (a_will_message a) else 0) +
     opt_len (a_user a) + opt_len (a_pw a)"

definition connect_flags :: "connect_args \<Rightarrow> u8" where
  "connect_flags a = ucast (PACK_CONNECT_FLAGS (a_user a \<noteq> None) (a_pw a \<noteq> None)
     (a_last_will a) (a_will_qos a) (a_will_retain a) (a_clean_session a))"

definition connect_wire :: "connect_args \<Rightarrow> bytes" where
  "connect_wire a =
     [PACK_MESSAGE_TYPE CONNECT] @ size_field (connect_len a) @
     string_wire protocol_name @ [protocol_level, connect_flags a] @ short_wire (a_keep_alive a) @
     string_wire (a_clientid a) @
     (if a_last_will a then opt_wire (a_will_topic a) @ opt_wire (a_will_message a) else []) @
     opt_wire (a_user a) @ opt_wire (a_pw a)"

definition ack_wire :: "u8 \<Rightarrow> u16 \<Rightarrow> bytes" where
  "ack_wire header packet_id = [header, 2] @ short_wire packet_id"

definition connack_wire :: "connack_msg_t \<Rightarrow> bytes" where
  "connack_wire t = [PACK_MESSAGE_TYPE CONNACK, 2, 0, connack_code t]"

type_synonym publish_args = "bytes \<times> u16 \<times> QoS \<times> bool \<times> bytes option"

fun publish_wire :: "publish_args \<Rightarrow> bytes" where
  "publish_wire (topic, packet_id, qos, retain, msg) =
     [PACK_MESSAGE_TYPE PUBLISH OR ucast (push_bit 1 qos) OR of_bool retain] @
     size_field (2 + strlen topic + (if qos \<ge> QoS1 then 2 else 0) +
       ucast ((case msg of None \<Rightarrow> 0 | Some m \<Rightarrow> ucast (strlen m)) :: u16)) @
     string_wire topic @ (if qos \<ge> QoS1 then short_wire packet_id else []) @
     (case msg of None \<Rightarrow> [] | Some m \<Rightarrow> cstr m)"

definition utf8_size :: "bytes list \<Rightarrow> bool \<Rightarrow> u16" where
  "utf8_size ts include_qos =
     (\<Sum>t\<leftarrow>ts. ucast (2 + strlen t) + of_bool include_qos)"

type_synonym subscribe_args = "u16 \<times> u16 \<times> bytes list \<times> QoS list"

definition topic_qos_wire :: "bytes list \<Rightarrow> QoS list \<Rightarrow> bytes" where
  "topic_qos_wire ts qs = concat (map2 (\<lambda>t q. string_wire t @ [ucast q]) ts qs)"

fun subscribe_wire :: "subscribe_args \<Rightarrow> bytes" where
  "subscribe_wire (packet_id, topic_count, topics, qoss) =
     (let n = unat topic_count; ts = take n topics; qs = take n qoss in
       [PACK_MESSAGE_TYPE SUBSCRIBE OR 2] @ size_field (2 + ucast (utf8_size ts True)) @
       short_wire packet_id @ topic_qos_wire ts qs)"

type_synonym suback_args = "u16 \<times> u16 \<times> bool list \<times> QoS list"

definition suback_codes :: "bool list \<Rightarrow> QoS list \<Rightarrow> bytes" where
  "suback_codes oks qs = map2 (\<lambda>ok q. if ok then ucast q else 0x80) oks qs"

fun suback_wire :: "suback_args \<Rightarrow> bytes" where
  "suback_wire (packet_id, topic_count, success, qoss) =
     (let n = unat topic_count in
       [PACK_MESSAGE_TYPE SUBACK] @ size_field (2 + ucast topic_count) @ short_wire packet_id @
       suback_codes (take n success) (take n qoss))"

type_synonym unsubscribe_args = "u16 \<times> u16 \<times> bytes list"

fun unsubscribe_wire :: "unsubscribe_args \<Rightarrow> bytes" where
  "unsubscribe_wire (packet_id, topic_count, topics) =
     (let ts = take (unat topic_count) topics in
       [PACK_MESSAGE_TYPE UNSUBSCRIBE OR 2] @ size_field (2 + ucast (utf8_size ts False)) @
       short_wire packet_id @ concat (map string_wire ts))"

text \<open>
  The arguments for which the code reads only what it was given: a last will needs its two
  strings, the topic arrays have at least \<open>topic_count\<close> elements.
\<close>

definition connect_args_ok :: "connect_args \<Rightarrow> bool" where
  "connect_args_ok a \<longleftrightarrow> (a_last_will a \<longrightarrow> a_will_topic a \<noteq> None \<and> a_will_message a \<noteq> None)"

fun subscribe_args_ok :: "subscribe_args \<Rightarrow> bool" where
  "subscribe_args_ok (packet_id, topic_count, topics, qoss) \<longleftrightarrow>
     unat topic_count \<le> length topics \<and> unat topic_count \<le> length qoss"

fun suback_args_ok :: "suback_args \<Rightarrow> bool" where
  "suback_args_ok (packet_id, topic_count, success, qoss) \<longleftrightarrow>
     unat topic_count \<le> length success \<and> unat topic_count \<le> length qoss"

fun unsubscribe_args_ok :: "unsubscribe_args \<Rightarrow> bool" where
  "unsubscribe_args_ok (packet_id, topic_count, topics) \<longleftrightarrow> unat topic_count \<le> length topics"

subsection \<open>Cursor operations are block stores\<close>

definition cursor_put :: "bytes \<Rightarrow> cursor_t \<Rightarrow> cursor_t option" where
  "cursor_put bs c =
     map_option (\<lambda>m. c\<lparr>cu_mem := m, cu_current := cu_current c + length bs\<rparr>)
       (buf_put (cu_mem c) (cu_current c) bs)"

named_theorems ser_simps \<open>cursor operations as block stores\<close>

lemma SER_byte_put [ser_simps]: "SER_byte b = cursor_put [b]"
  by (simp add: fun_eq_iff SER_byte_def cursor_put_def buf_set_put bind_Some_map)

lemma SER_short_put [ser_simps]: "SER_short s = cursor_put (short_wire s)"
proof
  fix c :: cursor_t
  have "Option.bind (buf_set (cu_mem c) (cu_current c) 0)
        (\<lambda>m. buf_set m (cu_current c + 1) (ucast s)) = buf_put (cu_mem c) (cu_current c) [0, ucast s]"
    using buf_put_append [of "cu_mem c" "cu_current c" "[0]" "[ucast s]"] by (simp add: buf_set_put)
  then show "SER_short s c = cursor_put (short_wire s) c"
    by (cases "buf_set (cu_mem c) (cu_current c) 0")
      (simp_all add: SER_short_def cursor_put_def short_wire_def bind_Some_map)
qed

lemma SER_string_put [ser_simps]: "SER_string s = cursor_put (cstr s)"
  by (simp add: fun_eq_iff SER_string_def cursor_put_def Let_def bind_Some_map)

lemma SER_len_put [ser_simps]: "SER_len n = cursor_put (size_field n)"
  by (simp add: fun_eq_iff SER_len_def cursor_put_def encode_size_eq size_field_def bind_map_option
      bind_Some_map)

lemma cursor_put_Nil: "cursor_put [] c = Some c"
  by (simp add: cursor_put_def)

lemma cursor_put_append [ser_simps]:
  "Option.bind (cursor_put us c) (cursor_put vs) = cursor_put (us @ vs) c"
  unfolding cursor_put_def
  using buf_put_append [of "cu_mem c" "cu_current c" us vs]
  by (cases "buf_put (cu_mem c) (cu_current c) us") (auto simp: add.assoc)

lemma cursor_put_bind [ser_simps]:
  "Option.bind (cursor_put us c) (\<lambda>c. Option.bind (cursor_put vs c) f) =
    Option.bind (cursor_put (us @ vs) c) f"
  by (simp flip: cursor_put_append add: Option.bind_assoc)

lemma cursor_put_result [ser_simps]:
  "Option.bind (cursor_put bs (CURSOR_INIT buffer)) CURSOR_RESULT =
    map_option (\<lambda>b. (b, length bs)) (buf_put buffer 0 bs)"
  by (cases "buf_put buffer 0 bs")
    (simp_all add: cursor_put_def CURSOR_INIT_def CURSOR_RESULT_def CURSOR_POSITION_def)

lemma SER_opt_string_put [ser_simps]: "SER_opt_string s = cursor_put (opt_wire s)"
  by (cases s) (simp_all add: fun_eq_iff SER_opt_string_def opt_wire_def string_wire_def ser_simps cursor_put_Nil)

subsection \<open>The loops over topics\<close>

lemma drop_take_Suc: "i < n \<Longrightarrow> n \<le> length xs \<Longrightarrow> drop i (take n xs) = xs ! i # drop (Suc i) (take n xs)"
  by (metis Cons_nth_drop_Suc length_take min.absorb2 nth_take)

lemma utf8_size_loop_eq:
  "n \<le> length topics \<Longrightarrow>
    utf8_size_loop i n topics iq t = Some (t + utf8_size (drop i (take n topics)) iq)"
proof (induction i n topics iq t rule: utf8_size_loop.induct)
  case (1 i n topics iq t)
  show ?case
  proof (cases "i < n")
    case True
    with 1 show ?thesis
      by (simp add: utf8_size_loop.simps [of i] list_get_in drop_take_Suc utf8_size_def add.assoc)
  next
    case False
    then show ?thesis by (simp add: utf8_size_loop.simps [of i] utf8_size_def)
  qed
qed

lemma subscribe_loop_eq:
  "n \<le> length topics \<Longrightarrow> n \<le> length qoss \<Longrightarrow>
    subscribe_loop i n topics qoss =
      cursor_put (topic_qos_wire (drop i (take n topics)) (drop i (take n qoss)))"
proof (induction "n - i" arbitrary: i)
  case 0
  then show ?case by (simp add: fun_eq_iff subscribe_loop.simps [of i] topic_qos_wire_def cursor_put_Nil)
next
  case (Suc k)
  then have i: "i < n" and IH: "subscribe_loop (Suc i) n topics qoss =
      cursor_put (topic_qos_wire (drop (Suc i) (take n topics)) (drop (Suc i) (take n qoss)))"
    by auto
  show ?case
    using i Suc.prems
    by (simp add: fun_eq_iff subscribe_loop.simps [of i] list_get_in drop_take_Suc topic_qos_wire_def
        string_wire_def ser_simps IH [unfolded topic_qos_wire_def])
qed

lemma unsubscribe_loop_eq:
  "n \<le> length topics \<Longrightarrow>
    unsubscribe_loop i n topics = cursor_put (concat (map string_wire (drop i (take n topics))))"
proof (induction "n - i" arbitrary: i)
  case 0
  then show ?case by (simp add: fun_eq_iff unsubscribe_loop.simps [of i] cursor_put_Nil)
next
  case (Suc k)
  then have i: "i < n" and IH: "unsubscribe_loop (Suc i) n topics =
      cursor_put (concat (map string_wire (drop (Suc i) (take n topics))))"
    by auto
  show ?case
    using i Suc.prems
    by (simp add: fun_eq_iff unsubscribe_loop.simps [of i] list_get_in drop_take_Suc string_wire_def ser_simps IH)
qed

lemma suback_loop_eq:
  "n \<le> length oks \<Longrightarrow> n \<le> length qoss \<Longrightarrow>
    suback_loop i n oks qoss =
      cursor_put (suback_codes (drop i (take n oks)) (drop i (take n qoss)))"
proof (induction "n - i" arbitrary: i)
  case 0
  then show ?case by (simp add: fun_eq_iff suback_loop.simps [of i] suback_codes_def cursor_put_Nil)
next
  case (Suc k)
  then have i: "i < n" and IH: "suback_loop (Suc i) n oks qoss =
      cursor_put (suback_codes (drop (Suc i) (take n oks)) (drop (Suc i) (take n qoss)))"
    by auto
  show ?case
    using i Suc.prems
    by (cases "oks ! i") (simp_all add: fun_eq_iff suback_loop.simps [of i] list_get_in drop_take_Suc
        suback_codes_def ser_simps IH [unfolded suback_codes_def])
qed

subsection \<open>The contract of a message builder\<close>

text \<open>
  Given arguments it may read, a builder stores the wire image at the start of the buffer, leaves
  the rest alone and returns its length; it stays inside the buffer exactly when the image fits.
\<close>

text \<open>A packet \<open>w\<close> stored at the start of an array, with its length; undefined if it does not fit.\<close>

definition stored :: "bytes \<Rightarrow> bytes \<Rightarrow> (bytes \<times> nat) option" where
  "stored buffer w =
     (if length w \<le> length buffer then Some (w @ drop (length w) buffer, length w) else None)"

locale serializer =
  fixes make :: "'m \<Rightarrow> bytes \<Rightarrow> (bytes \<times> nat) option"
    and wire :: "'m \<Rightarrow> bytes"
    and args_ok :: "'m \<Rightarrow> bool"
  assumes make_put: "args_ok m \<Longrightarrow>
      make m buffer = map_option (\<lambda>b. (b, length (wire m))) (buf_put buffer 0 (wire m))"
    and wire_nonempty: "wire m \<noteq> []"
begin

lemma make_fits:
  "args_ok m \<Longrightarrow> length (wire m) \<le> length buffer \<Longrightarrow>
    make m buffer = Some (wire m @ drop (length (wire m)) buffer, length (wire m))"
  by (simp add: make_put mem_simps)

lemma make_overflow: "args_ok m \<Longrightarrow> length buffer < length (wire m) \<Longrightarrow> make m buffer = None"
  using wire_nonempty [of m] by (simp add: make_put buf_put_def)

lemma make_stores: "args_ok m \<Longrightarrow> make m buffer = stored buffer (wire m)"
  by (simp add: stored_def make_fits make_overflow)

lemma make_defined: "args_ok m \<Longrightarrow> make m buffer \<noteq> None \<longleftrightarrow> length (wire m) \<le> length buffer"
  using make_fits make_overflow by (metis not_le option.distinct(1))

lemma make_SomeD:
  assumes "args_ok m" "make m buffer = Some (b, n)"
  shows "n = length (wire m) \<and> n \<le> length b \<and> length b = length buffer \<and> take n b = wire m \<and>
    drop n b = drop n buffer"
proof -
  have "length (wire m) \<le> length buffer" using assms make_defined by (metis option.distinct(1))
  with assms make_fits [of m buffer] show ?thesis by auto
qed

end

lemma size_field_small: "unat n < 128 \<Longrightarrow> size_field n = [ucast n]"
proof -
  assume "unat n < 128"
  moreover have "(of_nat (unat n) :: u8) = ucast n" by (simp add: of_nat_unat)
  ultimately show ?thesis by (simp add: size_field_def numeral_eq_Suc)
qed

lemma size_field_consts [simp]: "size_field 0 = [0]" "size_field 2 = [2]"
  by (simp_all add: size_field_small)

subsection \<open>Every builder meets the contract\<close>

interpretation connect: serializer "\<lambda>a b. make_connect_message b len a" connect_wire connect_args_ok for len
proof
  fix a :: connect_args and buffer
  assume ok: "connect_args_ok a"
  show "make_connect_message buffer len a =
      map_option (\<lambda>b. (b, length (connect_wire a))) (buf_put buffer 0 (connect_wire a))"
  proof (cases "a_last_will a")
    case True
    with ok obtain wt wm where w: "a_will_topic a = Some wt" "a_will_message a = Some wm"
      by (auto simp: connect_args_ok_def)
    with True show ?thesis
      by (cases "a_user a"; cases "a_pw a")
        (simp_all add: make_connect_message_def Let_def ser_simps connect_wire_def connect_len_def
          connect_flags_def opt_wire_def opt_len_def string_wire_def add.assoc cursor_put_Nil)
  next
    case False
    then show ?thesis
      by (cases "a_user a"; cases "a_pw a")
        (simp_all add: make_connect_message_def Let_def ser_simps connect_wire_def connect_len_def
          connect_flags_def opt_wire_def opt_len_def string_wire_def add.assoc cursor_put_Nil)
  qed
qed (simp add: connect_wire_def)

interpretation connack: serializer "\<lambda>t b. make_connack_message b len t" connack_wire "\<lambda>_. True" for len
  by unfold_locales (simp_all add: make_connack_message_def connack_wire_def ser_simps)

interpretation disconnect:
  serializer "\<lambda>_ b. make_disconnect_message b len" "\<lambda>_. [PACK_MESSAGE_TYPE DISCONNECT, 0]" "\<lambda>_. True"
  for len
  by unfold_locales (simp_all add: make_disconnect_message_def ser_simps)

interpretation publish:
  serializer "\<lambda>(topic, packet_id, qos, retain, msg) b.
      make_publish_message b len topic packet_id qos retain msg" publish_wire "\<lambda>_. True"
  for len
proof
  fix m :: publish_args and buffer
  obtain topic packet_id qos retain msg where m: "m = (topic, packet_id, qos, retain, msg)"
    by (cases m) auto
  show "(case m of (topic, packet_id, qos, retain, msg) \<Rightarrow>
        \<lambda>b. make_publish_message b len topic packet_id qos retain msg) buffer =
      map_option (\<lambda>b. (b, length (publish_wire m))) (buf_put buffer 0 (publish_wire m))"
    by (cases msg) (simp_all add: m make_publish_message_def Let_def ser_simps string_wire_def)
  show "publish_wire m \<noteq> []" by (simp add: m)
qed

interpretation puback:
  serializer "\<lambda>i b. make_puback_message b len i" "ack_wire (PACK_MESSAGE_TYPE PUBACK)" "\<lambda>_. True" for len
  by unfold_locales (simp_all add: make_puback_message_def ack_wire_def ser_simps)

interpretation pubrec:
  serializer "\<lambda>i b. make_pubrec_message b len i" "ack_wire (PACK_MESSAGE_TYPE PUBREC)" "\<lambda>_. True" for len
  by unfold_locales (simp_all add: make_pubrec_message_def ack_wire_def ser_simps)

interpretation pubrel:
  serializer "\<lambda>i b. make_pubrel_message b len i" "ack_wire (PACK_MESSAGE_TYPE PUBREL OR 2)" "\<lambda>_. True"
  for len
  by unfold_locales (simp_all add: make_pubrel_message_def ack_wire_def ser_simps)

interpretation pubcomp:
  serializer "\<lambda>i b. make_pubcomp_message b len i" "ack_wire (PACK_MESSAGE_TYPE PUBCOMP)" "\<lambda>_. True" for len
  by unfold_locales (simp_all add: make_pubcomp_message_def ack_wire_def ser_simps)

interpretation unsuback:
  serializer "\<lambda>i b. make_unsuback_message b len i" "ack_wire (PACK_MESSAGE_TYPE UNSUBACK)" "\<lambda>_. True" for len
  by unfold_locales (simp_all add: make_unsuback_message_def ack_wire_def ser_simps)

interpretation pingreq:
  serializer "\<lambda>_ b. make_pingreq_message b len" "\<lambda>_. [PACK_MESSAGE_TYPE PINGREQ, 0]" "\<lambda>_. True" for len
  by unfold_locales (simp_all add: make_pingreq_message_def ser_simps)

interpretation pingresp:
  serializer "\<lambda>_ b. make_pingresp_message b len" "\<lambda>_. [PACK_MESSAGE_TYPE PINGRESP, 0]" "\<lambda>_. True" for len
  by unfold_locales (simp_all add: make_pingresp_message_def ser_simps)

interpretation subscribe:
  serializer "\<lambda>(packet_id, topic_count, topics, qoss) b.
      make_subscribe_message b len packet_id topic_count topics qoss" subscribe_wire subscribe_args_ok
  for len
  by unfold_locales
    (auto simp: make_subscribe_message_def get_utf8_string_size_def utf8_size_loop_eq
      subscribe_loop_eq ser_simps Let_def)

interpretation suback:
  serializer "\<lambda>(packet_id, topic_count, success, qoss) b.
      make_suback_message b len packet_id topic_count success qoss" suback_wire suback_args_ok
  for len
  by unfold_locales (auto simp: make_suback_message_def suback_loop_eq ser_simps Let_def)

interpretation unsubscribe:
  serializer "\<lambda>(packet_id, topic_count, topics) b.
      make_unsubscribe_message b len packet_id topic_count topics" unsubscribe_wire unsubscribe_args_ok
  for len
  by unfold_locales
    (auto simp: make_unsubscribe_message_def get_utf8_string_size_def utf8_size_loop_eq
      unsubscribe_loop_eq ser_simps Let_def)

end
