(* ===== verification/Deserialize.thy ===== *)
theory Deserialize
  imports Varlen Messages
begin

section \<open>Parsing messages (\<^verbatim>\<open>deserialize_response\<close>)\<close>

text \<open>
  \<^verbatim>\<open>libsmqttcore/messages.c\<close>, lines 129 to 331. The parser reads the array it is given without
  comparing an offset with \<open>length\<close>; the only use of \<open>length\<close> is the end pointer of \<open>decode_size\<close>.
  The model returns \<open>None\<close> where a read leaves the array, \<open>Some None\<close> where the code returns \<^verbatim>\<open>NULL\<close>.

  Where the parser reads is the subject of \<^verbatim>\<open>Parse_Safety\<close>, what it finds in a built packet that of
  \<^verbatim>\<open>Roundtrip\<close>.
\<close>

subsection \<open>Topic and result arrays\<close>

text \<open>
  \<open>fill_topic_loop\<close> is the loop of \<^verbatim>\<open>fill_topic_arrays\<close> from \<open>cur\<close> and \<open>position\<close> on; \<open>with_qos\<close> is
  \<^verbatim>\<open>qoss != NULL\<close>. It returns the lengths, the pointers and the QoS values it stores.
\<close>

function fill_topic_loop ::
  "bytes \<Rightarrow> nat \<Rightarrow> bool \<Rightarrow> nat \<Rightarrow> nat \<Rightarrow> (u16 list \<times> nat list \<times> QoS list) option" where
  "fill_topic_loop buffer max_ptr with_qos cur position =
     (if cur + 2 \<le> max_ptr \<and> position < MAX_TOPICS
      then do {
        len \<leftarrow> short_from_buffer buffer cur;
        q \<leftarrow> (if with_qos then do { b \<leftarrow> buf_get buffer (cur + 2 + unat len); Some [ucast b] }
              else Some []);
        let cur' = cur + 2 + unat len;
        let cur'' = (if with_qos then cur' + 1 else cur');
        (lens, vals, qs) \<leftarrow> fill_topic_loop buffer max_ptr with_qos cur'' (position + 1);
        Some (len # lens, (cur + 2) # vals, q @ qs)
      }
      else Some ([], [], []))"
  by pat_completeness auto
termination
  by (relation "measure (\<lambda>(b, m, q, c, position). MAX_TOPICS - position)") auto

definition fill_topic_arrays ::
  "bytes \<Rightarrow> nat \<Rightarrow> u32 \<Rightarrow> bool \<Rightarrow> (u16 list \<times> nat list \<times> QoS list) option" where
  "fill_topic_arrays buffer p bytecount with_qos =
     fill_topic_loop buffer (p + unat bytecount) with_qos p 0"

function fill_subresult_loop ::
  "bytes \<Rightarrow> nat \<Rightarrow> nat \<Rightarrow> nat \<Rightarrow> (bool list \<times> QoS list) option" where
  "fill_subresult_loop buffer max_ptr cur position =
     (if cur + 1 \<le> max_ptr \<and> position < MAX_TOPICS
      then do {
        b \<leftarrow> buf_get buffer cur;
        (oks, qs) \<leftarrow> fill_subresult_loop buffer max_ptr (cur + 1) (position + 1);
        Some (QOS_RETURN_OK b # oks, QOS_RETURN_QOS b # qs)
      }
      else Some ([], []))"
  by pat_completeness auto
termination
  by (relation "measure (\<lambda>(b, m, c, position). MAX_TOPICS - position)") auto

definition fill_subresult_arrays :: "bytes \<Rightarrow> nat \<Rightarrow> u32 \<Rightarrow> (bool list \<times> QoS list) option" where
  "fill_subresult_arrays buffer p bytecount =
     fill_subresult_loop buffer (p + unat bytecount) p 0"

declare fill_topic_loop.simps [simp del] fill_subresult_loop.simps [simp del]

subsection \<open>The branches of the switch\<close>

text \<open>A string whose presence a flag decides: its size, the pointer past the size, the next offset.\<close>

definition parse_opt_string :: "bytes \<Rightarrow> nat \<Rightarrow> bool \<Rightarrow> (sized_ptr option \<times> nat) option" where
  "parse_opt_string buffer offset present =
     (if present then do {
        n \<leftarrow> short_from_buffer buffer offset;
        Some (Some (n, offset + 2), offset + 2 + unat n)
      }
      else Some (None, offset))"

definition parse_connect :: "bytes \<Rightarrow> nat \<Rightarrow> response_t option" where
  "parse_connect buffer offset =
     do {
       name_size \<leftarrow> short_from_buffer buffer offset;
       let offset = offset + 2;
       let name = offset;
       let offset = offset + unat name_size;
       version \<leftarrow> buf_get buffer offset;
       let offset = offset + 1;
       connect_flags \<leftarrow> buf_get buffer offset;
       let offset = offset + 1;
       keep_alive \<leftarrow> short_from_buffer buffer offset;
       let offset = offset + 2;
       client_id_size \<leftarrow> short_from_buffer buffer offset;
       let offset = offset + 2;
       let client_id = offset;
       let offset = offset + unat client_id_size;
       let has_will = FLAGS_UNPACK_WILL_FLAG connect_flags;
       (will_topic, offset) \<leftarrow> parse_opt_string buffer offset has_will;
       (will_message, offset) \<leftarrow> parse_opt_string buffer offset has_will;
       (user, offset) \<leftarrow> parse_opt_string buffer offset (FLAGS_UNPACK_USER connect_flags);
       (pw, offset) \<leftarrow> parse_opt_string buffer offset (FLAGS_UNPACK_PW connect_flags);
       Some (Connect_body
         \<lparr>c_name_size = name_size, c_name = name, c_version = version,
          c_has_user = FLAGS_UNPACK_USER connect_flags,
          c_has_pw = FLAGS_UNPACK_PW connect_flags,
          c_has_will = has_will,
          c_will_qos = FLAGS_UNPACK_WILL_QOS connect_flags,
          c_will_retain = FLAGS_UNPACK_WILL_RETAIN connect_flags,
          c_has_clean = FLAGS_UNPACK_CLEAN connect_flags,
          c_keep_alive = keep_alive,
          c_client_id_size = client_id_size, c_client_id = client_id,
          c_will_topic = will_topic, c_will_message = will_message,
          c_user = user, c_pw = pw\<rparr>)
     }"

definition no_packet_id :: u16 where
  "no_packet_id = 0"

definition parse_publish :: "bytes \<Rightarrow> nat \<Rightarrow> size_t \<Rightarrow> response_t option" where
  "parse_publish buffer offset total_size =
     do {
       let saved_offset = offset;
       b0 \<leftarrow> buf_get buffer 0;
       let qos = (ucast (drop_bit 1 b0 AND 3) :: QoS);
       let retain = (b0 AND 1 \<noteq> 0);
       topic_size \<leftarrow> short_from_buffer buffer offset;
       let offset = offset + 2;
       let topic = offset;
       let offset = offset + unat topic_size;
       (packet_id, offset) \<leftarrow> (if qos \<ge> QoS1
          then do { i \<leftarrow> short_from_buffer buffer offset; Some (i, offset + 2) }
          else Some (no_packet_id, offset));
       Some (Publish_body
         \<lparr>p_qos = qos, p_retain = retain, p_topic_size = topic_size, p_topic = topic,
          p_packet_id = packet_id,
          p_message_size = ucast (total_size - of_nat (offset - saved_offset)),
          p_message = offset\<rparr>)
     }"

definition parse_subscribe :: "bytes \<Rightarrow> nat \<Rightarrow> size_t \<Rightarrow> response_t option" where
  "parse_subscribe buffer offset total_size =
     do {
       packet_id \<leftarrow> short_from_buffer buffer offset;
       let topic_segment_size = (ucast (total_size - of_nat offset) :: u32);
       let offset = offset + 2;
       (lens, vals, qs) \<leftarrow> fill_topic_arrays buffer offset topic_segment_size True;
       Some (Subscribe_body
         \<lparr>s_packet_id = packet_id, s_topic_lengths = lens, s_topics = vals, s_qoss = qs,
          s_topic_count = of_nat (length lens)\<rparr>)
     }"

definition parse_suback :: "bytes \<Rightarrow> nat \<Rightarrow> size_t \<Rightarrow> response_t option" where
  "parse_suback buffer offset total_size =
     do {
       packet_id \<leftarrow> short_from_buffer buffer offset;
       let subresult_segment_size = (ucast (total_size - of_nat offset) :: u32);
       let offset = offset + 2;
       (oks, qs) \<leftarrow> fill_subresult_arrays buffer offset subresult_segment_size;
       Some (Suback_body
         \<lparr>sa_packet_id = packet_id, sa_topic_count = of_nat (length oks),
          sa_success = oks, sa_qoss = qs\<rparr>)
     }"

definition parse_unsubscribe :: "bytes \<Rightarrow> nat \<Rightarrow> size_t \<Rightarrow> response_t option" where
  "parse_unsubscribe buffer offset total_size =
     do {
       packet_id \<leftarrow> short_from_buffer buffer offset;
       let topic_segment_size = (ucast (total_size - of_nat offset) :: u32);
       let offset = offset + 2;
       (lens, vals, _) \<leftarrow> fill_topic_arrays buffer offset topic_segment_size False;
       Some (Unsubscribe_body
         \<lparr>us_topic_lengths = lens, us_topics = vals, us_topic_count = of_nat (length lens),
          us_packet_id = packet_id\<rparr>)
     }"

definition parse_packet_id :: "bytes \<Rightarrow> nat \<Rightarrow> (u16 \<Rightarrow> response_t) \<Rightarrow> response_t option" where
  "parse_packet_id buffer offset body = map_option body (short_from_buffer buffer offset)"

fun parse_body :: "bytes \<Rightarrow> nat \<Rightarrow> size_t \<Rightarrow> message_type_t \<Rightarrow> response_t option" where
  "parse_body buffer offset total_size CONNECT = parse_connect buffer offset"
| "parse_body buffer offset total_size CONNACK =
     do { b \<leftarrow> buf_get buffer (offset + 1); Some (Connack_body (connack_of_byte b)) }"
| "parse_body buffer offset total_size PUBLISH = parse_publish buffer offset total_size"
| "parse_body buffer offset total_size PUBACK = parse_packet_id buffer offset Puback_body"
| "parse_body buffer offset total_size PUBREC = parse_packet_id buffer offset Pubrec_body"
| "parse_body buffer offset total_size PUBREL = parse_packet_id buffer offset Pubrel_body"
| "parse_body buffer offset total_size PUBCOMP = parse_packet_id buffer offset Pubcomp_body"
| "parse_body buffer offset total_size SUBSCRIBE = parse_subscribe buffer offset total_size"
| "parse_body buffer offset total_size SUBACK = parse_suback buffer offset total_size"
| "parse_body buffer offset total_size UNSUBSCRIBE = parse_unsubscribe buffer offset total_size"
| "parse_body buffer offset total_size UNSUBACK = parse_packet_id buffer offset Unsuback_body"
| "parse_body buffer offset total_size PINGREQ = Some Pingreq_body"
| "parse_body buffer offset total_size PINGRESP = Some Pingresp_body"
| "parse_body buffer offset total_size DISCONNECT = Some Disconnect_body"

definition deserialize_response :: "bytes \<Rightarrow> nat \<Rightarrow> response_t option option" where
  "deserialize_response buffer len =
     do {
       b0 \<leftarrow> buf_get buffer 0;
       (bytes_used, ret) \<leftarrow> decode_size buffer 1 len;
       case ret of
         None \<Rightarrow> Some None
       | Some total_size \<Rightarrow>
           let offset = 1 + bytes_used in
           (case message_type_of (UNPACK_MESSAGE_TYPE b0) of
              None \<Rightarrow> Some None
            | Some t \<Rightarrow> map_option Some (parse_body buffer offset total_size t))
     }"

end
