(* ===== verification/Roundtrip.thy ===== *)
theory Roundtrip
  imports Serialize Deserialize
begin

section \<open>Parsing what was built\<close>

text \<open>
  The contract between the two halves of \<^verbatim>\<open>messages.c\<close>: the parser applied to a built packet finds
  the packet's type and every field of it. The locale \<open>packet_codec\<close> states it over the builders'
  contract \<open>serializer\<close> and is interpreted for each packet type. Its \<open>decodable\<close> predicates are the
  exact price of the eight bit shorts: strings shorter than 256 bytes and packet identifiers below
  256.
\<close>

subsection \<open>What it means that a parsed message shows the arguments\<close>

definition shows_string :: "bytes \<Rightarrow> sized_ptr \<Rightarrow> bytes \<Rightarrow> bool" where
  "shows_string b sp s \<longleftrightarrow> unat (fst sp) = length (cstr s) \<and> bytes_at b (snd sp) (cstr s)"

fun shows_opt :: "bytes \<Rightarrow> sized_ptr option \<Rightarrow> bytes option \<Rightarrow> bool" where
  "shows_opt b (Some sp) (Some s) \<longleftrightarrow> shows_string b sp s"
| "shows_opt b None None \<longleftrightarrow> True"
| "shows_opt b _ _ \<longleftrightarrow> False"

definition short_string :: "bytes \<Rightarrow> bool" where
  "short_string s \<longleftrightarrow> length (cstr s) < 256"

definition short_opt :: "bytes option \<Rightarrow> bool" where
  "short_opt s \<longleftrightarrow> (case s of None \<Rightarrow> True | Some str \<Rightarrow> short_string str)"

definition shows_connect :: "connect_args \<Rightarrow> bytes \<Rightarrow> response_t \<Rightarrow> bool" where
  "shows_connect a b r \<longleftrightarrow>
     (\<exists>d. r = Connect_body d \<and>
       shows_string b (c_name_size d, c_name d) protocol_name \<and> c_version d = protocol_level \<and>
       (c_has_user d \<longleftrightarrow> a_user a \<noteq> None) \<and> (c_has_pw d \<longleftrightarrow> a_pw a \<noteq> None) \<and>
       (c_has_will d \<longleftrightarrow> a_last_will a) \<and> c_will_qos d = a_will_qos a AND 3 \<and>
       (c_will_retain d \<longleftrightarrow> a_will_retain a) \<and> (c_has_clean d \<longleftrightarrow> a_clean_session a) \<and>
       c_keep_alive d = ucast (a_keep_alive a) \<and>
       shows_string b (c_client_id_size d, c_client_id d) (a_clientid a) \<and>
       (a_last_will a \<longrightarrow> shows_opt b (c_will_topic d) (a_will_topic a) \<and>
          shows_opt b (c_will_message d) (a_will_message a)) \<and>
       shows_opt b (c_user d) (a_user a) \<and> shows_opt b (c_pw d) (a_pw a))"

definition connect_decodable :: "connect_args \<Rightarrow> bool" where
  "connect_decodable a \<longleftrightarrow>
     short_string (a_clientid a) \<and> short_opt (a_will_topic a) \<and> short_opt (a_will_message a) \<and>
     short_opt (a_user a) \<and> short_opt (a_pw a)"

fun shows_publish :: "publish_args \<Rightarrow> bytes \<Rightarrow> response_t \<Rightarrow> bool" where
  "shows_publish (topic, packet_id, qos, retain, msg) b r \<longleftrightarrow>
     (\<exists>d. r = Publish_body d \<and> p_qos d = qos \<and> p_retain d = retain \<and>
       shows_string b (p_topic_size d, p_topic d) topic \<and>
       p_packet_id d = (if qos \<ge> QoS1 then packet_id else no_packet_id) \<and>
       shows_string b (p_message_size d, p_message d) (case msg of None \<Rightarrow> [] | Some m \<Rightarrow> m))"

fun publish_decodable :: "publish_args \<Rightarrow> bool" where
  "publish_decodable (topic, packet_id, qos, retain, msg) \<longleftrightarrow>
     short_string topic \<and> qos \<le> QoS2 \<and> (qos \<ge> QoS1 \<longrightarrow> packet_id < 256) \<and>
     (case msg of None \<Rightarrow> True | Some m \<Rightarrow> length (cstr m) < 65536)"

fun shows_subscribe :: "subscribe_args \<Rightarrow> bytes \<Rightarrow> response_t \<Rightarrow> bool" where
  "shows_subscribe (packet_id, topic_count, topics, qoss) b r \<longleftrightarrow>
     (\<exists>d. r = Subscribe_body d \<and> s_packet_id d = packet_id \<and> s_topic_count d = topic_count \<and>
       list_all2 (shows_string b) (zip (s_topic_lengths d) (s_topics d)) (take (unat topic_count) topics) \<and>
       s_qoss d = take (unat topic_count) qoss)"

fun subscribe_decodable :: "subscribe_args \<Rightarrow> bool" where
  "subscribe_decodable (packet_id, topic_count, topics, qoss) \<longleftrightarrow>
     packet_id < 256 \<and> unat topic_count \<le> MAX_TOPICS \<and>
     list_all short_string (take (unat topic_count) topics) \<and>
     list_all (\<lambda>q. q < 256) (take (unat topic_count) qoss)"

fun shows_suback :: "suback_args \<Rightarrow> bytes \<Rightarrow> response_t \<Rightarrow> bool" where
  "shows_suback (packet_id, topic_count, success, qoss) b r \<longleftrightarrow>
     (\<exists>d. r = Suback_body d \<and> sa_packet_id d = packet_id \<and> sa_topic_count d = topic_count \<and>
       sa_success d = take (unat topic_count) success \<and>
       length (sa_qoss d) = unat topic_count \<and>
       (\<forall>i < unat topic_count. success ! i \<longrightarrow> sa_qoss d ! i = qoss ! i))"

fun suback_decodable :: "suback_args \<Rightarrow> bool" where
  "suback_decodable (packet_id, topic_count, success, qoss) \<longleftrightarrow>
     packet_id < 256 \<and> unat topic_count \<le> MAX_TOPICS \<and>
     list_all (\<lambda>q. q < 4) (take (unat topic_count) qoss)"

fun shows_unsubscribe :: "unsubscribe_args \<Rightarrow> bytes \<Rightarrow> response_t \<Rightarrow> bool" where
  "shows_unsubscribe (packet_id, topic_count, topics) b r \<longleftrightarrow>
     (\<exists>d. r = Unsubscribe_body d \<and> us_packet_id d = packet_id \<and> us_topic_count d = topic_count \<and>
       list_all2 (shows_string b) (zip (us_topic_lengths d) (us_topics d))
         (take (unat topic_count) topics))"

fun unsubscribe_decodable :: "unsubscribe_args \<Rightarrow> bool" where
  "unsubscribe_decodable (packet_id, topic_count, topics) \<longleftrightarrow>
     packet_id < 256 \<and> unat topic_count \<le> MAX_TOPICS \<and>
     list_all (\<lambda>t. short_string t \<and> cstr t \<noteq> []) (take (unat topic_count) topics)"

subsection \<open>The fixed header\<close>

lemma size_field_varlen: "unat n < 2 ^ 28 \<Longrightarrow> size_field n = varlen (unat n)"
  by (simp add: size_field_def varlen_upto_varlen)

lemma deserialize_header:
  assumes "bytes_at b 0 (h # size_field n @ rest)" "unat n < 2 ^ 28"
    and "message_type_of (UNPACK_MESSAGE_TYPE h) = Some t" "off = 1 + length (size_field n)"
    and "off \<le> len + 1"
  shows "deserialize_response b len = map_option Some (parse_body b off n t)"
proof -
  have "bytes_at b 1 (varlen (unat n))"
    using assms by (simp add: size_field_varlen bytes_at_Cons bytes_at_append)
  then have "decode_size b 1 len = Some (length (size_field n), Some n)"
    using decode_size_varlen [of "unat n" b 1 len] assms
    by (simp add: size_field_varlen of_nat_unat)
  moreover have "0 < length b" "b ! 0 = h" using assms(1) by (auto simp: bytes_at_Cons)
  ultimately show ?thesis
    using assms(3,4) by (simp add: deserialize_response_def mem_simps)
qed

lemma header_body:
  assumes "bytes_at b 0 (h # fld @ body)"
  shows "bytes_at b 0 [h]" "bytes_at b (1 + length fld) body"
  using assms bytes_at_append [of b 0 "h # fld" body] by (auto simp: bytes_at_Cons Suc_le_eq)

subsection \<open>Fields\<close>

lemma short_at:
  "bytes_at b p (short_wire s) \<Longrightarrow> short_from_buffer b p = Some (ucast (ucast s :: u8))"
  by (auto simp: short_wire_def bytes_at_Cons short_from_buffer_eq)

lemma unat_ucast_u8: "unat (ucast (x :: 'a :: len word) :: u8) = unat x mod 256"
  by (simp add: unsigned_ucast_eq take_bit_eq_mod)

lemma narrow_id [simp]: "x < 256 \<Longrightarrow> ucast (ucast (x :: u16) :: u8) = x"
  by (simp add: word_unat_eq_iff word_less_nat_alt unat_ucast_u8)

lemma narrow_qos: "x < 256 \<Longrightarrow> ucast (ucast (x :: QoS) :: u8) = x"
  by (simp add: word_unat_eq_iff word_less_nat_alt unat_ucast_u8)

lemma strlen_narrow:
  "short_string s \<Longrightarrow> unat (ucast (ucast (strlen s) :: u8) :: u16) = length (cstr s)"
  by (simp add: short_string_def strlen_def unat_ucast_u8 unat_of_nat)

lemma string_at:
  assumes "bytes_at b p (string_wire s)" "short_string s"
  obtains n where "short_from_buffer b p = Some n" "unat n = length (cstr s)"
    "shows_string b (n, p + 2) s" "p + 2 + length (cstr s) \<le> length b"
proof
  show "short_from_buffer b p = Some (ucast (ucast (strlen s) :: u8))"
    using assms(1) by (intro short_at) (simp add: string_wire_def bytes_at_append)
  have "bytes_at b (p + 2) (cstr s)"
    using assms(1) by (simp add: string_wire_def bytes_at_Cons short_wire_def)
  with strlen_narrow [OF assms(2)] show "shows_string b (ucast (ucast (strlen s) :: u8), p + 2) s"
    "unat (ucast (ucast (strlen s) :: u8) :: u16) = length (cstr s)"
    "p + 2 + length (cstr s) \<le> length b"
    using bytes_at_length [of b "p + 2" "cstr s"] by (simp_all add: shows_string_def)
qed

lemma length_wires [simp]: "length (ack_wire h i) = 4" "length (connack_wire t) = 4"
  by (simp_all add: ack_wire_def connack_wire_def short_wire_def)

lemma length_string_wire [simp]: "length (string_wire s) = 2 + length (cstr s)"
  by (simp add: string_wire_def short_wire_def)

lemma opt_string_at:
  assumes "bytes_at b p (opt_wire s)" "short_opt s"
  obtains sp where "parse_opt_string b p (s \<noteq> None) = Some (sp, p + length (opt_wire s))"
    "shows_opt b sp s"
proof (cases s)
  case None
  then show thesis using that [of None] by (simp add: parse_opt_string_def opt_wire_def)
next
  case (Some str)
  with assms have "bytes_at b p (string_wire str)" "short_string str"
    by (simp_all add: opt_wire_def short_opt_def)
  from string_at [OF this] obtain n where n: "short_from_buffer b p = Some n"
    "unat n = length (cstr str)" "shows_string b (n, p + 2) str" .
  show thesis
    using that [of "Some (n, p + 2)"] n Some by (simp add: parse_opt_string_def opt_wire_def)
qed

subsection \<open>The codec contract\<close>

locale packet_codec = serializer make wire args_ok
  for make :: "'m \<Rightarrow> bytes \<Rightarrow> (bytes \<times> nat) option" and wire and args_ok +
  fixes decodable :: "'m \<Rightarrow> bool"
    and shows_args :: "'m \<Rightarrow> bytes \<Rightarrow> response_t \<Rightarrow> bool"
  assumes parse_wire: "args_ok m \<Longrightarrow> decodable m \<Longrightarrow> bytes_at b 0 (wire m) \<Longrightarrow>
      \<exists>r. deserialize_response b (length (wire m)) = Some (Some r) \<and> shows_args m b r"
begin

lemma parse_make:
  assumes "args_ok m" "decodable m" "length (wire m) \<le> length buffer"
  shows "\<exists>b n r. make m buffer = Some (b, n) \<and> deserialize_response b n = Some (Some r) \<and>
    shows_args m b r"
proof -
  have "bytes_at (wire m @ drop (length (wire m)) buffer) 0 (wire m)" by (rule bytes_at_whole)
  with parse_wire [OF assms(1,2)] make_fits [OF assms(1,3)] show ?thesis by blast
qed

end

subsection \<open>Acknowledgements and empty packets\<close>

lemma parse_ack:
  assumes "bytes_at b 0 (ack_wire h i)" "message_type_of (UNPACK_MESSAGE_TYPE h) = Some t"
    and "i < 256" "parse_body b 2 2 t = parse_packet_id b 2 body"
  shows "deserialize_response b 4 = Some (Some (body i))"
proof -
  have "deserialize_response b 4 = map_option Some (parse_body b 2 2 t)"
    by (rule deserialize_header [of b h 2 "short_wire i"]) (use assms(1,2) in \<open>simp_all add: ack_wire_def\<close>)
  moreover have "bytes_at b 2 (short_wire i)"
    using assms(1) bytes_at_append [of b 0 "[h, 2]" "short_wire i"] by (simp add: ack_wire_def numeral_2_eq_2)
  with assms(3) have "short_from_buffer b 2 = Some i" by (simp add: short_at)
  ultimately show ?thesis
    using assms(4) by (simp add: parse_packet_id_def)
qed

lemma unpack_flagged [simp]:
  "UNPACK_MESSAGE_TYPE (PACK_MESSAGE_TYPE PUBREL OR 2) = message_type_code PUBREL"
  "UNPACK_MESSAGE_TYPE (PACK_MESSAGE_TYPE SUBSCRIBE OR 2) = message_type_code SUBSCRIBE"
  "UNPACK_MESSAGE_TYPE (PACK_MESSAGE_TYPE UNSUBSCRIBE OR 2) = message_type_code UNSUBSCRIBE"
  by (simp_all add: UNPACK_MESSAGE_TYPE_def PACK_MESSAGE_TYPE_def)

interpretation puback: packet_codec "\<lambda>i b. make_puback_message b len i"
  "ack_wire (PACK_MESSAGE_TYPE PUBACK)" "\<lambda>_. True" "\<lambda>i. i < 256" "\<lambda>i b r. r = Puback_body i" for len
  by unfold_locales (auto intro!: parse_ack [where t = PUBACK])

interpretation pubrec: packet_codec "\<lambda>i b. make_pubrec_message b len i"
  "ack_wire (PACK_MESSAGE_TYPE PUBREC)" "\<lambda>_. True" "\<lambda>i. i < 256" "\<lambda>i b r. r = Pubrec_body i" for len
  by unfold_locales (auto intro!: parse_ack [where t = PUBREC])

interpretation pubrel: packet_codec "\<lambda>i b. make_pubrel_message b len i"
  "ack_wire (PACK_MESSAGE_TYPE PUBREL OR 2)" "\<lambda>_. True" "\<lambda>i. i < 256" "\<lambda>i b r. r = Pubrel_body i" for len
  by unfold_locales (auto intro!: parse_ack [where t = PUBREL])

interpretation pubcomp: packet_codec "\<lambda>i b. make_pubcomp_message b len i"
  "ack_wire (PACK_MESSAGE_TYPE PUBCOMP)" "\<lambda>_. True" "\<lambda>i. i < 256" "\<lambda>i b r. r = Pubcomp_body i" for len
  by unfold_locales (auto intro!: parse_ack [where t = PUBCOMP])

interpretation unsuback: packet_codec "\<lambda>i b. make_unsuback_message b len i"
  "ack_wire (PACK_MESSAGE_TYPE UNSUBACK)" "\<lambda>_. True" "\<lambda>i. i < 256" "\<lambda>i b r. r = Unsuback_body i" for len
  by unfold_locales (auto intro!: parse_ack [where t = UNSUBACK])

lemma parse_empty:
  assumes "bytes_at b 0 [h, 0]" "message_type_of (UNPACK_MESSAGE_TYPE h) = Some t"
    and "parse_body b 2 0 t = Some r"
  shows "deserialize_response b (length [h, 0]) = Some (Some r)"
proof -
  have "deserialize_response b (length [h, 0]) = map_option Some (parse_body b 2 0 t)"
    by (rule deserialize_header [of b h 0 "[]"]) (use assms in simp_all)
  with assms(3) show ?thesis by simp
qed

interpretation pingreq: packet_codec "\<lambda>_ b. make_pingreq_message b len"
  "\<lambda>_. [PACK_MESSAGE_TYPE PINGREQ, 0]" "\<lambda>_. True" "\<lambda>_. True" "\<lambda>_ b r. r = Pingreq_body" for len
  by unfold_locales (intro exI conjI parse_empty [where t = PINGREQ] refl; simp)

interpretation pingresp: packet_codec "\<lambda>_ b. make_pingresp_message b len"
  "\<lambda>_. [PACK_MESSAGE_TYPE PINGRESP, 0]" "\<lambda>_. True" "\<lambda>_. True" "\<lambda>_ b r. r = Pingresp_body" for len
  by unfold_locales (intro exI conjI parse_empty [where t = PINGRESP] refl; simp)

interpretation disconnect: packet_codec "\<lambda>_ b. make_disconnect_message b len"
  "\<lambda>_. [PACK_MESSAGE_TYPE DISCONNECT, 0]" "\<lambda>_. True" "\<lambda>_. True" "\<lambda>_ b r. r = Disconnect_body" for len
  by unfold_locales (intro exI conjI parse_empty [where t = DISCONNECT] refl; simp)

interpretation connack: packet_codec "\<lambda>t b. make_connack_message b len t" connack_wire "\<lambda>_. True"
  "\<lambda>t. \<forall>c. t \<noteq> Connack_other c" "\<lambda>t b r. r = Connack_body t" for len
proof
  fix t b
  assume t: "\<forall>c. t \<noteq> Connack_other c" and b: "bytes_at b 0 (connack_wire t)"
  have "deserialize_response b 4 = map_option Some (parse_body b 2 2 CONNACK)"
    by (rule deserialize_header [of b "PACK_MESSAGE_TYPE CONNACK" 2 "[0, connack_code t]"])
      (use b in \<open>simp_all add: connack_wire_def\<close>)
  moreover have "buf_get b 3 = Some (connack_code t)"
    using b by (simp add: connack_wire_def bytes_at_Cons eval_nat_numeral buf_get_eq_Some)
  ultimately show "\<exists>r. deserialize_response b (length (connack_wire t)) = Some (Some r) \<and> r = Connack_body t"
    using t by simp
qed

subsection \<open>PUBLISH\<close>

definition publish_header :: "QoS \<Rightarrow> bool \<Rightarrow> u8" where
  "publish_header qos retain = PACK_MESSAGE_TYPE PUBLISH OR ucast (push_bit 1 qos) OR of_bool retain"

lemma qos_cases: "qos \<le> QoS2 \<Longrightarrow> qos = QoS0 \<or> qos = QoS1 \<or> qos = QoS2"
proof -
  assume "qos \<le> QoS2"
  then have "unat qos \<le> 2" by (simp add: word_le_nat_alt)
  then have "unat qos = 0 \<or> unat qos = 1 \<or> unat qos = 2" by linarith
  then show ?thesis by (auto simp: word_unat_eq_iff)
qed

lemma publish_header_fields:
  assumes "qos \<le> QoS2"
  shows "UNPACK_MESSAGE_TYPE (publish_header qos retain) = message_type_code PUBLISH"
    "ucast (drop_bit 1 (publish_header qos retain) AND 3) = qos"
    "publish_header qos retain AND 1 \<noteq> 0 \<longleftrightarrow> retain"
  using qos_cases [OF assms]
  by (cases retain; auto simp: publish_header_def UNPACK_MESSAGE_TYPE_def PACK_MESSAGE_TYPE_def)+

definition publish_len :: "publish_args \<Rightarrow> nat" where
  "publish_len = (\<lambda>(topic, packet_id, qos, retain, msg).
     2 + length (cstr topic) + (if qos \<ge> QoS1 then 2 else 0) +
     (case msg of None \<Rightarrow> 0 | Some m \<Rightarrow> length (cstr m)))"

lemma ucast_of_nat_size_t: "ucast (of_nat n :: size_t) = (of_nat n :: u16)"
  by (simp add: word_unat_eq_iff unsigned_ucast_eq unsigned_of_nat)

lemma publish_size_field:
  assumes "publish_decodable (topic, packet_id, qos, retain, msg)"
  shows "2 + strlen topic + (if qos \<ge> QoS1 then 2 else 0) +
      ucast ((case msg of None \<Rightarrow> 0 | Some m \<Rightarrow> ucast (strlen m)) :: u16) =
    (of_nat (publish_len (topic, packet_id, qos, retain, msg)) :: size_t)"
proof -
  have "ucast ((case msg of None \<Rightarrow> 0 | Some m \<Rightarrow> ucast (strlen m)) :: u16) =
      (of_nat (case msg of None \<Rightarrow> 0 | Some m \<Rightarrow> length (cstr m)) :: size_t)"
    using assms
    by (cases msg) (auto simp: strlen_def word_unat_eq_iff unat_ucast_up ucast_of_nat_size_t
        unat_of_nat_small)
  then show ?thesis by (simp add: publish_len_def strlen_def)
qed

lemma parse_publish_wire:
  assumes dec: "publish_decodable (topic, packet_id, qos, retain, msg)"
    and b: "bytes_at b 0 [publish_header qos retain]"
      "bytes_at b off (string_wire topic @ (if qos \<ge> QoS1 then short_wire packet_id else []) @
         (case msg of None \<Rightarrow> [] | Some m \<Rightarrow> cstr m))"
  shows "\<exists>r. parse_publish b off (of_nat (publish_len (topic, packet_id, qos, retain, msg))) = Some r \<and>
    shows_publish (topic, packet_id, qos, retain, msg) b r"
proof -
  let ?msg = "case msg of None \<Rightarrow> [] | Some m \<Rightarrow> m"
  let ?pl = "if qos \<ge> QoS1 then 2 else 0 :: nat"
  let ?off = "off + 2 + length (cstr topic) + ?pl"
  from dec have q: "qos \<le> QoS2" and st: "short_string topic" and m: "length (cstr ?msg) < 65536"
    by (auto simp: cstr_def split: option.splits)
  from b(2) have "bytes_at b off (string_wire topic)" by (simp add: bytes_at_append)
  from string_at [OF this st] obtain n where n: "short_from_buffer b off = Some n"
    "unat n = length (cstr topic)" "shows_string b (n, off + 2) topic" .
  have id: "qos \<ge> QoS1 \<Longrightarrow> short_from_buffer b (off + 2 + length (cstr topic)) = Some packet_id"
    using b(2) dec by (auto simp: bytes_at_append short_at add.assoc)
  have "bytes_at b ?off (cstr ?msg)"
    using b(2) by (cases msg) (auto simp: bytes_at_append short_wire_def add.assoc cstr_def split: if_splits
        dest: bytes_at_length)
  moreover have "(of_nat (publish_len (topic, packet_id, qos, retain, msg)) :: size_t) -
      of_nat (2 + length (cstr topic) + ?pl) = of_nat (length (cstr ?msg))"
    by (cases msg) (simp_all add: publish_len_def cstr_def)
  then have "ucast ((of_nat (publish_len (topic, packet_id, qos, retain, msg)) :: size_t) -
      of_nat (2 + length (cstr topic) + ?pl)) = (of_nat (length (cstr ?msg)) :: u16)"
    by (simp add: ucast_of_nat_size_t)
  ultimately have msg: "shows_string b (ucast ((of_nat (publish_len (topic, packet_id, qos, retain, msg)) :: size_t) -
      of_nat (2 + length (cstr topic) + ?pl)), ?off) ?msg"
    using m by (simp add: shows_string_def unat_of_nat_small)
  show ?thesis
    using b(1) n id msg publish_header_fields [OF q, of retain]
    by (auto simp: parse_publish_def bytes_at_Cons mem_simps Let_def)
qed

interpretation publish:
  packet_codec "\<lambda>(topic, packet_id, qos, retain, msg) b.
      make_publish_message b len topic packet_id qos retain msg" publish_wire "\<lambda>_. True"
    publish_decodable shows_publish
  for len
proof
  fix m :: publish_args and b
  assume dec: "publish_decodable m" and b: "bytes_at b 0 (publish_wire m)"
  obtain topic packet_id qos retain msg where m: "m = (topic, packet_id, qos, retain, msg)"
    by (cases m) auto
  let ?n = "of_nat (publish_len m) :: size_t"
  let ?body = "string_wire topic @ (if qos \<ge> QoS1 then short_wire packet_id else []) @
         (case msg of None \<Rightarrow> [] | Some m \<Rightarrow> cstr m)"
  from dec have q: "qos \<le> QoS2" and "publish_len m < 2 ^ 28"
    by (auto simp: m publish_len_def short_string_def split: option.splits)
  then have len: "unat ?n < 2 ^ 28" by (simp add: unat_of_nat_small)
  have wire: "publish_wire m = publish_header qos retain # size_field ?n @ ?body"
    using publish_size_field dec by (simp add: m publish_header_def)
  have "deserialize_response b (length (publish_wire m)) =
      map_option Some (parse_body b (1 + length (size_field ?n)) ?n PUBLISH)"
    by (rule deserialize_header [of b "publish_header qos retain" ?n ?body])
      (use b wire len publish_header_fields(1) [OF q] in simp_all)
  moreover have "\<exists>r. parse_publish b (1 + length (size_field ?n)) ?n = Some r \<and> shows_publish m b r"
    using parse_publish_wire [of topic packet_id qos retain msg b] dec header_body [OF b [unfolded wire]]
    by (simp add: m del: shows_publish.simps publish_decodable.simps)
  ultimately show "\<exists>r. deserialize_response b (length (publish_wire m)) = Some (Some r) \<and>
      shows_publish m b r"
    by auto
qed

subsection \<open>CONNECT\<close>

definition connect_body :: "connect_args \<Rightarrow> bytes option \<Rightarrow> bytes option \<Rightarrow> bytes" where
  "connect_body a wt wm =
     string_wire protocol_name @ [protocol_level, connect_flags a] @ short_wire (a_keep_alive a) @
     string_wire (a_clientid a) @ opt_wire wt @ opt_wire wm @ opt_wire (a_user a) @ opt_wire (a_pw a)"

lemma opt_len_of_nat: "opt_len s = of_nat (length (opt_wire s))"
  by (cases s) (simp_all add: opt_len_def opt_wire_def strlen_def)

lemma short_opt_wire: "short_opt s \<Longrightarrow> length (opt_wire s) < 258"
  by (cases s) (simp_all add: short_opt_def opt_wire_def short_string_def)

lemma connect_len_small:
  assumes "connect_decodable a"
  shows "unat (connect_len a) < 2 ^ 28"
proof -
  let ?will = "if a_last_will a then length (opt_wire (a_will_topic a)) + length (opt_wire (a_will_message a)) else 0"
  let ?n = "8 + length (cstr protocol_name) + length (cstr (a_clientid a)) + ?will +
      length (opt_wire (a_user a)) + length (opt_wire (a_pw a))"
  have "connect_len a = of_nat ?n"
    by (simp add: connect_len_def strlen_def opt_len_of_nat)
  then have "unat (connect_len a) \<le> ?n" using unat_of_nat_le by metis
  moreover have "length (cstr protocol_name) = 6" by (simp add: protocol_name_def cstr_def)
  moreover have "length (opt_wire (a_will_topic a)) < 258" "length (opt_wire (a_will_message a)) < 258"
      "length (cstr (a_clientid a)) < 256"
      "length (opt_wire (a_user a)) < 258" "length (opt_wire (a_pw a)) < 258"
    using assms short_opt_wire by (auto simp: connect_decodable_def short_string_def)
  ultimately show ?thesis by (simp split: if_splits)
qed

lemma connect_flags_fields:
  shows "FLAGS_UNPACK_WILL_FLAG (connect_flags a) \<longleftrightarrow> a_last_will a"
    "FLAGS_UNPACK_USER (connect_flags a) \<longleftrightarrow> a_user a \<noteq> None"
    "FLAGS_UNPACK_PW (connect_flags a) \<longleftrightarrow> a_pw a \<noteq> None"
    "FLAGS_UNPACK_WILL_QOS (connect_flags a) = a_will_qos a AND 3"
    "FLAGS_UNPACK_WILL_RETAIN (connect_flags a) \<longleftrightarrow> a_will_retain a"
    "FLAGS_UNPACK_CLEAN (connect_flags a) \<longleftrightarrow> a_clean_session a"
  by (simp_all add: connect_flags_def)

lemma parse_connect_body:
  assumes b: "bytes_at b off (connect_body a wt wm)"
    and dec: "connect_decodable a" "short_opt wt" "short_opt wm"
    and will: "wt \<noteq> None \<longleftrightarrow> a_last_will a" "wm \<noteq> None \<longleftrightarrow> a_last_will a"
      "a_last_will a \<Longrightarrow> wt = a_will_topic a \<and> wm = a_will_message a"
  shows "\<exists>r. parse_connect b off = Some r \<and> shows_connect a b r"
proof -
  let ?o1 = "off + 2 + length (cstr protocol_name)"
  let ?o4 = "?o1 + 4"
  let ?o5 = "?o4 + 2 + length (cstr (a_clientid a))"
  let ?o6 = "?o5 + length (opt_wire wt)"
  let ?o7 = "?o6 + length (opt_wire wm)"
  let ?o8 = "?o7 + length (opt_wire (a_user a))"
  have at: "bytes_at b off (string_wire protocol_name)" "bytes_at b ?o1 [protocol_level, connect_flags a]"
      "bytes_at b (?o1 + 2) (short_wire (a_keep_alive a))" "bytes_at b ?o4 (string_wire (a_clientid a))"
      "bytes_at b ?o5 (opt_wire wt)" "bytes_at b ?o6 (opt_wire wm)" "bytes_at b ?o7 (opt_wire (a_user a))"
      "bytes_at b ?o8 (opt_wire (a_pw a))"
    using b by (auto simp: connect_body_def bytes_at_append bytes_at_Cons short_wire_def eval_nat_numeral
        dest: bytes_at_length)
  have short: "short_string protocol_name" "short_string (a_clientid a)" "short_opt (a_user a)"
      "short_opt (a_pw a)"
    using dec by (simp_all add: short_string_def protocol_name_def cstr_def connect_decodable_def)
  from string_at [OF at(1) short(1)] obtain n where n: "short_from_buffer b off = Some n"
    "unat n = length (cstr protocol_name)" "shows_string b (n, off + 2) protocol_name" .
  from string_at [OF at(4) short(2)] obtain k where k: "short_from_buffer b ?o4 = Some k"
    "unat k = length (cstr (a_clientid a))" "shows_string b (k, ?o4 + 2) (a_clientid a)" .
  from opt_string_at [OF at(5) dec(2)] obtain t where t: "parse_opt_string b ?o5 (wt \<noteq> None) = Some (t, ?o6)"
    "shows_opt b t wt" .
  from opt_string_at [OF at(6) dec(3)] obtain m where m: "parse_opt_string b ?o6 (wm \<noteq> None) = Some (m, ?o7)"
    "shows_opt b m wm" .
  from opt_string_at [OF at(7) short(3)] obtain u where
    u: "parse_opt_string b ?o7 (a_user a \<noteq> None) = Some (u, ?o8)" "shows_opt b u (a_user a)" .
  from opt_string_at [OF at(8) short(4)] obtain w where
    w: "parse_opt_string b ?o8 (a_pw a \<noteq> None) = Some (w, ?o8 + length (opt_wire (a_pw a)))"
      "shows_opt b w (a_pw a)" .
  have flags: "buf_get b ?o1 = Some protocol_level" "buf_get b (?o1 + 1) = Some (connect_flags a)"
    using at(2) by (auto simp: bytes_at_Cons buf_get_eq_Some)
  have keep: "short_from_buffer b (?o1 + 2) = Some (ucast (a_keep_alive a))"
    using short_at [OF at(3)] by simp
  have "parse_connect b off = Some (Connect_body
      \<lparr>c_name_size = n, c_name = off + 2, c_version = protocol_level,
       c_has_user = (a_user a \<noteq> None), c_has_pw = (a_pw a \<noteq> None), c_has_will = a_last_will a,
       c_will_qos = a_will_qos a AND 3, c_will_retain = a_will_retain a,
       c_has_clean = a_clean_session a, c_keep_alive = ucast (a_keep_alive a),
       c_client_id_size = k, c_client_id = ?o4 + 2, c_will_topic = t, c_will_message = m,
       c_user = u, c_pw = w\<rparr>)"
    using n(1,2) k(1,2) t(1) m(1) u(1) w(1) flags keep will(1,2)
    by (simp add: parse_connect_def Let_def connect_flags_fields eval_nat_numeral)
  then show ?thesis
    using n(3) k(3) t(2) m(2) u(2) w(2) will(3) by (auto simp: shows_connect_def)
qed

interpretation connect:
  packet_codec "\<lambda>a b. make_connect_message b len a" connect_wire connect_args_ok connect_decodable shows_connect
  for len
proof
  fix a :: connect_args and b
  assume ok: "connect_args_ok a" and dec: "connect_decodable a" and b: "bytes_at b 0 (connect_wire a)"
  let ?wt = "if a_last_will a then a_will_topic a else None"
  let ?wm = "if a_last_will a then a_will_message a else None"
  let ?n = "connect_len a"
  have wire: "connect_wire a = PACK_MESSAGE_TYPE CONNECT # size_field ?n @ connect_body a ?wt ?wm"
    by (simp add: connect_wire_def connect_body_def opt_wire_def)
  have "deserialize_response b (length (connect_wire a)) =
      map_option Some (parse_body b (1 + length (size_field ?n)) ?n CONNECT)"
    by (rule deserialize_header [of b "PACK_MESSAGE_TYPE CONNECT" ?n "connect_body a ?wt ?wm"])
      (use b wire connect_len_small [OF dec] in simp_all)
  moreover have "\<exists>r. parse_connect b (1 + length (size_field ?n)) = Some r \<and> shows_connect a b r"
    using ok dec by (intro parse_connect_body [OF header_body(2) [OF b [unfolded wire]] dec])
      (auto simp: connect_args_ok_def connect_decodable_def short_opt_def)
  ultimately show "\<exists>r. deserialize_response b (length (connect_wire a)) = Some (Some r) \<and> shows_connect a b r"
    by auto
qed

subsection \<open>Packets with topic lists\<close>

definition topics_len :: "bytes list \<Rightarrow> bool \<Rightarrow> nat" where
  "topics_len ts iq = (\<Sum>t\<leftarrow>ts. 2 + length (cstr t) + of_bool iq)"

lemma ucast_strlen: "ucast (2 + strlen t) = (of_nat (2 + length (cstr t)) :: u16)"
  using ucast_of_nat_size_t [of "2 + length (cstr t)"] by (simp add: strlen_def)

lemma utf8_size_of_nat: "utf8_size ts iq = of_nat (topics_len ts iq)"
  by (induction ts) (simp_all add: utf8_size_def topics_len_def ucast_strlen)

lemma topics_len_bound: "list_all short_string ts \<Longrightarrow> topics_len ts iq \<le> 258 * length ts"
  by (induction ts) (auto simp: topics_len_def short_string_def)

lemma length_topic_qos_wire: "length ts = length qs \<Longrightarrow> length (topic_qos_wire ts qs) = topics_len ts True"
  by (induction ts qs rule: list_induct2) (simp_all add: topic_qos_wire_def topics_len_def)

lemma length_unsubscribe_topics: "length (concat (map string_wire ts)) = topics_len ts False"
  by (induction ts) (simp_all add: topics_len_def)

text \<open>
  The parser measures the topic segment from the wrong base (\<^verbatim>\<open>total_size - offset\<close> with the offset
  of the variable header): with a one byte size field the end it computes is the end of the
  packet, with a two byte one it is one byte short. The loop lemmas allow both.
\<close>

lemma fill_topics_subscribe:
  "length ts = length qs \<Longrightarrow> bytes_at b cur (topic_qos_wire ts qs) \<Longrightarrow> list_all short_string ts \<Longrightarrow>
    list_all (\<lambda>q. q < 256) qs \<Longrightarrow> position + length ts \<le> MAX_TOPICS \<Longrightarrow>
    cur + topics_len ts True \<le> max_ptr + 1 \<Longrightarrow> max_ptr \<le> cur + topics_len ts True \<Longrightarrow>
    \<exists>lens vals. fill_topic_loop b max_ptr True cur position = Some (lens, vals, qs) \<and>
      length lens = length ts \<and> list_all2 (shows_string b) (zip lens vals) ts"
proof (induction ts qs arbitrary: cur position rule: list_induct2)
  case Nil
  then show ?case by (simp add: fill_topic_loop.simps [of b max_ptr] topics_len_def)
next
  case (Cons t ts q qs)
  let ?next = "cur + 2 + length (cstr t) + 1"
  from Cons.prems have at: "bytes_at b cur (string_wire t)" "bytes_at b (cur + 2 + length (cstr t)) [ucast q]"
      "bytes_at b ?next (topic_qos_wire ts qs)" and t: "short_string t"
    by (simp_all add: topic_qos_wire_def bytes_at_append bytes_at_Cons)
  from string_at [OF at(1) t] obtain n where n: "short_from_buffer b cur = Some n"
    "unat n = length (cstr t)" "shows_string b (n, cur + 2) t" .
  have "\<exists>lens vals. fill_topic_loop b max_ptr True ?next (position + 1) = Some (lens, vals, qs) \<and>
      length lens = length ts \<and> list_all2 (shows_string b) (zip lens vals) ts"
    by (rule Cons.IH) (use Cons.prems at(3) in \<open>auto simp: topics_len_def\<close>)
  then show ?case
    using n at(2) Cons.prems narrow_qos [of q]
    by (auto simp: fill_topic_loop.simps [of b max_ptr True cur] bytes_at_Cons mem_simps topics_len_def)
qed

lemma fill_topics_unsubscribe:
  "bytes_at b cur (concat (map string_wire ts)) \<Longrightarrow> list_all (\<lambda>t. short_string t \<and> cstr t \<noteq> []) ts \<Longrightarrow>
    position + length ts \<le> MAX_TOPICS \<Longrightarrow>
    cur + topics_len ts False \<le> max_ptr + 1 \<Longrightarrow> max_ptr \<le> cur + topics_len ts False \<Longrightarrow>
    \<exists>lens vals. fill_topic_loop b max_ptr False cur position = Some (lens, vals, []) \<and>
      length lens = length ts \<and> list_all2 (shows_string b) (zip lens vals) ts"
proof (induction ts arbitrary: cur position)
  case Nil
  then show ?case by (simp add: fill_topic_loop.simps [of b max_ptr] topics_len_def)
next
  case (Cons t ts)
  let ?next = "cur + 2 + length (cstr t)"
  from Cons.prems have at: "bytes_at b cur (string_wire t)" "bytes_at b ?next (concat (map string_wire ts))"
    and t: "short_string t" "0 < length (cstr t)"
    by (simp_all add: bytes_at_append)
  from string_at [OF at(1) t(1)] obtain n where n: "short_from_buffer b cur = Some n"
    "unat n = length (cstr t)" "shows_string b (n, cur + 2) t" .
  have "\<exists>lens vals. fill_topic_loop b max_ptr False ?next (position + 1) = Some (lens, vals, []) \<and>
      length lens = length ts \<and> list_all2 (shows_string b) (zip lens vals) ts"
    by (rule Cons.IH) (use Cons.prems at(2) in \<open>auto simp: topics_len_def\<close>)
  moreover have "cur + 2 \<le> max_ptr"
  proof -
    have "topics_len (t # ts) False = 2 + length (cstr t) + topics_len ts False"
      by (simp add: topics_len_def)
    with Cons.prems(4) t(2) show ?thesis by linarith
  qed
  ultimately show ?case
    using n Cons.prems(3) by (auto simp: fill_topic_loop.simps [of b max_ptr False cur])
qed

lemma size_field_length:
  assumes "n < 16384"
  shows "length (size_field (of_nat n)) = (if n < 128 then 1 else 2)"
proof -
  have "size_field (of_nat n) = varlen n"
    using size_field_varlen [of "of_nat n"] assms by (simp add: unat_of_nat_small)
  moreover have "n div 128 < 128" using assms by (simp add: less_mult_imp_div_less)
  ultimately show ?thesis by (simp add: varlen.simps [of n] varlen_one)
qed

lemma segment_end:
  assumes "w < 16382" "off = 1 + length (size_field (of_nat (2 + w)))"
  shows "off + 2 + w \<le> off + 2 + unat (ucast ((of_nat (2 + w) :: size_t) - of_nat off) :: u32) + 1 \<and>
    off + 2 + unat (ucast ((of_nat (2 + w) :: size_t) - of_nat off) :: u32) \<le> off + 2 + w"
proof -
  have off: "off = (if 2 + w < 128 then 2 else 3)"
    using assms size_field_length [of "2 + w"] by simp
  then have "(of_nat (2 + w) :: size_t) - of_nat off = of_nat (2 + w - off)"
    by (simp add: of_nat_diff del: of_nat_add split: if_splits)
  then have "unat (ucast ((of_nat (2 + w) :: size_t) - of_nat off) :: u32) = 2 + w - off"
    using assms(1) by (simp add: unsigned_ucast_eq unat_of_nat_small take_bit_nat_eq_self)
  with off show ?thesis by (auto split: if_splits)
qed

text \<open>The header of a packet that has a packet identifier and a list.\<close>

lemma list_packet_header:
  assumes b: "bytes_at b 0 (h # size_field (of_nat (2 + w)) @ short_wire packet_id @ rest)"
    and h: "message_type_of (UNPACK_MESSAGE_TYPE h) = Some t" and w: "w < 16382" and i: "packet_id < 256"
    and off: "off = 1 + length (size_field (of_nat (2 + w)))"
  shows "deserialize_response b (length (h # size_field (of_nat (2 + w)) @ short_wire packet_id @ rest)) =
      map_option Some (parse_body b off (of_nat (2 + w)) t)"
    "short_from_buffer b off = Some packet_id" "bytes_at b (off + 2) rest"
proof -
  have "unat (of_nat (2 + w) :: size_t) < 2 ^ 28"
    by (rule le_less_trans [OF unat_of_nat_le]) (use w in simp)
  then show "deserialize_response b (length (h # size_field (of_nat (2 + w)) @ short_wire packet_id @ rest)) =
      map_option Some (parse_body b off (of_nat (2 + w)) t)"
    by (intro deserialize_header [OF b]) (use h off in simp_all)
  have "bytes_at b off (short_wire packet_id @ rest)"
    using header_body(2) [OF b] by (simp add: off)
  then have "bytes_at b off (short_wire packet_id)" "bytes_at b (off + 2) rest"
    by (simp_all only: bytes_at_append) (simp_all add: short_wire_def)
  with i show "short_from_buffer b off = Some packet_id" "bytes_at b (off + 2) rest"
    by (simp_all add: short_at)
qed

lemma utf8_size_field:
  "topics_len ts iq < 16382 \<Longrightarrow> 2 + ucast (utf8_size ts iq) = (of_nat (2 + topics_len ts iq) :: size_t)"
  by (simp add: utf8_size_of_nat word_unat_eq_iff unat_word_ariths unat_ucast_up unat_of_nat_small)

interpretation subscribe:
  packet_codec "\<lambda>(packet_id, topic_count, topics, qoss) b.
      make_subscribe_message b len packet_id topic_count topics qoss" subscribe_wire subscribe_args_ok
    subscribe_decodable shows_subscribe
  for len
proof
  fix m :: subscribe_args and b
  assume ok: "subscribe_args_ok m" and dec: "subscribe_decodable m" and b: "bytes_at b 0 (subscribe_wire m)"
  obtain packet_id topic_count topics qoss where m: "m = (packet_id, topic_count, topics, qoss)"
    by (cases m) auto
  define ts where "ts = take (unat topic_count) topics"
  define qs where "qs = take (unat topic_count) qoss"
  define w where "w = topics_len ts True"
  define off where "off = 1 + length (size_field (of_nat (2 + w)))"
  let ?n = "of_nat (2 + w) :: size_t"
  have len: "length ts = length qs" "length ts = unat topic_count" "length ts \<le> MAX_TOPICS"
    and ts: "list_all short_string ts" and qs: "list_all (\<lambda>q. q < 256) qs" and i: "packet_id < 256"
    using ok dec by (auto simp: m ts_def qs_def)
  then have w: "w < 16382" using topics_len_bound [OF ts, of True] by (simp add: w_def)
  have wire: "subscribe_wire m = (PACK_MESSAGE_TYPE SUBSCRIBE OR 2) # size_field ?n @ short_wire packet_id @
      topic_qos_wire ts qs"
    using utf8_size_field [of ts True] w by (simp add: m Let_def ts_def qs_def w_def)
  have "message_type_of (UNPACK_MESSAGE_TYPE (PACK_MESSAGE_TYPE SUBSCRIBE OR 2)) = Some SUBSCRIBE" by simp
  note header = list_packet_header [OF b [unfolded wire] this w i off_def, folded wire]
  define max_ptr where "max_ptr = off + 2 + unat (ucast (?n - of_nat off) :: u32)"
  have seg: "off + 2 + w \<le> max_ptr + 1" "max_ptr \<le> off + 2 + w"
    using segment_end [OF w off_def] unfolding max_ptr_def by blast+
  have "\<exists>lens vals. fill_topic_loop b max_ptr True (off + 2) 0 = Some (lens, vals, qs) \<and>
      length lens = length ts \<and> list_all2 (shows_string b) (zip lens vals) ts"
    using seg len(3) unfolding w_def by (intro fill_topics_subscribe [OF len(1) header(3) ts qs]) simp_all
  then obtain lens vals where
    fill: "fill_topic_arrays b (off + 2) (ucast (?n - of_nat off)) True = Some (lens, vals, qs)"
    "length lens = length ts" "list_all2 (shows_string b) (zip lens vals) ts"
    unfolding fill_topic_arrays_def max_ptr_def by blast
  show "\<exists>r. deserialize_response b (length (subscribe_wire m)) = Some (Some r) \<and> shows_subscribe m b r"
    using header(1,2) fill len by (auto simp: m parse_subscribe_def ts_def qs_def)
qed

interpretation unsubscribe:
  packet_codec "\<lambda>(packet_id, topic_count, topics) b.
      make_unsubscribe_message b len packet_id topic_count topics" unsubscribe_wire unsubscribe_args_ok
    unsubscribe_decodable shows_unsubscribe
  for len
proof
  fix m :: unsubscribe_args and b
  assume ok: "unsubscribe_args_ok m" and dec: "unsubscribe_decodable m"
    and b: "bytes_at b 0 (unsubscribe_wire m)"
  obtain packet_id topic_count topics where m: "m = (packet_id, topic_count, topics)"
    by (cases m) auto
  define ts where "ts = take (unat topic_count) topics"
  define w where "w = topics_len ts False"
  define off where "off = 1 + length (size_field (of_nat (2 + w)))"
  let ?n = "of_nat (2 + w) :: size_t"
  have len: "length ts = unat topic_count" "length ts \<le> MAX_TOPICS"
    and ts: "list_all (\<lambda>t. short_string t \<and> cstr t \<noteq> []) ts" and i: "packet_id < 256"
    using ok dec by (auto simp: m ts_def)
  then have w: "w < 16382" using topics_len_bound [of ts False] by (simp add: w_def list_all_iff)
  have wire: "unsubscribe_wire m = (PACK_MESSAGE_TYPE UNSUBSCRIBE OR 2) # size_field ?n @ short_wire packet_id @
      concat (map string_wire ts)"
    using utf8_size_field [of ts False] w by (simp add: m Let_def ts_def w_def)
  have "message_type_of (UNPACK_MESSAGE_TYPE (PACK_MESSAGE_TYPE UNSUBSCRIBE OR 2)) = Some UNSUBSCRIBE" by simp
  note header = list_packet_header [OF b [unfolded wire] this w i off_def, folded wire]
  define max_ptr where "max_ptr = off + 2 + unat (ucast (?n - of_nat off) :: u32)"
  have seg: "off + 2 + w \<le> max_ptr + 1" "max_ptr \<le> off + 2 + w"
    using segment_end [OF w off_def] unfolding max_ptr_def by blast+
  have "\<exists>lens vals. fill_topic_loop b max_ptr False (off + 2) 0 = Some (lens, vals, []) \<and>
      length lens = length ts \<and> list_all2 (shows_string b) (zip lens vals) ts"
    using seg len(2) unfolding w_def by (intro fill_topics_unsubscribe [OF header(3) ts]) simp_all
  then obtain lens vals where
    fill: "fill_topic_arrays b (off + 2) (ucast (?n - of_nat off)) False = Some (lens, vals, [])"
    "length lens = length ts" "list_all2 (shows_string b) (zip lens vals) ts"
    unfolding fill_topic_arrays_def max_ptr_def by blast
  show "\<exists>r. deserialize_response b (length (unsubscribe_wire m)) = Some (Some r) \<and> shows_unsubscribe m b r"
    using header(1,2) fill len by (auto simp: m parse_unsubscribe_def ts_def)
qed

subsection \<open>SUBACK\<close>

lemma suback_code_fields:
  assumes "q < (4 :: QoS)"
  shows "QOS_RETURN_OK (if ok then ucast q else 0x80) \<longleftrightarrow> ok" "QOS_RETURN_QOS (ucast q) = q"
proof -
  from assms have "unat q < 4" by (simp add: word_less_nat_alt)
  then have "unat q = 0 \<or> unat q = 1 \<or> unat q = 2 \<or> unat q = 3" by linarith
  then have "q = 0 \<or> q = 1 \<or> q = 2 \<or> q = 3" by (simp add: word_unat_eq_iff)
  then show "QOS_RETURN_OK (if ok then ucast q else 0x80) \<longleftrightarrow> ok" "QOS_RETURN_QOS (ucast q) = q"
    by (auto simp: QOS_RETURN_OK_def QOS_RETURN_QOS_def)
qed

lemma fill_subresults:
  "length oks = length qs \<Longrightarrow> bytes_at b cur (suback_codes oks qs) \<Longrightarrow> list_all (\<lambda>q. q < 4) qs \<Longrightarrow>
    position + length oks \<le> MAX_TOPICS \<Longrightarrow>
    \<exists>qs'. fill_subresult_loop b (cur + length oks) cur position = Some (oks, qs') \<and>
      length qs' = length oks \<and> (\<forall>i < length oks. oks ! i \<longrightarrow> qs' ! i = qs ! i)"
proof (induction oks qs arbitrary: cur position rule: list_induct2)
  case Nil
  then show ?case by (simp add: fill_subresult_loop.simps [of b cur])
next
  case (Cons ok oks q qs)
  then have at: "cur < length b" "b ! cur = (if ok then ucast q else 0x80)"
      "bytes_at b (Suc cur) (suback_codes oks qs)" and q: "q < 4"
    by (simp_all add: suback_codes_def bytes_at_Cons)
  have "\<exists>qs'. fill_subresult_loop b (Suc cur + length oks) (Suc cur) (Suc position) = Some (oks, qs') \<and>
      length qs' = length oks \<and> (\<forall>i < length oks. oks ! i \<longrightarrow> qs' ! i = qs ! i)"
    by (rule Cons.IH) (use Cons.prems at(3) in auto)
  then obtain qs' where IH: "fill_subresult_loop b (Suc cur + length oks) (Suc cur) (Suc position) = Some (oks, qs')"
    "length qs' = length oks" "\<forall>i < length oks. oks ! i \<longrightarrow> qs' ! i = qs ! i" by blast
  have "fill_subresult_loop b (cur + length (ok # oks)) cur position =
      Some (ok # oks, QOS_RETURN_QOS (b ! cur) # qs')"
    using IH(1) at Cons.prems suback_code_fields(1) [OF q, of ok]
    by (simp add: fill_subresult_loop.simps [of b _ cur] mem_simps)
  with IH at suback_code_fields(2) [OF q] show ?case by (auto simp: nth_Cons split: nat.splits)
qed

interpretation suback:
  packet_codec "\<lambda>(packet_id, topic_count, success, qoss) b.
      make_suback_message b len packet_id topic_count success qoss" suback_wire suback_args_ok
    suback_decodable shows_suback
  for len
proof
  fix m :: suback_args and b
  assume ok: "suback_args_ok m" and dec: "suback_decodable m" and b: "bytes_at b 0 (suback_wire m)"
  obtain packet_id topic_count success qoss where m: "m = (packet_id, topic_count, success, qoss)"
    by (cases m) auto
  define oks where "oks = take (unat topic_count) success"
  define qs where "qs = take (unat topic_count) qoss"
  let ?w = "unat topic_count"
  let ?n = "of_nat (2 + ?w) :: size_t"
  have len: "length oks = length qs" "length oks = ?w" "length oks \<le> MAX_TOPICS"
    and qs: "list_all (\<lambda>q. q < 4) qs" and i: "packet_id < 256" and w: "?w < 16382" "2 + ?w < 128"
    using ok dec by (auto simp: m oks_def qs_def)
  have "2 + ucast topic_count = ?n" by (simp add: of_nat_unat)
  then have wire: "suback_wire m = PACK_MESSAGE_TYPE SUBACK # size_field ?n @ short_wire packet_id @
      suback_codes oks qs"
    by (simp add: m Let_def oks_def qs_def)
  have off: "2 = 1 + length (size_field ?n)" using size_field_length [of "2 + ?w"] w by simp
  have "message_type_of (UNPACK_MESSAGE_TYPE (PACK_MESSAGE_TYPE SUBACK)) = Some SUBACK" by simp
  note header = list_packet_header [OF b [unfolded wire] this w(1) i off, folded wire]
  have seg: "unat (ucast (?n - of_nat 2) :: u32) = length oks"
    using len w by (simp add: unsigned_ucast_eq unat_of_nat_small take_bit_nat_eq_self)
  obtain qs' where fill: "fill_subresult_arrays b 4 (ucast (?n - of_nat 2)) = Some (oks, qs')"
    "length qs' = length oks" "\<forall>i < length oks. oks ! i \<longrightarrow> qs' ! i = qs ! i"
    using fill_subresults [OF len(1) header(3) qs, of 0] len(3) seg by (auto simp: fill_subresult_arrays_def)
  show "\<exists>r. deserialize_response b (length (suback_wire m)) = Some (Some r) \<and> shows_suback m b r"
    using header(1,2) fill len by (auto simp: m parse_suback_def oks_def qs_def)
qed

end
