(* ===== verification/Parse_Safety.thy ===== *)
theory Parse_Safety
  imports Deserialize
begin

section \<open>The parser stays inside the receive buffer\<close>

text \<open>
  \<^verbatim>\<open>deserialize_response\<close> trusts every length of the packet. Two facts keep it inside a 1024 byte
  buffer all the same. A short is at most 255, so packets with a bounded number of fields end within
  264 bytes (\<open>parse_body_fixed\<close>). And where the bytes from 257 on are zero, as in the static receive
  buffer of \<^verbatim>\<open>smqttc.c\<close>, which no packet fills beyond 257 bytes, a length read out there is 0, so even
  the packets with many strings cannot run away (\<open>deserialize_quiet\<close>).
\<close>

subsection \<open>Receive buffers\<close>

text \<open>The most bytes \<^verbatim>\<open>network_receive\<close> stores: the two byte header and 255 more.\<close>

definition rx_limit :: nat where
  "rx_limit = 257"

definition BUFFER_SIZE :: nat where
  "BUFFER_SIZE = 1024"

definition quiet_tail :: "bytes \<Rightarrow> bool" where
  "quiet_tail b \<longleftrightarrow> length b = BUFFER_SIZE \<and> (\<forall>i < BUFFER_SIZE. rx_limit \<le> i \<longrightarrow> b ! i = 0)"

text \<open>The message types a broker may send a client (and the empty ones) have a bounded layout.\<close>

definition bounded_type :: "message_type_t \<Rightarrow> bool" where
  "bounded_type t \<longleftrightarrow> t \<notin> {CONNECT, SUBSCRIBE, UNSUBSCRIBE}"

lemma quiet_tail_drop:
  "\<lbrakk>length b' = length b; drop rx_limit b' = drop rx_limit b; quiet_tail b\<rbrakk> \<Longrightarrow> quiet_tail b'"
proof -
  assume l: "length b' = length b" and d: "drop rx_limit b' = drop rx_limit b" and q: "quiet_tail b"
  have "b' ! i = b ! i" if "i < BUFFER_SIZE" "rx_limit \<le> i" for i
    using that l q arg_cong [OF d, of "\<lambda>xs. xs ! (i - rx_limit)"]
    by (simp add: quiet_tail_def BUFFER_SIZE_def rx_limit_def)
  with l q show ?thesis by (simp add: quiet_tail_def)
qed

subsection \<open>Shorts\<close>

lemma short_in:
  assumes "p + 1 < length b"
  obtains n where "short_from_buffer b p = Some n" "unat n \<le> 255"
  using assms that unat_u8_lt [of "b ! (p + 1)"] by (auto simp: short_from_buffer_eq)

lemma short_quiet:
  assumes "quiet_tail b" "p + 1 < BUFFER_SIZE"
  obtains n where "short_from_buffer b p = Some n" "p + 2 + unat n \<le> max (p + 2) 512"
proof -
  from assms have p: "p + 1 < length b" by (simp add: quiet_tail_def)
  from short_in [OF p] obtain n where n: "short_from_buffer b p = Some n" "unat n \<le> 255" .
  have "unat n = 0" if "rx_limit \<le> p + 1"
    using n(1) p assms that by (simp add: short_from_buffer_eq quiet_tail_def)
  with n that show thesis by (cases "rx_limit \<le> p + 1") (auto simp: rx_limit_def)
qed

lemma get_quiet: "quiet_tail b \<Longrightarrow> p < BUFFER_SIZE \<Longrightarrow> buf_get b p = Some (b ! p)"
  by (simp add: quiet_tail_def mem_simps)

subsection \<open>Packets of bounded layout\<close>

lemma parse_publish_in:
  assumes "off + 260 \<le> length b"
  obtains d where "parse_publish b off n = Some (Publish_body d)" "p_topic d = off + 2"
    "p_message d = p_topic d + unat (p_topic_size d) + (if p_qos d \<ge> QoS1 then 2 else 0)"
    "unat (p_topic_size d) \<le> 255"
    "p_message_size d = ucast (n - of_nat (p_message d - off))"
proof -
  from assms have "off + 1 < length b" by simp
  from short_in [OF this] obtain k where k: "short_from_buffer b off = Some k" "unat k \<le> 255" .
  with assms have "off + 2 + unat k + 1 < length b" by simp
  from short_in [OF this] obtain i where i: "short_from_buffer b (off + 2 + unat k) = Some i" .
  have b0: "buf_get b 0 = Some (b ! 0)" using assms by (intro buf_get_in) (cases b, auto)
  let ?q = "ucast (drop_bit 1 (b ! 0) AND 3) :: QoS"
  let ?m = "off + 2 + unat k + (if QoS1 \<le> ?q then 2 else 0)"
  let ?d = "\<lparr>p_qos = ?q, p_retain = (b ! 0 AND 1 \<noteq> 0), p_topic_size = k, p_topic = off + 2,
    p_packet_id = (if QoS1 \<le> ?q then i else no_packet_id),
    p_message_size = ucast (n - of_nat (?m - off)), p_message = ?m\<rparr>"
  have "parse_publish b off n = Some (Publish_body ?d)"
    by (cases "QoS1 \<le> ?q") (simp_all only: parse_publish_def Let_def b0 k(1) i bind.bind_lunit if_True if_False
        prod.case add_0_right)
  then show thesis by (rule that) (simp_all add: k(2))
qed

lemma fill_subresult_in:
  "position + k = MAX_TOPICS \<Longrightarrow> cur + k \<le> length b \<Longrightarrow>
    \<exists>oks qs. fill_subresult_loop b m cur position = Some (oks, qs) \<and> length oks \<le> k \<and> length qs = length oks"
proof (induction k arbitrary: cur position)
  case 0
  then show ?case by (simp add: fill_subresult_loop.simps [of b])
next
  case (Suc k)
  then have "\<exists>oks qs. fill_subresult_loop b m (cur + 1) (position + 1) = Some (oks, qs) \<and> length oks \<le> k \<and>
      length qs = length oks"
    by (intro Suc.IH) auto
  with Suc.prems show ?case
    by (auto simp: fill_subresult_loop.simps [of b m cur] mem_simps)
qed

lemma parse_body_fixed:
  assumes "bounded_type t" "off \<le> 5" "265 \<le> length b"
  shows "\<exists>r. parse_body b off n t = Some r"
proof -
  from assms have "off + 1 < length b" by simp
  from short_in [OF this] obtain i where i: "short_from_buffer b off = Some i" .
  have pub: "\<exists>r. parse_publish b off n = Some r"
    using parse_publish_in [of off b n] assms by auto
  have "\<exists>oks qs. fill_subresult_loop b (off + 2 + unat (ucast (n - of_nat off) :: u32)) (off + 2) 0 = Some (oks, qs) \<and>
      length oks \<le> 32 \<and> length qs = length oks"
    using assms by (intro fill_subresult_in) auto
  with i have suback: "\<exists>r. parse_suback b off n = Some r"
    by (auto simp: parse_suback_def fill_subresult_arrays_def Let_def)
  from assms i pub suback show ?thesis
    by (cases t) (auto simp: bounded_type_def parse_packet_id_def mem_simps)
qed

subsection \<open>Packets with many strings, in a buffer with a zero tail\<close>

lemma parse_opt_quiet:
  assumes "quiet_tail b" "off \<le> k" "512 \<le> k" "k + 1 < BUFFER_SIZE"
  obtains sp off' where "parse_opt_string b off present = Some (sp, off')" "off' \<le> k + 2"
proof (cases present)
  case True
  from assms have "off + 1 < BUFFER_SIZE" by simp
  from short_quiet [OF assms(1) this] obtain n where
    n: "short_from_buffer b off = Some n" "off + 2 + unat n \<le> max (off + 2) 512" .
  from n(1) True have "parse_opt_string b off present = Some (Some (n, off + 2), off + 2 + unat n)"
    by (simp add: parse_opt_string_def)
  then show thesis by (rule that) (use n(2) assms in auto)
next
  case False
  then have "parse_opt_string b off present = Some (None, off)" by (simp add: parse_opt_string_def)
  then show thesis by (rule that) (use assms in auto)
qed

lemma parse_connect_quiet:
  assumes q: "quiet_tail b" and off: "off \<le> 5"
  shows "\<exists>r. parse_connect b off = Some r"
proof -
  have "off + 1 < BUFFER_SIZE" using off by (simp add: BUFFER_SIZE_def)
  from short_quiet [OF q this] obtain n where
    n: "short_from_buffer b off = Some n" and "off + 2 + unat n \<le> max (off + 2) 512" .
  with off have o: "off + 2 + unat n \<le> 512" by simp
  let ?o = "off + 2 + unat n"
  have "?o + 2 + 1 < BUFFER_SIZE" "?o + 4 + 1 < BUFFER_SIZE" using o by (simp_all add: BUFFER_SIZE_def)
  note shorts = this [THEN short_quiet [OF q]]
  from shorts(1) obtain ka where ka: "short_from_buffer b (?o + 2) = Some ka" .
  from shorts(2) obtain k where
    k: "short_from_buffer b (?o + 4) = Some k" and "?o + 4 + 2 + unat k \<le> max (?o + 4 + 2) 512" .
  with o have k': "?o + 4 + 2 + unat k \<le> 518" by simp
  let ?f = "b ! (?o + 1)"
  obtain t o6 where t: "parse_opt_string b (?o + 4 + 2 + unat k) (FLAGS_UNPACK_WILL_FLAG ?f) = Some (t, o6)" "o6 \<le> 520"
    by (rule parse_opt_quiet [OF q k']) (auto simp: BUFFER_SIZE_def)
  obtain m o7 where m: "parse_opt_string b o6 (FLAGS_UNPACK_WILL_FLAG ?f) = Some (m, o7)" "o7 \<le> 522"
    by (rule parse_opt_quiet [OF q t(2)]) (auto simp: BUFFER_SIZE_def)
  obtain u o8 where u: "parse_opt_string b o7 (FLAGS_UNPACK_USER ?f) = Some (u, o8)" "o8 \<le> 524"
    by (rule parse_opt_quiet [OF q m(2)]) (auto simp: BUFFER_SIZE_def)
  obtain w o9 where w: "parse_opt_string b o8 (FLAGS_UNPACK_PW ?f) = Some (w, o9)"
    by (rule parse_opt_quiet [OF q u(2)]) (auto simp: BUFFER_SIZE_def)
  have "buf_get b ?o = Some (b ! ?o)" "buf_get b (?o + 1) = Some ?f"
    using get_quiet [OF q] o by (simp_all add: BUFFER_SIZE_def)
  with n ka k t(1) m(1) u(1) w show ?thesis
    by (simp add: parse_connect_def Let_def eval_nat_numeral)
qed

lemma fill_topic_quiet:
  "quiet_tail b \<Longrightarrow> position + k = MAX_TOPICS \<Longrightarrow> cur \<le> 520 + 3 * position \<Longrightarrow>
    \<exists>r. fill_topic_loop b max_ptr with_qos cur position = Some r"
proof (induction k arbitrary: cur position)
  case 0
  then show ?case by (simp add: fill_topic_loop.simps [of b])
next
  case (Suc k)
  have "cur + 1 < BUFFER_SIZE" using Suc.prems by (simp add: BUFFER_SIZE_def)
  from short_quiet [OF Suc.prems(1) this] obtain n where
    n: "short_from_buffer b cur = Some n" "cur + 2 + unat n \<le> max (cur + 2) 512" .
  have "cur + 2 + unat n < BUFFER_SIZE" using n(2) Suc.prems by (simp add: BUFFER_SIZE_def)
  with get_quiet [OF Suc.prems(1)] have g: "buf_get b (cur + 2 + unat n) = Some (b ! (cur + 2 + unat n))" by blast
  have "\<exists>r. fill_topic_loop b max_ptr with_qos (if with_qos then cur + 2 + unat n + 1 else cur + 2 + unat n)
      (position + 1) = Some r"
    using Suc.prems n(2) by (intro Suc.IH) auto
  with n(1) g show ?case by (auto simp: fill_topic_loop.simps [of b max_ptr with_qos cur])
qed

lemma parse_body_quiet:
  assumes q: "quiet_tail b" and off: "off \<le> 5"
  shows "\<exists>r. parse_body b off n t = Some r"
proof (cases "bounded_type t")
  case True
  then show ?thesis using parse_body_fixed [OF True off] q by (simp add: quiet_tail_def BUFFER_SIZE_def)
next
  case False
  have fill: "\<exists>r. fill_topic_arrays b (off + 2) seg with_qos = Some r" for seg with_qos
    unfolding fill_topic_arrays_def using off by (intro fill_topic_quiet [OF q, of 0 32]) auto
  obtain i where "short_from_buffer b off = Some i"
    using short_in [of off b] q off by (auto simp: quiet_tail_def BUFFER_SIZE_def)
  then have "\<exists>r. parse_subscribe b off n = Some r" "\<exists>r. parse_unsubscribe b off n = Some r"
    using fill [of "ucast (n - of_nat off)" True] fill [of "ucast (n - of_nat off)" False]
    by (auto simp: parse_subscribe_def parse_unsubscribe_def)
  with False parse_connect_quiet [OF q off] show ?thesis by (auto simp: bounded_type_def)
qed

lemma deserialize_cases:
  assumes "6 \<le> length b"
  obtains "deserialize_response b len = Some None"
  | off n t where "deserialize_response b len = map_option Some (parse_body b off n t)"
      "off \<le> 5" "1 \<le> len \<Longrightarrow> 2 \<le> off" "off \<le> max 1 (len + 1)" "unat n < 2 ^ 28"
      "message_type_of (UNPACK_MESSAGE_TYPE (b ! 0)) = Some t"
proof -
  from assms have "len < length b \<or> 1 + 4 \<le> length b" by simp
  then obtain used r where d: "decode_size b 1 len = Some (used, r)"
    "used \<le> 4" "1 \<le> len \<longrightarrow> 1 \<le> used" "0 < used \<longrightarrow> 1 + used \<le> len + 1"
    "\<forall>v. r = Some v \<longrightarrow> unat v < 2 ^ 28"
    by (rule decode_size_total) blast
  have b0: "buf_get b 0 = Some (b ! 0)" using assms by (intro buf_get_in) (cases b, auto)
  show thesis
  proof (cases "r = None \<or> message_type_of (UNPACK_MESSAGE_TYPE (b ! 0)) = None")
    case True
    then show thesis
      using that(1) d(1) b0 by (auto simp: deserialize_response_def split: option.splits)
  next
    case False
    then obtain v t where vt: "r = Some v" "message_type_of (UNPACK_MESSAGE_TYPE (b ! 0)) = Some t" by auto
    show thesis
      by (rule that(2) [of "1 + used" v t])
        (use d b0 vt in \<open>auto simp: deserialize_response_def max_def\<close>)
  qed
qed

lemma deserialize_quiet:
  assumes "quiet_tail b"
  shows "\<exists>r. deserialize_response b len = Some r"
proof -
  have "6 \<le> length b" using assms by (simp add: quiet_tail_def BUFFER_SIZE_def)
  then show ?thesis
    by (rule deserialize_cases [of b len]) (use parse_body_quiet [OF assms] in fastforce)+
qed

subsection \<open>Where a parsed message points\<close>

lemma parse_body_type: "parse_body b off n t = Some r \<Longrightarrow> response_type r = t"
  by (cases t)
    (auto simp: parse_connect_def parse_publish_def parse_subscribe_def parse_suback_def parse_unsubscribe_def
      parse_packet_id_def Let_def Option.bind_eq_Some_conv split: if_splits)

lemma deserialize_publish_layout:
  assumes "265 \<le> length b" "deserialize_response b len = Some (Some (Publish_body d))"
  shows "p_message d \<le> 264" "p_topic d \<le> p_message d" "1 \<le> len \<Longrightarrow> 4 \<le> p_topic d" "unat (p_topic_size d) \<le> 255"
proof -
  from assms(1) have "6 \<le> length b" by simp
  then have "p_message d \<le> 264 \<and> p_topic d \<le> p_message d \<and> (1 \<le> len \<longrightarrow> 4 \<le> p_topic d) \<and>
      unat (p_topic_size d) \<le> 255"
  proof (cases rule: deserialize_cases [where len = len])
    case (2 off n t)
    from 2(1) assms(2) have p: "parse_body b off n t = Some (Publish_body d)"
      by (cases "parse_body b off n t") auto
    from parse_body_type [OF p] have t: "t = PUBLISH" by simp
    have "off + 260 \<le> length b" using 2(2) assms(1) by simp
    from parse_publish_in [OF this, of n] obtain d' where
      "parse_publish b off n = Some (Publish_body d')" "p_topic d' = off + 2"
      "p_message d' = p_topic d' + unat (p_topic_size d') + (if p_qos d' \<ge> QoS1 then 2 else 0)"
      "unat (p_topic_size d') \<le> 255" .
    with p t 2(2,3) show ?thesis by (auto split: if_splits)
  qed (use assms(2) in auto)
  then show "p_message d \<le> 264" "p_topic d \<le> p_message d" "1 \<le> len \<Longrightarrow> 4 \<le> p_topic d" "unat (p_topic_size d) \<le> 255"
    by auto
qed

lemma copy_quiet:
  assumes "quiet_tail b" "p \<le> 264"
  shows "\<exists>cs. strncpy_mem b p n = Some cs"
  using assms by (intro strncpy_mem_stops [of p 1000]) (auto simp: quiet_tail_def BUFFER_SIZE_def rx_limit_def)

text \<open>Without the zero tail a copy ends when it is short enough, or at a NUL byte behind the longest packet.\<close>

definition copy_ends :: "bytes \<Rightarrow> publish_data \<Rightarrow> bool" where
  "copy_ends b d \<longleftrightarrow> unat (p_message_size d) \<le> 760 \<or> 0 \<in> set (drop 264 b)"

lemma strncpy_mem_in: "i + n \<le> length b \<Longrightarrow> \<exists>cs. strncpy_mem b i n = Some cs"
proof (induction n arbitrary: i)
  case (Suc n)
  from Suc.prems have "Suc i + n \<le> length b" by simp
  from Suc.IH [OF this] obtain cs where "strncpy_mem b (Suc i) n = Some cs" ..
  with Suc.prems show ?case by (simp add: mem_simps)
qed simp

lemma copy_in_buffer:
  assumes "length b = BUFFER_SIZE" "p \<le> 264" "n \<le> 760 \<or> 0 \<in> set (drop 264 b)"
  shows "\<exists>cs. strncpy_mem b p n = Some cs"
  using assms(3)
proof
  assume "n \<le> 760"
  with assms(1,2) show ?thesis by (intro strncpy_mem_in) (simp add: BUFFER_SIZE_def)
next
  assume "0 \<in> set (drop 264 b)"
  then obtain j where "j < length b - 264" "b ! (264 + j) = 0" by (auto simp: in_set_conv_nth)
  with assms(2) show ?thesis by (intro strncpy_mem_stops [of p "264 + j"]) auto
qed

text \<open>An acknowledgement is parsed with an identifier below 256.\<close>

lemma short_small: "short_from_buffer b p = Some n \<Longrightarrow> unat n < 256"
  using unat_u8_lt by (auto simp: short_from_buffer_eq split: if_splits)

lemma parse_body_ack:
  "parse_body b off n t = Some (Puback_body i) \<or> parse_body b off n t = Some (Pubrec_body i) \<or>
   parse_body b off n t = Some (Pubcomp_body i) \<or> parse_body b off n t = Some (Unsuback_body i) \<Longrightarrow> unat i < 256"
  using parse_body_type [of b off n t]
  by (cases t) (auto simp: parse_packet_id_def dest: short_small)

lemma deserialize_ack:
  "deserialize_response b len = Some (Some r) \<Longrightarrow> r \<in> {Puback_body i, Pubrec_body i, Pubcomp_body i, Unsuback_body i} \<Longrightarrow>
    unat i < 256"
  by (auto simp: deserialize_response_def Let_def Option.bind_eq_Some_conv intro: parse_body_ack
      split: option.splits prod.splits)

end
