(* ===== verification/Message_Properties.thy ===== *)
theory Message_Properties
  imports Roundtrip Parse_Safety
begin

section \<open>Correctness of the message layer\<close>

text \<open>
  The properties of \<^verbatim>\<open>libsmqttcore/messages.c\<close>, each over the definitions alone: the variable length
  size field, the packets the builders store, what the parser finds in them, and where it reads.
\<close>

subsection \<open>The remaining length field\<close>

text \<open>For every size below \<open>2 ^ 28\<close> that fits, \<^verbatim>\<open>encode_size\<close> stores exactly the base 128 digits of
  the size, low digit first with continuation bits, changes no other byte, counts the digits and
  succeeds.\<close>

theorem encode_size_stores_varlen:
  assumes "unat sz < 2 ^ 28" "p + length (varlen (unat sz)) \<le> length b"
  shows "encode_size sz b p =
    Some (take p b @ varlen (unat sz) @ drop (p + length (varlen (unat sz))) b,
          length (varlen (unat sz)), True)"
proof -
  have "varlen_upto 4 (unat sz) = varlen (unat sz)" using assms(1) by (simp add: varlen_upto_varlen)
  with assms show ?thesis by (simp add: encode_size_eq mem_simps)
qed

theorem encode_size_stores_varlen_witness:
  "unat (321 :: size_t) < 2 ^ 28 \<and> encode_size 321 [9, 9, 9, 9] 1 = Some ([9, 193, 2, 9], 2, True)"
proof -
  have "varlen 321 = [193, 2]" by (simp add: varlen.simps)
  then show ?thesis using encode_size_stores_varlen [of 321 1 "[9, 9, 9, 9]"] by simp
qed

lemma varlen_upto_full: "128 ^ k \<le> n \<Longrightarrow> length (varlen_upto k n) = k"
proof (induction k arbitrary: n)
  case (Suc k)
  have "(128 :: nat) * 1 \<le> 128 * 128 ^ k" by (rule mult_le_mono2) simp
  also have "128 * 128 ^ k \<le> n" using Suc.prems by simp
  finally have "128 \<le> n" by simp
  moreover have "128 ^ k \<le> n div 128"
    using Suc.prems by (simp add: less_eq_div_iff_mult_less_eq mult.commute)
  ultimately show ?case using Suc.IH by simp
qed simp

text \<open>A size of \<open>2 ^ 28\<close> or more is reported as a failure, after four bytes were stored.\<close>

theorem encode_size_rejects_large:
  assumes "2 ^ 28 \<le> unat sz" "p + 4 \<le> length b"
  shows "\<exists>b'. encode_size sz b p = Some (b', 4, False) \<and> length b' = length b"
proof -
  have l: "length (varlen_upto 4 (unat sz)) = 4" using assms(1) varlen_upto_full [of 4 "unat sz"] by simp
  with assms(2) obtain b' where "buf_put b p (varlen_upto 4 (unat sz)) = Some b'"
    by (cases "buf_put b p (varlen_upto 4 (unat sz))") (auto simp: buf_put_def split: if_splits)
  with l assms(1) buf_put_length show ?thesis by (auto simp: encode_size_eq)
qed

theorem encode_size_rejects_large_witness:
  "\<exists>b'. encode_size 0x10000000 [0, 0, 0, 0] 0 = Some (b', 4, False) \<and> length b' = Suc (Suc (Suc (Suc 0)))"
  using encode_size_rejects_large [of "0x10000000" 0 "[0, 0, 0, 0]"] by simp

text \<open>C27: decoding what was encoded gives the size back and consumes exactly the bytes written, whatever
  follows in the array, for every size below \<open>2 ^ 28\<close>.\<close>

theorem encode_decode_size:
  assumes "unat sz < 2 ^ 28" "p + 4 \<le> length b" "p + 3 \<le> e"
  shows "\<exists>b' used. encode_size sz b p = Some (b', used, True) \<and> length b' = length b \<and>
    decode_size b' p e = Some (used, Some sz)"
proof -
  let ?v = "varlen (unat sz)"
  have v: "varlen_upto 4 (unat sz) = ?v" "length ?v \<le> 4"
    using assms(1) varlen_length [of "unat sz" 4] by (simp_all add: varlen_upto_varlen)
  with assms(2) obtain b' where b': "buf_put b p ?v = Some b'" by (simp add: mem_simps)
  have "decode_size b' p e = Some (length ?v, Some (of_nat (unat sz)))"
    using assms v(2) buf_put_bytes_at [OF b'] by (intro decode_size_varlen) auto
  with b' v(1) buf_put_length [OF b'] assms(1) show ?thesis
    by (auto simp: encode_size_eq of_nat_unat)
qed

theorem encode_decode_size_witness:
  "\<exists>b' used. encode_size 5000 (replicate 8 0) 1 = Some (b', used, True) \<and> length b' = 8 \<and>
    decode_size b' 1 7 = Some (used, Some 5000)"
  using encode_decode_size [of 5000 1 "replicate 8 0" 7] by simp

text \<open>C32: \<^verbatim>\<open>decode_size\<close> always ends, reads at most four bytes and none past \<^verbatim>\<open>buffer_end\<close>, and a
  decoded size is below \<open>2 ^ 28\<close>: the multiplications never wrap.\<close>

theorem decode_size_bounded:
  assumes "p + 4 \<le> length b"
  shows "\<exists>used r. decode_size b p e = Some (used, r) \<and> used \<le> 4 \<and> p + used \<le> max p (e + 1) \<and>
    (\<forall>v. r = Some v \<longrightarrow> unat v < 2 ^ 28)"
proof -
  from assms have "e < length b \<or> p + 4 \<le> length b" by simp
  then obtain used r where d: "decode_size b p e = Some (used, r)" "used \<le> 4"
    "0 < used \<longrightarrow> p + used \<le> e + 1" "\<forall>v. r = Some v \<longrightarrow> unat v < 2 ^ 28"
    by (rule decode_size_total) blast
  from d(3) have "p + used \<le> max p (e + 1)" by (cases "used = 0") auto
  with d show ?thesis by blast
qed

theorem decode_size_bounded_witness:
  "\<exists>used r. decode_size [255, 255, 255, 127] 0 9 = Some (used, r) \<and> used \<le> 4 \<and> 0 + used \<le> max 0 (9 + 1) \<and>
    (\<forall>v. r = Some v \<longrightarrow> unat v < 2 ^ 28)"
  by (rule decode_size_bounded) simp

text \<open>A size field cut off by \<^verbatim>\<open>buffer_end\<close> (every byte there has its continuation bit set) is not
  reported: the call succeeds with the value of the digits it saw.\<close>

theorem decode_size_accepts_truncated:
  assumes "128 \<le> unat x" "128 \<le> unat y"
  shows "decode_size [t, x] 1 1 = Some (1, Some (of_nat (unat x mod 128))) \<and>
    decode_size [t, x, y] 1 2 = Some (2, Some (of_nat (unat x mod 128 + 128 * (unat y mod 128))))"
  using assms
  by (simp add: decode_size_def decode_loop.simps buf_get_def and_127 and_0x80 ucast_digit mult.commute)

theorem decode_size_accepts_truncated_witness:
  "decode_size [0, 129] 1 1 = Some (1, Some 1) \<and> decode_size [0, 129, 130] 1 2 = Some (2, Some 257)"
  using decode_size_accepts_truncated [of 129 130 0] by simp

subsection \<open>The builders\<close>

text \<open>\<^verbatim>\<open>make_connect_message\<close> stores exactly the CONNECT packet and returns its size when the packet fits
  the array, and writes outside the array exactly when it does not: the \<open>length\<close> argument is ignored.\<close>

theorem make_connect_stores:
  "connect_args_ok a \<Longrightarrow> make_connect_message buffer len a = stored buffer (connect_wire a)"
  by (rule connect.make_stores)

text \<open>A connection without will or credentials, with a two character client identifier.\<close>

definition sample_connect :: connect_args where
  "sample_connect = \<lparr>a_clientid = [97, 98], a_user = None, a_pw = None, a_keep_alive = 30,
     a_clean_session = True, a_last_will = False, a_will_qos = QoS0, a_will_retain = False,
     a_will_topic = None, a_will_message = None\<rparr>"

lemma sample_connect_wire:
  "connect_wire sample_connect = [16, 16, 0, 6, 77, 81, 73, 115, 100, 112, 3, 2, 0, 30, 0, 2, 97, 98]"
proof -
  have "connect_len sample_connect = 16"
    by (simp add: connect_len_def sample_connect_def opt_len_def strlen_def cstr_def protocol_name_def)
  moreover have "size_field 16 = [16]" by (simp add: size_field_small)
  ultimately show ?thesis
    by (simp add: connect_wire_def sample_connect_def string_wire_def short_wire_def
        strlen_def cstr_def protocol_name_def protocol_level_def opt_wire_def
        PACK_MESSAGE_TYPE_def connect_flags_def PACK_CONNECT_FLAGS_def BOOL_TO_BIT_def)
qed

theorem make_connect_stores_witness:
  "make_connect_message (replicate 20 7) 20 sample_connect =
    Some ([16, 16, 0, 6, 77, 81, 73, 115, 100, 112, 3, 2, 0, 30, 0, 2, 97, 98, 7, 7], 18)"
proof -
  have "connect_args_ok sample_connect" by (simp add: connect_args_ok_def sample_connect_def)
  from make_connect_stores [OF this] show ?thesis by (simp add: stored_def sample_connect_wire numeral_eq_Suc)
qed

text \<open>\<^verbatim>\<open>make_publish_message\<close> stores exactly the PUBLISH packet: the flags of the quality of service and
  of the retain bit, the topic, the packet identifier from quality 1 on, and the message, which may be
  missing. It writes outside the array exactly when the packet is longer than the array.\<close>

theorem make_publish_stores:
  "make_publish_message buffer len topic packet_id qos retain msg =
    stored buffer (publish_wire (topic, packet_id, qos, retain, msg))"
  using publish.make_stores [where m = "(topic, packet_id, qos, retain, msg)"] by simp

text \<open>The packets that carry arrays, SUBSCRIBE, UNSUBSCRIBE and SUBACK, are stored exactly as well, one
  entry for each of the first \<^verbatim>\<open>topic_count\<close> elements of the caller's arrays.\<close>

theorem make_list_packets_store:
  assumes "unat topic_count \<le> length topics" "unat topic_count \<le> length qoss"
    "unat topic_count \<le> length success"
  shows "make_subscribe_message buffer len packet_id topic_count topics qoss =
      stored buffer (subscribe_wire (packet_id, topic_count, topics, qoss)) \<and>
    make_unsubscribe_message buffer len packet_id topic_count topics =
      stored buffer (unsubscribe_wire (packet_id, topic_count, topics)) \<and>
    make_suback_message buffer len packet_id topic_count success qoss =
      stored buffer (suback_wire (packet_id, topic_count, success, qoss))"
  using assms subscribe.make_stores [where m = "(packet_id, topic_count, topics, qoss)"]
    unsubscribe.make_stores [where m = "(packet_id, topic_count, topics)"]
    suback.make_stores [where m = "(packet_id, topic_count, success, qoss)"] by simp

lemma sample_list_wires:
  "subscribe_wire (5, 1, [[116]], [QoS1]) = [130, 6, 0, 5, 0, 1, 116, 1]"
  "unsubscribe_wire (5, 1, [[116]]) = [162, 5, 0, 5, 0, 1, 116]"
  "suback_wire (5, 1, [False], [QoS1]) = [144, 3, 0, 5, 128]"
proof -
  have len: "strlen [116] = 1" "cstr [116] = [116]" by (simp_all add: strlen_def cstr_def)
  have "size_field 6 = [6]" "size_field 5 = [5]" "size_field 3 = [3]" by (simp_all add: size_field_small)
  moreover have "utf8_size [[116]] True = 4" "utf8_size [[116]] False = 3"
    by (simp_all add: utf8_size_def len)
  ultimately show "subscribe_wire (5, 1, [[116]], [QoS1]) = [130, 6, 0, 5, 0, 1, 116, 1]"
    "unsubscribe_wire (5, 1, [[116]]) = [162, 5, 0, 5, 0, 1, 116]"
    "suback_wire (5, 1, [False], [QoS1]) = [144, 3, 0, 5, 128]"
    by (simp_all add: topic_qos_wire_def suback_codes_def string_wire_def short_wire_def len
        PACK_MESSAGE_TYPE_def)
qed

theorem make_list_packets_store_witness:
  "make_subscribe_message [7, 7, 7, 7, 7, 7, 7, 7, 7] 9 5 1 [[116]] [QoS1] =
      Some ([130, 6, 0, 5, 0, 1, 116, 1, 7], 8) \<and>
    make_unsubscribe_message [7, 7, 7, 7, 7, 7, 7, 7, 7] 9 5 1 [[116]] =
      Some ([162, 5, 0, 5, 0, 1, 116, 7, 7], 7) \<and>
    make_suback_message [7, 7, 7, 7, 7, 7, 7, 7, 7] 9 5 1 [False] [QoS1] =
      Some ([144, 3, 0, 5, 128, 7, 7, 7, 7], 5)"
  using make_list_packets_store [of 1 "[[116]]" "[QoS1]" "[False]" "[7, 7, 7, 7, 7, 7, 7, 7, 7]" 9 5]
  by (simp add: stored_def sample_list_wires
      del: subscribe_wire.simps unsubscribe_wire.simps suback_wire.simps)

text \<open>The packets of fixed size are stored exactly: CONNACK, the five acknowledgements with a packet
  identifier, and the three packets that are a header alone.\<close>

theorem make_fixed_packets_store:
  "make_connack_message buffer len t = stored buffer (connack_wire t) \<and>
   make_puback_message buffer len i = stored buffer (ack_wire (PACK_MESSAGE_TYPE PUBACK) i) \<and>
   make_pubrec_message buffer len i = stored buffer (ack_wire (PACK_MESSAGE_TYPE PUBREC) i) \<and>
   make_pubrel_message buffer len i = stored buffer (ack_wire (PACK_MESSAGE_TYPE PUBREL OR 2) i) \<and>
   make_pubcomp_message buffer len i = stored buffer (ack_wire (PACK_MESSAGE_TYPE PUBCOMP) i) \<and>
   make_unsuback_message buffer len i = stored buffer (ack_wire (PACK_MESSAGE_TYPE UNSUBACK) i) \<and>
   make_pingreq_message buffer len = stored buffer [PACK_MESSAGE_TYPE PINGREQ, 0] \<and>
   make_pingresp_message buffer len = stored buffer [PACK_MESSAGE_TYPE PINGRESP, 0] \<and>
   make_disconnect_message buffer len = stored buffer [PACK_MESSAGE_TYPE DISCONNECT, 0]"
  by (simp add: connack.make_stores puback.make_stores pubrec.make_stores pubrel.make_stores
      pubcomp.make_stores unsuback.make_stores pingreq.make_stores pingresp.make_stores
      disconnect.make_stores)

subsection \<open>Round trips\<close>

text \<open>C13: parsing a built CONNECT packet gives back every argument: flags, keep alive, client identifier,
  will, user and password, as long as each string is shorter than 256 bytes.\<close>

theorem connect_roundtrip:
  assumes "connect_args_ok a" "connect_decodable a" "length (connect_wire a) \<le> length buffer"
  shows "\<exists>b n r. make_connect_message buffer len a = Some (b, n) \<and>
    deserialize_response b n = Some (Some r) \<and> shows_connect a b r"
  using assms by (rule connect.parse_make)

theorem connect_roundtrip_witness:
  "\<exists>b n r. make_connect_message (replicate 20 7) 20 sample_connect = Some (b, n) \<and>
    deserialize_response b n = Some (Some r) \<and> shows_connect sample_connect b r"
  by (rule connect_roundtrip)
    (simp add: connect_args_ok_def sample_connect_def,
     simp add: connect_decodable_def sample_connect_def short_string_def short_opt_def cstr_def,
     simp add: sample_connect_wire)

text \<open>C14: parsing a built PUBLISH packet gives back topic, message, quality of service, retain flag and,
  from quality 1 on, the packet identifier, for topics shorter than 256 bytes, messages shorter than 64 KB
  and packet identifiers below 256.\<close>

theorem publish_roundtrip:
  assumes "publish_decodable (topic, packet_id, qos, retain, msg)"
    "length (publish_wire (topic, packet_id, qos, retain, msg)) \<le> length buffer"
  shows "\<exists>b n r. make_publish_message buffer len topic packet_id qos retain msg = Some (b, n) \<and>
    deserialize_response b n = Some (Some r) \<and> shows_publish (topic, packet_id, qos, retain, msg) b r"
  using publish.parse_make [OF TrueI assms] by simp

lemma sample_publish_wire:
  "publish_wire ([116], 9, QoS1, True, Some [104, 105]) = [51, 7, 0, 1, 116, 0, 9, 104, 105]"
proof -
  have "strlen [116] = 1" "strlen [104, 105] = 2" "cstr [116] = [116]" "cstr [104, 105] = [104, 105]"
    by (simp_all add: strlen_def cstr_def)
  moreover have "size_field 7 = [7]" by (simp add: size_field_small)
  ultimately show ?thesis
    by (simp add: string_wire_def short_wire_def PACK_MESSAGE_TYPE_def)
qed

theorem publish_roundtrip_witness:
  "\<exists>b n r. make_publish_message (replicate 12 0) 12 [116] 9 QoS1 True (Some [104, 105]) = Some (b, n) \<and>
    deserialize_response b n = Some (Some r) \<and> shows_publish ([116], 9, QoS1, True, Some [104, 105]) b r"
proof -
  have "publish_decodable ([116], 9, QoS1, True, Some [104, 105])"
    by (simp add: short_string_def cstr_def)
  moreover have "length (publish_wire ([116], 9, QoS1, True, Some [104, 105])) \<le> length (replicate 12 (0 :: u8))"
    by (simp only: sample_publish_wire) simp
  ultimately show ?thesis by (rule publish_roundtrip)
qed

text \<open>C17: parsing a built SUBSCRIBE packet gives back the packet identifier, every topic and every quality
  of service, in order, for up to 32 topics shorter than 256 bytes and packet identifiers below 256.\<close>

theorem subscribe_roundtrip:
  assumes "subscribe_args_ok (packet_id, topic_count, topics, qoss)"
    "subscribe_decodable (packet_id, topic_count, topics, qoss)"
    "length (subscribe_wire (packet_id, topic_count, topics, qoss)) \<le> length buffer"
  shows "\<exists>b n r. make_subscribe_message buffer len packet_id topic_count topics qoss = Some (b, n) \<and>
    deserialize_response b n = Some (Some r) \<and> shows_subscribe (packet_id, topic_count, topics, qoss) b r"
  using subscribe.parse_make [OF assms] by simp

theorem subscribe_roundtrip_witness:
  "\<exists>b n r. make_subscribe_message (replicate 12 0) 12 5 1 [[116]] [QoS1] = Some (b, n) \<and>
    deserialize_response b n = Some (Some r) \<and> shows_subscribe (5, 1, [[116]], [QoS1]) b r"
proof -
  have "subscribe_args_ok (5, 1, [[116]], [QoS1])" by simp
  moreover have "subscribe_decodable (5, 1, [[116]], [QoS1])" by (simp add: short_string_def cstr_def)
  moreover have "length (subscribe_wire (5, 1, [[116]], [QoS1])) \<le> length (replicate 12 (0 :: u8))"
    by (simp only: sample_list_wires) simp
  ultimately show ?thesis by (rule subscribe_roundtrip)
qed

text \<open>C28: parsing a built UNSUBSCRIBE or SUBACK packet gives back its packet identifier and its topics, or its
  result codes, for identifiers below 256, at most 32 entries, topics of 1 to 255 bytes and qualities of service below 4.
  Empty topics are excluded in UNSUBSCRIBE: the segment the parser scans ends a byte early
  when the size field takes two bytes, and an empty last topic is lost.\<close>

theorem unsubscribe_suback_roundtrip:
  assumes "unat topic_count \<le> length topics" "unat topic_count \<le> length success"
    "unat topic_count \<le> length qoss"
    "unsubscribe_decodable (packet_id, topic_count, topics)"
    "suback_decodable (packet_id, topic_count, success, qoss)"
    "length (unsubscribe_wire (packet_id, topic_count, topics)) \<le> length buffer"
    "length (suback_wire (packet_id, topic_count, success, qoss)) \<le> length buffer"
  shows "(\<exists>b n r. make_unsubscribe_message buffer len packet_id topic_count topics = Some (b, n) \<and>
      deserialize_response b n = Some (Some r) \<and> shows_unsubscribe (packet_id, topic_count, topics) b r) \<and>
    (\<exists>b n r. make_suback_message buffer len packet_id topic_count success qoss = Some (b, n) \<and>
      deserialize_response b n = Some (Some r) \<and>
      shows_suback (packet_id, topic_count, success, qoss) b r)"
  using unsubscribe.parse_make [OF _ assms(4,6)] suback.parse_make [OF _ assms(5,7)] assms(1-3) by simp

theorem unsubscribe_suback_roundtrip_witness:
  "(\<exists>b n r. make_unsubscribe_message (replicate 12 0) 12 5 1 [[116]] = Some (b, n) \<and>
      deserialize_response b n = Some (Some r) \<and> shows_unsubscribe (5, 1, [[116]]) b r) \<and>
    (\<exists>b n r. make_suback_message (replicate 12 0) 12 5 1 [False] [QoS1] = Some (b, n) \<and>
      deserialize_response b n = Some (Some r) \<and> shows_suback (5, 1, [False], [QoS1]) b r)"
proof -
  have "unsubscribe_decodable (5, 1, [[116]])" "suback_decodable (5, 1, [False], [QoS1])"
    by (simp_all add: short_string_def cstr_def)
  moreover have "length (unsubscribe_wire (5, 1, [[116]])) \<le> length (replicate 12 (0 :: u8))"
    "length (suback_wire (5, 1, [False], [QoS1])) \<le> length (replicate 12 (0 :: u8))"
    by (simp_all only: sample_list_wires) simp_all
  ultimately show ?thesis by (intro unsubscribe_suback_roundtrip) simp_all
qed

text \<open>The packets of fixed size parse to themselves: the acknowledgements for packet identifiers
  below 256, CONNACK for every code of the protocol, and the packets that are a header alone.\<close>

theorem fixed_packets_roundtrip:
  assumes "i < 256" "\<forall>c. t \<noteq> Connack_other c" "4 \<le> length buffer"
  shows "(\<exists>b. make_puback_message buffer len i = Some (b, 4) \<and> deserialize_response b 4 = Some (Some (Puback_body i))) \<and>
    (\<exists>b. make_pubrec_message buffer len i = Some (b, 4) \<and> deserialize_response b 4 = Some (Some (Pubrec_body i))) \<and>
    (\<exists>b. make_pubrel_message buffer len i = Some (b, 4) \<and> deserialize_response b 4 = Some (Some (Pubrel_body i))) \<and>
    (\<exists>b. make_pubcomp_message buffer len i = Some (b, 4) \<and> deserialize_response b 4 = Some (Some (Pubcomp_body i))) \<and>
    (\<exists>b. make_unsuback_message buffer len i = Some (b, 4) \<and> deserialize_response b 4 = Some (Some (Unsuback_body i))) \<and>
    (\<exists>b. make_connack_message buffer len t = Some (b, 4) \<and> deserialize_response b 4 = Some (Some (Connack_body t))) \<and>
    (\<exists>b. make_pingreq_message buffer len = Some (b, 2) \<and> deserialize_response b 2 = Some (Some Pingreq_body)) \<and>
    (\<exists>b. make_pingresp_message buffer len = Some (b, 2) \<and> deserialize_response b 2 = Some (Some Pingresp_body)) \<and>
    (\<exists>b. make_disconnect_message buffer len = Some (b, 2) \<and> deserialize_response b 2 = Some (Some Disconnect_body))"
proof -
  note fits = puback.parse_wire pubrec.parse_wire pubrel.parse_wire pubcomp.parse_wire unsuback.parse_wire
  have four: "length (ack_wire h i) \<le> length buffer" "length (connack_wire t) \<le> length buffer" for h
    using assms(3) by simp_all
  have two: "length [h, 0 :: u8] \<le> length buffer" for h using assms(3) by simp
  note whole = bytes_at_whole [of "ack_wire h i" for h] bytes_at_whole [of "connack_wire t"]
    bytes_at_whole [of "[h, 0]" for h]
  show ?thesis
    using fits [OF TrueI assms(1) whole(1)] connack.parse_wire [OF TrueI assms(2) whole(2)]
      pingreq.parse_wire [OF TrueI TrueI whole(3)] pingresp.parse_wire [OF TrueI TrueI whole(3)]
      disconnect.parse_wire [OF TrueI TrueI whole(3)] four two
    by (simp add: puback.make_fits pubrec.make_fits pubrel.make_fits pubcomp.make_fits
        unsuback.make_fits connack.make_fits pingreq.make_fits pingresp.make_fits
        disconnect.make_fits numeral_2_eq_2)
qed

theorem fixed_packets_roundtrip_witness:
  "(\<exists>b. make_puback_message [0, 0, 0, 0] 4 77 = Some (b, 4) \<and>
      deserialize_response b 4 = Some (Some (Puback_body 77))) \<and>
   (\<exists>b. make_connack_message [0, 0, 0, 0] 4 Connection_Accepted = Some (b, 4) \<and>
      deserialize_response b 4 = Some (Some (Connack_body Connection_Accepted)))"
  using fixed_packets_roundtrip [of 77 Connection_Accepted "[0, 0, 0, 0]" 4] by simp

text \<open>Only the low byte of a packet identifier survives: an acknowledgement built for an identifier
  of 256 or more parses to a different identifier, whatever the array held before.\<close>

theorem wide_packet_id_lost:
  assumes "256 \<le> i" "4 \<le> length buffer"
  shows "\<exists>b j. make_puback_message buffer len i = Some (b, 4) \<and>
    deserialize_response b 4 = Some (Some (Puback_body j)) \<and> j = i mod 256 \<and> j \<noteq> i"
proof -
  let ?j = "ucast (ucast i :: u8) :: u16"
  let ?b = "ack_wire (PACK_MESSAGE_TYPE PUBACK) i @ drop 4 buffer"
  have j: "?j = i mod 256" by (simp add: word_unat_eq_iff unat_ucast_u8 unat_mod_distrib)
  have "i mod 256 < 256" by (simp add: word_mod_less_divisor)
  with assms(1) have ne: "i mod 256 \<noteq> i" by auto
  have wire: "ack_wire (PACK_MESSAGE_TYPE PUBACK) i = ack_wire (PACK_MESSAGE_TYPE PUBACK) ?j"
    by (simp add: ack_wire_def short_wire_def word_unat_eq_iff unat_ucast_u8)
  have "?j < 256" by (simp add: j word_mod_less_divisor)
  from puback.parse_wire [OF TrueI this, of ?b] wire have "deserialize_response ?b 4 = Some (Some (Puback_body ?j))"
    by (simp add: bytes_at_whole)
  moreover have "make_puback_message buffer len i = Some (?b, 4)"
    using assms(2) by (simp add: puback.make_fits)
  ultimately show ?thesis using ne j by auto
qed

theorem wide_packet_id_lost_witness:
  "\<exists>b j. make_puback_message [0, 0, 0, 0] 4 258 = Some (b, 4) \<and>
    deserialize_response b 4 = Some (Some (Puback_body j)) \<and> j = 258 mod 256 \<and> j \<noteq> 258"
  by (rule wide_packet_id_lost) simp_all

subsection \<open>Where the parser reads\<close>

text \<open>C18: on the client's receive buffer, whose bytes from 257 on are zero, the parser stays inside the
  array for every content of the first 257 bytes and every length: it returns a message or \<^verbatim>\<open>NULL\<close>.\<close>

theorem deserialize_in_bounds:
  assumes "quiet_tail b"
  shows "\<exists>r. deserialize_response b len = Some r"
  using assms by (rule deserialize_quiet)

theorem deserialize_in_bounds_witness:
  "\<exists>r. deserialize_response (replicate 257 255 @ replicate 767 0) 257 = Some r"
  by (rule deserialize_in_bounds)
    (simp add: quiet_tail_def BUFFER_SIZE_def rx_limit_def nth_append)

text \<open>The packets a broker sends to a client (all but CONNECT, SUBSCRIBE and UNSUBSCRIBE) are parsed
  inside any array of 265 bytes, whatever it holds.\<close>

theorem deserialize_broker_packets_in_bounds:
  assumes "265 \<le> length b"
    "\<And>t. message_type_of (UNPACK_MESSAGE_TYPE (b ! 0)) = Some t \<Longrightarrow> bounded_type t"
  shows "\<exists>r. deserialize_response b len = Some r"
proof -
  from assms(1) have "6 \<le> length b" by simp
  then show ?thesis
  proof (cases rule: deserialize_cases [where len = len])
    case (2 off n t)
    from parse_body_fixed [OF assms(2) [OF 2(6)] 2(2) assms(1)] 2(1) show ?thesis by auto
  qed auto
qed

theorem deserialize_broker_packets_in_bounds_witness:
  "\<exists>r. deserialize_response (0x90 # replicate 264 255) 265 = Some r"
  by (rule deserialize_broker_packets_in_bounds)
    (auto simp: UNPACK_MESSAGE_TYPE_def bounded_type_def)

text \<open>Without the zero tail the parser can be led out of the array: in a 1024 byte array of nonzero
  bytes, an UNSUBSCRIBE header with a large size makes it read past the end, although the length it is
  given is the length of the array.\<close>

theorem deserialize_overread:
  "deserialize_response ([0xA2, 255, 255, 255, 127] @ replicate 1019 255) 1024 = None"
proof -
  define b :: bytes where "b = [0xA2, 255, 255, 255, 127] @ replicate 1019 255"
  have size: "decode_size b 1 1024 = Some (4, Some 268435455)" and b0: "buf_get b 0 = Some 0xA2"
    by (simp_all add: b_def decode_size_def decode_loop.simps buf_get_def and_127 and_0x80)
  have short: "short_from_buffer b p = (if p + 1 < 1024 then Some 255 else None)" if "5 \<le> p" for p
    using that by (auto simp: b_def short_from_buffer_eq nth_append nth_Cons' split: if_splits)
  have "fill_topic_loop b m False 1035 (Suc (Suc (Suc (Suc 0)))) = None" if "1037 \<le> m" for m
    using that by (simp add: fill_topic_loop.simps [of b m False 1035] short)
  then have "fill_topic_loop b m False 7 0 = None" if "1037 \<le> m" for m
    using that by (simp add: fill_topic_loop.simps [of b m False 7] fill_topic_loop.simps [of b m False 264]
        fill_topic_loop.simps [of b m False 521] fill_topic_loop.simps [of b m False 778] short)
  then have "parse_unsubscribe b 5 268435455 = None"
    by (simp add: parse_unsubscribe_def fill_topic_arrays_def short)
  with size b0 show ?thesis
    unfolding b_def [symmetric] by (simp add: deserialize_response_def UNPACK_MESSAGE_TYPE_def)
qed

end
