(* ===== verification/Server.thy ===== *)
theory Server
  imports Parse_Safety
begin

section \<open>The transport interface (\<^verbatim>\<open>server.h\<close>, \<^verbatim>\<open>server.c\<close>, \<^verbatim>\<open>local_server.c\<close>)\<close>

text \<open>
  A \<^verbatim>\<open>server_t\<close> is a table of four function pointers and a private \<^verbatim>\<open>impl\<close> pointer. The functions
  change nothing of the struct but \<^verbatim>\<open>impl\<close>, so a field of the record takes the old \<open>impl\<close>
  (\<^const>\<open>None\<close> is \<^verbatim>\<open>NULL\<close>) and the state \<open>'w\<close> of the outside world, and returns both updated. A
  \<open>receive\<close> function returns the array it filled as well. The outer \<^const>\<open>None\<close> is undefined
  behaviour, such as using an \<open>impl\<close> that is \<^verbatim>\<open>NULL\<close>.

  The locale \<open>transport\<close> is the contract the clients rely on. \<open>local_server\<close> meets it here, the
  network server in \<^verbatim>\<open>Network\<close>.
\<close>

subsection \<open>Types\<close>

datatype smqtt_net_status_t = SMQTT_NET_OK | SMQTT_NET_SOCKET

datatype server_mode_t = LOCAL_SERVER | REMOTE_SERVER

record ('i, 'w) server_t =
  sv_connect :: "'i option \<Rightarrow> bytes \<Rightarrow> u16 \<Rightarrow> u16 \<Rightarrow> 'w \<Rightarrow> (smqtt_net_status_t \<times> 'i option \<times> 'w) option"
  sv_send :: "'i option \<Rightarrow> bytes \<Rightarrow> size_t \<Rightarrow> 'w \<Rightarrow> (smqtt_net_status_t \<times> 'i option \<times> 'w) option"
  sv_receive :: "'i option \<Rightarrow> bytes \<Rightarrow> size_t \<Rightarrow> 'w \<Rightarrow> (int \<times> bytes \<times> 'i option \<times> 'w) option"
  sv_disconnect :: "'i option \<Rightarrow> 'w \<Rightarrow> (smqtt_net_status_t \<times> 'i option \<times> 'w) option"
  impl :: "'i option"

subsection \<open>Dispatch\<close>

definition server_connect ::
  "('i, 'w) server_t \<Rightarrow> bytes \<Rightarrow> u16 \<Rightarrow> u16 \<Rightarrow> 'w \<Rightarrow> (smqtt_net_status_t \<times> ('i, 'w) server_t \<times> 'w) option" where
  "server_connect server hostname port timeout_msec w =
     do {
       (st, i, w) \<leftarrow> sv_connect server (impl server) hostname port timeout_msec w;
       Some (st, server\<lparr>impl := i\<rparr>, w)
     }"

definition server_send ::
  "('i, 'w) server_t \<Rightarrow> bytes \<Rightarrow> size_t \<Rightarrow> 'w \<Rightarrow> (smqtt_net_status_t \<times> ('i, 'w) server_t \<times> 'w) option" where
  "server_send server buffer len w =
     do {
       (st, i, w) \<leftarrow> sv_send server (impl server) buffer len w;
       Some (st, server\<lparr>impl := i\<rparr>, w)
     }"

definition server_receive ::
  "('i, 'w) server_t \<Rightarrow> bytes \<Rightarrow> size_t \<Rightarrow> 'w \<Rightarrow> (int \<times> bytes \<times> ('i, 'w) server_t \<times> 'w) option" where
  "server_receive server buffer len w =
     do {
       (sz, buffer, i, w) \<leftarrow> sv_receive server (impl server) buffer len w;
       Some (sz, buffer, server\<lparr>impl := i\<rparr>, w)
     }"

definition server_disconnect ::
  "('i, 'w) server_t \<Rightarrow> 'w \<Rightarrow> (smqtt_net_status_t \<times> ('i, 'w) server_t \<times> 'w) option" where
  "server_disconnect server w =
     do {
       (st, i, w) \<leftarrow> sv_disconnect server (impl server) w;
       Some (st, server\<lparr>impl := i\<rparr>, w)
     }"

subsection \<open>The local server\<close>

text \<open>
  \<^verbatim>\<open>local_server.c\<close> does nothing: each function returns \<^verbatim>\<open>SMQTT_OK\<close>, which is 0, the value of
  \<^verbatim>\<open>SMQTT_NET_OK\<close>. It reads the \<open>impl\<close> pointer and never follows it. The empty \<^verbatim>\<open>local_impl_t\<close> is
  \<^typ>\<open>unit\<close>.
\<close>

definition local_connect ::
  "unit option \<Rightarrow> bytes \<Rightarrow> u16 \<Rightarrow> u16 \<Rightarrow> 'w \<Rightarrow> (smqtt_net_status_t \<times> unit option \<times> 'w) option" where
  "local_connect i hostname port timeout_msec w = Some (SMQTT_NET_OK, i, w)"

definition local_send ::
  "unit option \<Rightarrow> bytes \<Rightarrow> size_t \<Rightarrow> 'w \<Rightarrow> (smqtt_net_status_t \<times> unit option \<times> 'w) option" where
  "local_send i buffer len w = Some (SMQTT_NET_OK, i, w)"

definition local_receive ::
  "unit option \<Rightarrow> bytes \<Rightarrow> size_t \<Rightarrow> 'w \<Rightarrow> (int \<times> bytes \<times> unit option \<times> 'w) option" where
  "local_receive i buffer len w = Some (0, buffer, i, w)"

definition local_disconnect ::
  "unit option \<Rightarrow> 'w \<Rightarrow> (smqtt_net_status_t \<times> unit option \<times> 'w) option" where
  "local_disconnect i w = Some (SMQTT_NET_OK, i, w)"

definition create_local_server :: "(unit, 'w) server_t" where
  "create_local_server =
     \<lparr>sv_connect = local_connect, sv_send = local_send, sv_receive = local_receive,
      sv_disconnect = local_disconnect, impl = Some ()\<rparr>"

subsection \<open>The contract\<close>

text \<open>
  \<open>live i\<close> says that the private state is that of an open connection. A live transport sends any
  block of an array, never changes more than the first \<^const>\<open>rx_limit\<close> bytes of the array it receives
  into, returns a count no larger, and stays live unless a send fails. Closing it is always defined.
\<close>

locale transport =
  fixes server :: "('i, 'w) server_t" and live :: "'i \<Rightarrow> bool"
  assumes send_live:
    "\<lbrakk>live i; 2 \<le> length b; unat n \<le> length b\<rbrakk> \<Longrightarrow>
      \<exists>st i' w'. sv_send server (Some i) b n w = Some (st, i', w') \<and>
        (st = SMQTT_NET_OK \<longrightarrow> (\<exists>j. i' = Some j \<and> live j))"
  and receive_live:
    "\<lbrakk>live i; rx_limit \<le> length b\<rbrakk> \<Longrightarrow>
      \<exists>sz b' j w'. sv_receive server (Some i) b n w = Some (sz, b', Some j, w') \<and> live j \<and>
        length b' = length b \<and> drop rx_limit b' = drop rx_limit b \<and> 0 \<le> sz \<and> sz \<le> int rx_limit"
  and disconnect_live:
    "live i \<Longrightarrow> \<exists>st i' w'. sv_disconnect server (Some i) w = Some (st, i', w')"
begin

text \<open>A server value of this transport whose private state is live.\<close>

definition up :: "('i, 'w) server_t \<Rightarrow> bool" where
  "up s \<longleftrightarrow> (\<exists>i. live i \<and> s = server\<lparr>impl := Some i\<rparr>)"

lemma up_impl: "live i \<Longrightarrow> up (server\<lparr>impl := Some i\<rparr>)"
  by (auto simp: up_def)

lemma up_send:
  assumes "up s" "2 \<le> length b" "unat n \<le> length b"
  obtains st s' w' where "server_send s b n w = Some (st, s', w')" "st = SMQTT_NET_OK \<longrightarrow> up s'"
proof -
  from assms(1) obtain i where i: "live i" "s = server\<lparr>impl := Some i\<rparr>" by (auto simp: up_def)
  from send_live [OF i(1) assms(2,3)] obtain st i' w' where
    "sv_send server (Some i) b n w = Some (st, i', w')"
    "st = SMQTT_NET_OK \<longrightarrow> (\<exists>j. i' = Some j \<and> live j)" by blast
  then show thesis
    by (intro that [of st "server\<lparr>impl := i'\<rparr>" w']) (auto simp: server_send_def i(2) intro: up_impl)
qed

lemma up_receive:
  assumes "up s" "rx_limit \<le> length b"
  obtains sz b' s' w' where "server_receive s b n w = Some (sz, b', s', w')" "up s'" "length b' = length b"
    "drop rx_limit b' = drop rx_limit b" "0 \<le> sz" "sz \<le> int rx_limit"
proof -
  from assms(1) obtain i where i: "live i" "s = server\<lparr>impl := Some i\<rparr>" by (auto simp: up_def)
  from receive_live [OF i(1) assms(2)] obtain sz b' j w' where
    "sv_receive server (Some i) b n w = Some (sz, b', Some j, w')" "live j" "length b' = length b"
    "drop rx_limit b' = drop rx_limit b" "0 \<le> sz" "sz \<le> int rx_limit" by blast
  then show thesis
    by (intro that [of sz b' "server\<lparr>impl := Some j\<rparr>" w']) (auto simp: server_receive_def i(2) intro: up_impl)
qed

lemma up_disconnect:
  assumes "up s"
  obtains st s' w' where "server_disconnect s w = Some (st, s', w')"
proof -
  from assms obtain i where i: "live i" "s = server\<lparr>impl := Some i\<rparr>" by (auto simp: up_def)
  from disconnect_live [OF i(1)] obtain st i' w' where
    "sv_disconnect server (Some i) w = Some (st, i', w')" by blast
  then show thesis
    by (intro that [of st "server\<lparr>impl := i'\<rparr>" w']) (auto simp: server_disconnect_def i(2))
qed

text \<open>Receiving keeps the zero tail of a static buffer.\<close>

lemma up_receive_quiet:
  assumes "up s" "quiet_tail b"
  obtains sz b' s' w' where "server_receive s b n w = Some (sz, b', s', w')" "up s'" "quiet_tail b'"
    "0 \<le> sz" "sz \<le> int rx_limit"
proof -
  from assms(2) have "rx_limit \<le> length b" by (simp add: quiet_tail_def rx_limit_def BUFFER_SIZE_def)
  from up_receive [OF assms(1) this] obtain sz b' s' w' where
    r: "server_receive s b n w = Some (sz, b', s', w')" "up s'" "length b' = length b"
    "drop rx_limit b' = drop rx_limit b" "0 \<le> sz" "sz \<le> int rx_limit" .
  from r(3,4) assms(2) have "quiet_tail b'" by (rule quiet_tail_drop)
  with r show thesis by (intro that)
qed

end

interpretation local: transport create_local_server "\<lambda>_. True"
  by unfold_locales
    (auto simp: create_local_server_def local_send_def local_receive_def local_disconnect_def)

text \<open>
  A transport on which a send that is defined succeeds and leaves the connection as it is. The session thread does not
  look at the result of most sends, so what it does is described over such a transport.
\<close>

locale steady_transport = transport server live for server :: "('i, 'w) server_t" and live :: "'i \<Rightarrow> bool" +
  assumes send_steady:
    "\<lbrakk>live i; 2 \<le> length b; sv_send server (Some i) b n w = Some (st, i', w')\<rbrakk> \<Longrightarrow> st = SMQTT_NET_OK \<and> i' = Some i"
begin

lemma up_send_steady:
  assumes "up s" "2 \<le> length b" "server_send s b n w = Some (st, s', w')"
  shows "st = SMQTT_NET_OK \<and> s' = s"
proof -
  from assms(1) obtain i where i: "live i" "s = server\<lparr>impl := Some i\<rparr>" by (auto simp: up_def)
  with assms(3) obtain i' where "sv_send server (Some i) b n w = Some (st, i', w')" "s' = server\<lparr>impl := i'\<rparr>"
    by (auto simp: server_send_def Option.bind_eq_Some_conv)
  with send_steady [OF i(1) assms(2)] i(2) show ?thesis by auto
qed

end

interpretation steady_local: steady_transport create_local_server "\<lambda>_. True"
  by unfold_locales (simp add: create_local_server_def local_send_def)

subsection \<open>A scripted transport\<close>

text \<open>A transport that receives the packets of a list, one at a time, then fails, and whose sends succeed; for concrete runs.\<close>

definition scripted :: "(unit, bytes list) server_t" where
  "scripted = \<lparr>sv_connect = (\<lambda>i h p t w. Some (SMQTT_NET_OK, i, w)), sv_send = (\<lambda>i b n w. Some (SMQTT_NET_OK, i, w)),
     sv_receive = (\<lambda>i b n w. case w of [] \<Rightarrow> Some (-1, b, i, []) | p # ps \<Rightarrow> Some (int (length p), p @ drop (length p) b, i, ps)),
     sv_disconnect = (\<lambda>i w. Some (SMQTT_NET_OK, i, w)), impl = Some ()\<rparr>"

lemma scripted_simps [simp]:
  "server_send scripted b n w = Some (SMQTT_NET_OK, scripted, w)"
  "server_receive scripted b n (p # ps) = Some (int (length p), p @ drop (length p) b, scripted, ps)"
  "server_receive scripted b n [] = Some (-1, b, scripted, [])"
  by (simp_all add: scripted_def server_send_def server_receive_def)

end
