(* ===== verification/Network.thy ===== *)
theory Network
  imports Server "HOL-Library.Signed_Division"
begin

section \<open>The network server (\<^verbatim>\<open>network_server.c\<close>)\<close>

text \<open>
  TCP sockets are not part of the sources: \<open>sockets_api\<close> collects the system calls the file makes
  as functions on an operating system state \<open>'w\<close>. What the code relies on is the documented
  behaviour of \<^verbatim>\<open>recv\<close>: an error stores nothing, and otherwise the result counts the bytes stored, at
  most as many as asked for. That law is the locale \<open>posix_sockets\<close>. Under it the network server is a
  \<open>transport\<close> (\<open>sublocale\<close> below), and \<open>peer_sockets\<close>, a scripted peer, is an instance the clients can
  be run on.

  \<^verbatim>\<open>trace\<close> is constantly true, so the tracing code's reads of the buffers are part of the functions.
\<close>

subsection \<open>System calls\<close>

record sockaddr_in =
  sin_family :: nat
  sin_port :: u16
  sin_addr :: u32

record 'w sockets_api =
  sk_htons :: "u16 \<Rightarrow> u16"
  sk_inet_addr :: "bytes \<Rightarrow> u32"
  sk_socket :: "'w \<Rightarrow> int \<times> 'w"
  sk_connect :: "int \<Rightarrow> sockaddr_in \<Rightarrow> 'w \<Rightarrow> int \<times> 'w"
  sk_setrcvtimeo :: "int \<Rightarrow> int \<times> int \<Rightarrow> 'w \<Rightarrow> int \<times> 'w"
  sk_send :: "int \<Rightarrow> bytes \<Rightarrow> 'w \<Rightarrow> int \<times> 'w"
  sk_select :: "int \<Rightarrow> int list \<Rightarrow> int \<times> int \<Rightarrow> 'w \<Rightarrow> int \<times> int list \<times> 'w"
  sk_recv :: "int \<Rightarrow> nat \<Rightarrow> 'w \<Rightarrow> int \<times> bytes \<times> 'w"
  sk_close :: "int \<Rightarrow> 'w \<Rightarrow> int \<times> 'w"

definition AF_INET :: nat where
  "AF_INET = 2"

text \<open>\<^verbatim>\<open>FD_SET\<close> is undefined outside \<open>0 \<dots> FD_SETSIZE - 1\<close>.\<close>

definition FD_SETSIZE :: int where
  "FD_SETSIZE = 1024"

definition fd_set_add :: "int \<Rightarrow> int list option" where
  "fd_set_add fd = (if 0 \<le> fd \<and> fd < FD_SETSIZE then Some [fd] else None)"

subsection \<open>The implementation\<close>

record server_impl_t =
  socket :: int
  socket_address :: sockaddr_in
  read_fds :: "int list"

definition SetSocketTimeout :: "'w sockets_api \<Rightarrow> int \<Rightarrow> int \<Rightarrow> 'w \<Rightarrow> int \<times> 'w" where
  "SetSocketTimeout api connectSocket milliseconds w =
     sk_setrcvtimeo api connectSocket
       (milliseconds sdiv 1000, (milliseconds smod 1000) * 1000) w"

definition network_connect ::
  "'w sockets_api \<Rightarrow> server_impl_t option \<Rightarrow> bytes \<Rightarrow> u16 \<Rightarrow> u16 \<Rightarrow> 'w \<Rightarrow>
    (smqtt_net_status_t \<times> server_impl_t option \<times> 'w) option" where
  "network_connect api i hostname port timeout_msec w =
     do {
       im \<leftarrow> i;
       let (fd, w) = sk_socket api w;
       let im = im\<lparr>socket := fd\<rparr>;
       if fd < 0 then Some (SMQTT_NET_SOCKET, None, w)
       else do {
         let im = im\<lparr>socket_address :=
           \<lparr>sin_family = AF_INET, sin_port = sk_htons api port,
            sin_addr = sk_inet_addr api hostname\<rparr>\<rparr>;
         let (r, w) = sk_connect api (socket im) (socket_address im) w;
         if r < 0 then Some (SMQTT_NET_SOCKET, None, w)
         else do {
           let w = (if timeout_msec \<noteq> 0
             then snd (SetSocketTimeout api (socket im) (uint timeout_msec) w) else w);
           Some (SMQTT_NET_OK, Some im, w)
         }
       }
     }"

text \<open>
  \<^verbatim>\<open>send(...) < length\<close> compares the \<^verbatim>\<open>ssize_t\<close> result with a \<^verbatim>\<open>size_t\<close>: the result is converted
  to \<^verbatim>\<open>size_t\<close> first.
\<close>

definition network_send ::
  "'w sockets_api \<Rightarrow> server_impl_t option \<Rightarrow> bytes \<Rightarrow> size_t \<Rightarrow> 'w \<Rightarrow>
    (smqtt_net_status_t \<times> server_impl_t option \<times> 'w) option" where
  "network_send api i buffer len w =
     do {
       im \<leftarrow> i;
       _ \<leftarrow> buf_get buffer 0;
       _ \<leftarrow> buf_get buffer 1;
       if length buffer < unat len then None
       else do {
         let (r, w) = sk_send api (socket im) (take (unat len) buffer) w;
         if (word_of_int r :: size_t) < len then Some (SMQTT_NET_SOCKET, None, w)
         else Some (SMQTT_NET_OK, Some im, w)
       }
     }"

definition network_receive ::
  "'w sockets_api \<Rightarrow> server_impl_t option \<Rightarrow> bytes \<Rightarrow> size_t \<Rightarrow> 'w \<Rightarrow>
    (int \<times> bytes \<times> server_impl_t option \<times> 'w) option" where
  "network_receive api i buffer len w =
     do {
       im \<leftarrow> i;
       fds \<leftarrow> fd_set_add (socket im);
       let (ret, fds, w) = sk_select api (socket im + 1) fds (0, 1000) w;
       let im = im\<lparr>read_fds := fds\<rparr>;
       if ret < 0 then Some (0, buffer, Some im, w)
       else do {
         let (sz, data, w) = sk_recv api (socket im) 2 w;
         buffer \<leftarrow> buf_put buffer 0 data;
         if sz < 0 then Some (0, buffer, Some im, w)
         else do {
           _ \<leftarrow> buf_get buffer 0;
           b1 \<leftarrow> buf_get buffer 1;
           let remaining = (ucast b1 :: size_t);
           let consumed = (2 :: size_t);
           if remaining > 0 then do {
             let (sz, data, w) = sk_recv api (socket im) (unat remaining) w;
             buffer \<leftarrow> buf_put buffer 2 data;
             if sz < 0 then Some (0, buffer, Some im, w)
             else do {
               let len = sint (word_of_int sz + consumed);
               if len > int (length buffer) then None
               else Some (len, buffer, Some im, w)
             }
           }
           else Some (uint consumed, buffer, Some im, w)
         }
       }
     }"

definition network_disconnect ::
  "'w sockets_api \<Rightarrow> server_impl_t option \<Rightarrow> 'w \<Rightarrow> (smqtt_net_status_t \<times> server_impl_t option \<times> 'w) option" where
  "network_disconnect api i w =
     do {
       im \<leftarrow> i;
       let (_, w) = sk_close api (socket im) w;
       Some (SMQTT_NET_OK, None, w)
     }"

text \<open>\<open>raw\<close> is the indeterminate content of the freshly allocated \<^verbatim>\<open>server_impl_t\<close>.\<close>

definition create_network_server :: "'w sockets_api \<Rightarrow> server_impl_t \<Rightarrow> (server_impl_t, 'w) server_t" where
  "create_network_server api raw =
     \<lparr>sv_connect = network_connect api, sv_send = network_send api,
      sv_receive = network_receive api, sv_disconnect = network_disconnect api,
      impl = Some raw\<rparr>"

subsection \<open>What the operating system promises\<close>

definition recv_ok :: "nat \<Rightarrow> int \<times> bytes \<times> 'w \<Rightarrow> bool" where
  "recv_ok n res \<longleftrightarrow> (case res of (r, data, w) \<Rightarrow>
     (r < 0 \<and> data = []) \<or> (r = int (length data) \<and> length data \<le> n))"

locale posix_sockets =
  fixes api :: "'w sockets_api"
  assumes recv_law: "recv_ok n (sk_recv api fd n w)"
begin

lemma recv_cases:
  obtains (err) r w' where "sk_recv api fd n w = (r, [], w')" "r < 0"
  | (data) data w' where "sk_recv api fd n w = (int (length data), data, w')" "length data \<le> n"
proof -
  obtain r data w' where "sk_recv api fd n w = (r, data, w')" by (cases "sk_recv api fd n w")
  with recv_law [of n fd w] err data show thesis by (auto simp: recv_ok_def)
qed

end

definition fd_live :: "server_impl_t \<Rightarrow> bool" where
  "fd_live im \<longleftrightarrow> 0 \<le> socket im \<and> socket im < FD_SETSIZE"

lemma long_of_count: "n \<le> 255 \<Longrightarrow> sint (of_nat n + 2 :: size_t) = int n + 2"
proof -
  assume n: "n \<le> 255"
  have "of_nat n + 2 = (word_of_int (int n + 2) :: size_t)" by simp
  also have "sint \<dots> = signed_take_bit 63 (int n + 2)"
    by (simp only: sint_sbintrunc' len_num1 signed_of_int) simp
  also have "\<dots> = int n + 2" using n by (intro signed_take_bit_int_eq_self) auto
  finally show ?thesis .
qed

lemma long_back: "n < 2 ^ 64 \<Longrightarrow> unat (word_of_int (int n) :: size_t) = n"
  by (simp add: unat_of_nat_small)

lemma buf_put_prefix:
  assumes "i + length vs \<le> m" "m \<le> length b"
  obtains b' where "buf_put b i vs = Some b'" "length b' = length b" "drop m b' = drop m b"
proof -
  let ?b = "take i b @ vs @ drop (i + length vs) b"
  have "buf_put b i vs = Some ?b" using assms by (simp add: mem_simps)
  moreover have "length ?b = length b" "drop m ?b = drop m b" using assms by (auto simp: min_def simp flip: length_0_conv)
  ultimately show thesis by (rule that)
qed

text \<open>
  After a successful \<^verbatim>\<open>select\<close> the function is its two reads. \<open>read_body\<close> names the second, from the
  array that holds the header.
\<close>

definition read_body ::
  "'w sockets_api \<Rightarrow> server_impl_t \<Rightarrow> bytes \<Rightarrow> 'w \<Rightarrow> (int \<times> bytes \<times> server_impl_t option \<times> 'w) option" where
  "read_body api im b w =
     (if b ! 1 = 0 then Some (2, b, Some im, w)
      else case sk_recv api (socket im) (unat (b ! 1)) w of (sz, data, w') \<Rightarrow>
        do {
          b' \<leftarrow> buf_put b 2 data;
          if sz < 0 then Some (0, b', Some im, w')
          else if sint (word_of_int sz + 2 :: size_t) > int (length b') then None
          else Some (sint (word_of_int sz + 2 :: size_t), b', Some im, w')
        })"

lemma size_t_of_byte: "(0 < (ucast (x :: u8) :: size_t)) = (x \<noteq> 0)" "unat (ucast x :: size_t) = unat x"
  by (simp_all add: unat_ucast_up word_gt_0 flip: unat_eq_zero)

lemma network_receive_read:
  assumes "fd_live im" "sk_select api (socket im + 1) [socket im] (0, 1000) w = (ret, fds, w1)" "0 \<le> ret"
    "sk_recv api (socket im) 2 w1 = (sz, data, w2)" "0 \<le> sz" "buf_put b 0 data = Some b'" "2 \<le> length b'"
  shows "network_receive api (Some im) b n w = read_body api (im\<lparr>read_fds := fds\<rparr>) b' w2"
proof -
  have "buf_get b' 0 = Some (b' ! 0)" "buf_get b' 1 = Some (b' ! 1)"
    using assms(7) by (intro buf_get_in; cases b'; auto)+
  with assms show ?thesis
    by (simp add: network_receive_def read_body_def fd_set_add_def fd_live_def size_t_of_byte Let_def cong: if_cong)
qed

context posix_sockets
begin

lemma read_body_bounded:
  assumes "rx_limit \<le> length b"
  obtains sz b' w' where "read_body api im b w = Some (sz, b', Some im, w')" "length b' = length b"
    "drop rx_limit b' = drop rx_limit b" "0 \<le> sz" "sz \<le> int rx_limit"
proof (cases "b ! 1 = 0")
  case True
  then show thesis by (intro that) (auto simp: read_body_def rx_limit_def)
next
  case False
  have lt: "unat (b ! 1) \<le> 255" using unat_u8_lt [of "b ! 1"] by simp
  show thesis
  proof (cases rule: recv_cases [of "socket im" "unat (b ! 1)" w])
    case (err r w')
    with False show thesis by (intro that) (auto simp: read_body_def rx_limit_def)
  next
    case (data data w')
    with lt have l: "length data \<le> 255" by simp
    then have "2 + length data \<le> rx_limit" by (simp add: rx_limit_def)
    from buf_put_prefix [OF this assms] obtain b' where
      b': "buf_put b 2 data = Some b'" "length b' = length b" "drop rx_limit b' = drop rx_limit b" .
    have "int (length data) + 2 \<le> int (length b')" using l b'(2) assms by (simp add: rx_limit_def)
    with False data b' l have "read_body api im b w = Some (int (length data) + 2, b', Some im, w')"
      by (simp add: read_body_def long_of_count)
    then show thesis by (rule that) (use b'(2,3) l in \<open>auto simp: rx_limit_def\<close>)
  qed
qed

lemma network_receive_bounded:
  assumes live: "fd_live im" and b: "rx_limit \<le> length b"
  shows "\<exists>sz b' j w'. network_receive api (Some im) b n w = Some (sz, b', Some j, w') \<and> fd_live j \<and>
    length b' = length b \<and> drop rx_limit b' = drop rx_limit b \<and> 0 \<le> sz \<and> sz \<le> int rx_limit"
proof -
  obtain ret fds w1 where sel: "sk_select api (socket im + 1) [socket im] (0, 1000) w = (ret, fds, w1)"
    by (cases "sk_select api (socket im + 1) [socket im] (0, 1000) w")
  have fd: "fd_set_add (socket im) = Some [socket im]" using live by (simp add: fd_live_def fd_set_add_def)
  have live': "fd_live (im\<lparr>read_fds := fds\<rparr>)" using live by (simp add: fd_live_def)
  show ?thesis
  proof (cases "ret < 0")
    case True
    with sel fd live' show ?thesis by (simp add: network_receive_def rx_limit_def)
  next
    case False
    show ?thesis
    proof (cases rule: recv_cases [of "socket im" 2 w1])
      case (err r w')
      with False sel fd live' show ?thesis by (simp add: network_receive_def rx_limit_def)
    next
      case (data data w')
      then have "0 + length data \<le> rx_limit" by (simp add: rx_limit_def)
      from buf_put_prefix [OF this b] obtain b' where
        b': "buf_put b 0 data = Some b'" "length b' = length b" "drop rx_limit b' = drop rx_limit b" .
      from b b'(2) have "rx_limit \<le> length b'" "2 \<le> length b'" by (simp_all add: rx_limit_def)
      from read_body_bounded [OF this(1), of "im\<lparr>read_fds := fds\<rparr>" w'] obtain sz b'' w'' where
        "read_body api (im\<lparr>read_fds := fds\<rparr>) b' w' = Some (sz, b'', Some (im\<lparr>read_fds := fds\<rparr>), w'')"
        "length b'' = length b'" "drop rx_limit b'' = drop rx_limit b'" "0 \<le> sz" "sz \<le> int rx_limit" .
      moreover have "network_receive api (Some im) b n w = read_body api (im\<lparr>read_fds := fds\<rparr>) b' w'"
        using network_receive_read [OF live sel _ data(1) _ b'(1) \<open>2 \<le> length b'\<close>] False by simp
      ultimately show ?thesis using live' b'(2,3) by auto
    qed
  qed
qed

end

lemma network_send_result:
  assumes "2 \<le> length b" "unat n \<le> length b"
  shows "network_send api (Some im) b n w =
    (case sk_send api (socket im) (take (unat n) b) w of (r, w') \<Rightarrow>
       if (word_of_int r :: size_t) < n then Some (SMQTT_NET_SOCKET, None, w')
       else Some (SMQTT_NET_OK, Some im, w'))"
proof -
  have "buf_get b 0 = Some (b ! 0)" "buf_get b 1 = Some (b ! 1)"
    using assms(1) by (intro buf_get_in; cases b; auto)+
  with assms(2) show ?thesis by (simp add: network_send_def)
qed

lemma network_receive_framed:
  assumes "fd_live im" "rx_limit \<le> length b"
    "sk_select api (socket im + 1) [socket im] (0, 1000) w = (ret, fds, w1)" "0 \<le> ret"
    "sk_recv api (socket im) 2 w1 = (2, [h, l], w2)"
    "if l = 0 then body = [] \<and> w3 = w2
     else sk_recv api (socket im) (unat l) w2 = (int (unat l), body, w3)"
    "length body = unat l"
  shows "network_receive api (Some im) b n w =
    Some (int (unat l) + 2, [h, l] @ body @ drop (2 + unat l) b, Some (im\<lparr>read_fds := fds\<rparr>), w3)"
proof -
  let ?b = "h # l # drop 2 b"
  have l: "unat l \<le> 255" using unat_u8_lt [of l] by simp
  have put: "buf_put b 0 [h, l] = Some ?b" "2 \<le> length ?b"
    using assms(2) by (simp_all add: buf_put_def rx_limit_def numeral_2_eq_2)
  have "network_receive api (Some im) b n w = read_body api (im\<lparr>read_fds := fds\<rparr>) ?b w2"
    using network_receive_read [OF assms(1,3,4,5) _ put] by simp
  also have "\<dots> = Some (int (unat l) + 2, [h, l] @ body @ drop (2 + unat l) b, Some (im\<lparr>read_fds := fds\<rparr>), w3)"
  proof (cases "l = 0")
    case True
    with assms(6) show ?thesis by (simp add: read_body_def)
  next
    case False
    then have "body \<noteq> []" using assms(7) by (auto simp: unat_eq_0)
    then have "buf_put ?b 2 body = Some ([h, l] @ body @ drop (2 + unat l) b)"
      using assms(2,7) l by (simp add: buf_put_def rx_limit_def numeral_2_eq_2)
    moreover have "sk_recv api (socket im) (length body) w2 = (int (length body), body, w3)"
      using False assms(6) by (simp only: assms(7) if_False)
    moreover have "length body \<le> 255" "length body + 2 \<le> length b" using assms(2,7) l by (simp_all add: rx_limit_def)
    ultimately show ?thesis
      using False by (simp add: read_body_def long_of_count assms(7) [symmetric])
  qed
  finally show ?thesis .
qed

text \<open>At the end of the stream \<^verbatim>\<open>recv\<close> returns 0: the array is unchanged and the result is 2.\<close>

lemma network_receive_eof:
  assumes "fd_live im" "2 \<le> length b"
    "sk_select api (socket im + 1) [socket im] (0, 1000) w = (ret, fds, w1)" "0 \<le> ret"
    "\<And>n w. \<exists>w'. sk_recv api (socket im) n w = (0, [], w')"
  shows "\<exists>w'. network_receive api (Some im) b n w = Some (2, b, Some (im\<lparr>read_fds := fds\<rparr>), w')"
proof -
  from assms(5) [of 2 w1] obtain w2 where r1: "sk_recv api (socket im) 2 w1 = (0, [], w2)" ..
  from assms(5) [of "unat (b ! 1)" w2] obtain w3 where
    r2: "sk_recv api (socket im) (unat (b ! 1)) w2 = (0, [], w3)" ..
  have "network_receive api (Some im) b n w = read_body api (im\<lparr>read_fds := fds\<rparr>) b w2"
    using network_receive_read [OF assms(1,3,4) r1 _ _ assms(2)] by simp
  then show ?thesis
    using r2 long_of_count [of 0] assms(2) by (auto simp: read_body_def)
qed

locale network_provider = posix_sockets api for api :: "'w sockets_api" +
  fixes raw :: server_impl_t

sublocale network_provider \<subseteq> transport "create_network_server api raw" fd_live
proof
  fix i w and b :: bytes and n :: size_t
  assume "fd_live i" "2 \<le> length b" "unat n \<le> length b"
  then show "\<exists>st i' w'. sv_send (create_network_server api raw) (Some i) b n w = Some (st, i', w') \<and>
      (st = SMQTT_NET_OK \<longrightarrow> (\<exists>j. i' = Some j \<and> fd_live j))"
    by (auto simp: create_network_server_def network_send_result split: prod.splits)
next
  fix i w and b :: bytes and n :: size_t
  assume "fd_live i" "rx_limit \<le> length b"
  then show "\<exists>sz b' j w'. sv_receive (create_network_server api raw) (Some i) b n w = Some (sz, b', Some j, w') \<and>
      fd_live j \<and> length b' = length b \<and> drop rx_limit b' = drop rx_limit b \<and> 0 \<le> sz \<and> sz \<le> int rx_limit"
    using network_receive_bounded by (simp add: create_network_server_def)
next
  fix i w
  show "\<exists>st i' w'. sv_disconnect (create_network_server api raw) (Some i) w = Some (st, i', w')"
    by (simp add: create_network_server_def network_disconnect_def split: prod.splits)
qed

text \<open>
  On a blocking stream socket \<^verbatim>\<open>send\<close> hands over all bytes or fails with \<open>-1\<close>. The code takes both for a success,
  so over such sockets the network server is steady.
\<close>

locale steady_network = network_provider +
  assumes send_law: "fst (sk_send api fd bs w) = int (length bs) \<or> fst (sk_send api fd bs w) = -1"

sublocale steady_network \<subseteq> steady_transport "create_network_server api raw" fd_live
proof
  fix i i' w w' st and b :: bytes and n :: size_t
  assume b: "2 \<le> length b"
    and r: "sv_send (create_network_server api raw) (Some i) b n w = Some (st, i', w')"
  have n: "unat n \<le> length b"
    using r by (auto simp: create_network_server_def network_send_def Option.bind_eq_Some_conv split: if_splits)
  obtain k x where k: "sk_send api (socket i) (take (unat n) b) w = (k, x)" by force
  have "length (take (unat n) b) = unat n" using n by simp
  with send_law [of "socket i" "take (unat n) b" w] k have "k = int (unat n) \<or> k = -1" by simp
  then have "\<not> (word_of_int k :: size_t) < n" by auto
  with r k n b show "st = SMQTT_NET_OK \<and> i' = Some i"
    by (simp add: create_network_server_def network_send_result)
qed

subsection \<open>A scripted peer\<close>

text \<open>
  An operating system with one connection. \<open>to_client\<close> holds the segments that arrive: a
  \<^verbatim>\<open>recv\<close> takes bytes of the first one, an empty segment is the end of the stream, and no segment is a
  timeout. \<open>send_results\<close> overrides what \<^verbatim>\<open>send\<close> returns; \<open>sent\<close> collects what the client sent.
\<close>

record peer =
  to_client :: "bytes list"
  send_results :: "int list"
  sent :: "bytes list"

definition peer_recv :: "int \<Rightarrow> nat \<Rightarrow> peer \<Rightarrow> int \<times> bytes \<times> peer" where
  "peer_recv fd n p =
     (case to_client p of
        [] \<Rightarrow> (-1, [], p)
      | seg # segs \<Rightarrow>
          (int (length (take n seg)), take n seg,
           p\<lparr>to_client := (if length seg \<le> n then segs else drop n seg # segs)\<rparr>))"

definition peer_send :: "int \<Rightarrow> bytes \<Rightarrow> peer \<Rightarrow> int \<times> peer" where
  "peer_send fd bs p =
     (case send_results p of
        [] \<Rightarrow> (int (length bs), p\<lparr>sent := sent p @ [bs]\<rparr>)
      | r # rs \<Rightarrow> (r, p\<lparr>send_results := rs, sent := sent p @ [take (nat r) bs]\<rparr>))"

definition peer_sockets :: "peer sockets_api" where
  "peer_sockets =
     \<lparr>sk_htons = (\<lambda>x. push_bit 8 x OR drop_bit 8 x), sk_inet_addr = (\<lambda>_. 0x0100007F),
      sk_socket = (\<lambda>p. (3, p)), sk_connect = (\<lambda>_ _ p. (0, p)), sk_setrcvtimeo = (\<lambda>_ _ p. (0, p)),
      sk_send = peer_send, sk_select = (\<lambda>_ fds _ p. (int (length (to_client p)), fds, p)),
      sk_recv = peer_recv, sk_close = (\<lambda>_ p. (0, p))\<rparr>"

interpretation peer: network_provider peer_sockets raw for raw
  by unfold_locales
    (auto simp: recv_ok_def peer_sockets_def peer_recv_def split: list.splits)

text \<open>The same peer, with sends that take everything.\<close>

definition willing_sockets :: "peer sockets_api" where
  "willing_sockets = peer_sockets\<lparr>sk_send := \<lambda>fd bs p. (int (length bs), p\<lparr>sent := sent p @ [bs]\<rparr>)\<rparr>"

interpretation willing: steady_network willing_sockets raw for raw
  by unfold_locales
    (auto simp: recv_ok_def willing_sockets_def peer_sockets_def peer_recv_def split: list.splits)

end
