(* ===== verification/Client.thy ===== *)
theory Client
  imports Network Roundtrip
begin

section \<open>The client (\<^verbatim>\<open>smqttc.c\<close>)\<close>

text \<open>
  The single threaded client library. The struct \<^verbatim>\<open>smqtt_client\<close> is the record \<open>smqtt_client\<close>;
  the two static buffers and the outside world form \<open>smqtt_env\<close>. Every function takes the client and
  the environment and returns its status with both updated, or \<^const>\<open>None\<close> where the C code is
  undefined. The functions are polymorphic in the transport, as the code is through its function
  pointers.

  Every \<^verbatim>\<open>make_\<dots>_message(send_buffer, BUFFER_SIZE, \<dots>)\<close> is followed by
  \<^verbatim>\<open>status_from_net(server_send(\<dots>))\<close>, which is \<open>transmit\<close>, and every \<^verbatim>\<open>server_receive\<close> by
  \<^verbatim>\<open>deserialize_response(receive_buffer, sz)\<close>, which is \<open>parse_received\<close>.
\<close>

subsection \<open>State\<close>

text \<open>\<open>SMQTT_other\<close> holds the two values the code returns that are not enumerators, 99 and \<open>-1\<close>.\<close>

datatype smqtt_status_t =
    SMQTT_OK | SMQTT_BAD_MESSAGE | SMQTT_NOACK | SMQTT_NOMESSAGE | SMQTT_NOT_CONNECTED
  | SMQTT_UNEXPECTED | SMQTT_INVALID | SMQTT_NOT_AUTHORIZED | SMQTT_SOCKET | SMQTT_PROTOCOL
  | SMQTT_IDENTIFIER | SMQTT_SERVER | SMQTT_NOT_AUTHENTICATED | SMQTT_other int

record ('i, 'w) smqtt_client =
  hostname :: bytes
  clientid :: bytes
  port :: u16
  connected :: bool
  publish_packet_id :: u16
  subscribe_packet_id :: u16
  unsubscribe_packet_id :: u16
  server :: "('i, 'w) server_t"

record 'w smqtt_env =
  send_buffer :: bytes
  receive_buffer :: bytes
  outside :: 'w

definition MAX_XLIENT_ID_CHARS :: size_t where
  "MAX_XLIENT_ID_CHARS = 24"

definition MAX_HOSTNAME_CHARS :: size_t where
  "MAX_HOSTNAME_CHARS = 100"

fun status_from_net :: "smqtt_net_status_t \<Rightarrow> smqtt_status_t" where
  "status_from_net SMQTT_NET_OK = SMQTT_OK"
| "status_from_net _ = SMQTT_SOCKET"

subsection \<open>The calls every function makes\<close>

definition transmit ::
  "(bytes \<Rightarrow> (bytes \<times> nat) option) \<Rightarrow> ('i, 'w) smqtt_client \<Rightarrow> 'w smqtt_env \<Rightarrow>
    (smqtt_status_t \<times> ('i, 'w) smqtt_client \<times> 'w smqtt_env) option" where
  "transmit mk c g =
     do {
       (buffer, actual_len) \<leftarrow> mk (send_buffer g);
       (st, s, w) \<leftarrow> server_send (server c) buffer (of_nat actual_len) (outside g);
       Some (status_from_net st, c\<lparr>server := s\<rparr>, g\<lparr>send_buffer := buffer, outside := w\<rparr>)
     }"

definition receive_packet ::
  "('i, 'w) smqtt_client \<Rightarrow> 'w smqtt_env \<Rightarrow> (int \<times> ('i, 'w) smqtt_client \<times> 'w smqtt_env) option" where
  "receive_packet c g =
     do {
       (sz, buffer, s, w) \<leftarrow>
         server_receive (server c) (receive_buffer g) (of_nat BUFFER_SIZE) (outside g);
       Some (sz, c\<lparr>server := s\<rparr>, g\<lparr>receive_buffer := buffer, outside := w\<rparr>)
     }"

text \<open>\<^verbatim>\<open>sz\<close> is a \<^verbatim>\<open>long\<close>, the parameter a \<^verbatim>\<open>size_t\<close>.\<close>

definition parse_received :: "'w smqtt_env \<Rightarrow> int \<Rightarrow> response_t option option" where
  "parse_received g sz = deserialize_response (receive_buffer g) (unat (word_of_int sz :: size_t))"

definition await ::
  "('i, 'w) smqtt_client \<Rightarrow> 'w smqtt_env \<Rightarrow>
    (response_t option \<times> ('i, 'w) smqtt_client \<times> 'w smqtt_env) option" where
  "await c g =
     do {
       (sz, c, g) \<leftarrow> receive_packet c g;
       resp \<leftarrow> parse_received g sz;
       Some (resp, c, g)
     }"

subsection \<open>Connecting\<close>

text \<open>The arguments of \<^verbatim>\<open>smqtt_connect\<close>, in the order of the code, without the result pointer.\<close>

record connect_params =
  cp_server_ip :: bytes
  cp_port :: u32
  cp_client_id :: bytes
  cp_user :: "bytes option"
  cp_pw :: "bytes option"
  cp_keep_alive_sec :: u16
  cp_clean_session :: bool
  cp_last_will :: bool
  cp_will_qos :: QoS
  cp_will_retain :: bool
  cp_will_topic :: "bytes option"
  cp_will_message :: "bytes option"

text \<open>The CONNECT packet: \<^verbatim>\<open>keep_alive_sec\<close> is narrowed to the \<^verbatim>\<open>uint8_t\<close> parameter.\<close>

definition connect_args_of :: "bytes \<Rightarrow> connect_params \<Rightarrow> connect_args" where
  "connect_args_of cid a =
     \<lparr>a_clientid = cid, a_user = cp_user a, a_pw = cp_pw a,
      a_keep_alive = ucast (cp_keep_alive_sec a), a_clean_session = cp_clean_session a,
      a_last_will = cp_last_will a, a_will_qos = cp_will_qos a, a_will_retain = cp_will_retain a,
      a_will_topic = cp_will_topic a, a_will_message = cp_will_message a\<rparr>"

fun status_of_refusal :: "connack_msg_t \<Rightarrow> smqtt_status_t" where
  "status_of_refusal Connection_Refused_unacceptable_protocol_version = SMQTT_PROTOCOL"
| "status_of_refusal Connection_Refused_identifier_rejected = SMQTT_IDENTIFIER"
| "status_of_refusal Connection_Refused_server_unavailable = SMQTT_SERVER"
| "status_of_refusal Connection_Refused_bad_username_or_password = SMQTT_NOT_AUTHENTICATED"
| "status_of_refusal Connection_Refused_not_authorized = SMQTT_NOT_AUTHORIZED"
| "status_of_refusal _ = SMQTT_NOACK"

text \<open>
  What the call leaves in \<^verbatim>\<open>*client\<close>: nothing (the pointer keeps its old value), \<^verbatim>\<open>NULL\<close>, or the client.
\<close>

datatype ('i, 'w) client_out = Unset | Null | Client "('i, 'w) smqtt_client"

text \<open>What follows the receive: the reply is examined, and the connection closed or marked connected.\<close>

definition connect_reply ::
  "int \<Rightarrow> ('i, 'w) smqtt_client \<Rightarrow> 'w smqtt_env \<Rightarrow>
    (smqtt_status_t \<times> ('i, 'w) client_out \<times> 'w smqtt_env) option" where
  "connect_reply sz c g =
     (if sz > 0 then do {
        resp \<leftarrow> parse_received g sz;
        case resp of
          None \<Rightarrow> Some (SMQTT_other 99, Unset, g)
        | Some r \<Rightarrow>
            (case r of
               Connack_body t \<Rightarrow>
                 if t \<noteq> Connection_Accepted then do {
                   (_, s, w) \<leftarrow> server_disconnect (server c) (outside g);
                   Some (status_of_refusal t, Unset, g\<lparr>outside := w\<rparr>)
                 }
                 else Some (SMQTT_OK, Client (c\<lparr>connected := True\<rparr>), g)
             | _ \<Rightarrow> Some (SMQTT_OK, Client (c\<lparr>connected := True\<rparr>), g))
      }
      else do {
        (_, s, w) \<leftarrow> server_disconnect (server c) (outside g);
        Some (SMQTT_NOMESSAGE, Unset, g\<lparr>outside := w\<rparr>)
      })"

text \<open>
  \<open>network_server\<close> is what \<^verbatim>\<open>create_network_server()\<close> returns, \<open>allocated\<close> whether \<^verbatim>\<open>malloc\<close> returned
  a client, and \<open>raw_id\<close> the indeterminate \<^verbatim>\<open>unsubscribe_packet_id\<close> in it, which the code never sets.
  In the local mode the \<^verbatim>\<open>server\<close> pointer is never set, so the first call through it is undefined.
\<close>

definition smqtt_connect_internal ::
  "('i, 'w) server_t \<Rightarrow> bool \<Rightarrow> u16 \<Rightarrow> server_mode_t \<Rightarrow> connect_params \<Rightarrow> 'w smqtt_env \<Rightarrow>
    (smqtt_status_t \<times> ('i, 'w) client_out \<times> 'w smqtt_env) option" where
  "smqtt_connect_internal network_server allocated raw_id mode a g =
     (if \<not> allocated then Some (SMQTT_OK, Null, g)
      else if strlen (cp_client_id a) + 1 > MAX_XLIENT_ID_CHARS \<or>
              strlen (cp_server_ip a) + 1 > MAX_HOSTNAME_CHARS
      then Some (SMQTT_OK, Unset, g)
      else do {
        s \<leftarrow> (if mode = REMOTE_SERVER then Some network_server else None);
        let c = \<lparr>hostname = cstr (cp_server_ip a), clientid = cstr (cp_client_id a),
                 port = ucast (cp_port a), connected = False, publish_packet_id = 0,
                 subscribe_packet_id = 1, unsubscribe_packet_id = raw_id, server = s\<rparr>;
        (st, s, w) \<leftarrow> server_connect (server c) (hostname c) (port c) 30000 (outside g);
        let c = c\<lparr>server := s\<rparr>;
        let g = g\<lparr>outside := w\<rparr>;
        let stat = status_from_net st;
        if stat \<noteq> SMQTT_OK then Some (stat, Unset, g)
        else do {
          (stat, c, g) \<leftarrow>
            transmit (\<lambda>b. make_connect_message b (of_nat BUFFER_SIZE)
              (connect_args_of (clientid c) a)) c g;
          if stat \<noteq> SMQTT_OK then Some (stat, Unset, g)
          else do {
            (sz, c, g) \<leftarrow> receive_packet c g;
            connect_reply sz c g
          }
        }
      })"

definition smqtt_connect ::
  "'w sockets_api \<Rightarrow> server_impl_t \<Rightarrow> bool \<Rightarrow> u16 \<Rightarrow> connect_params \<Rightarrow> 'w smqtt_env \<Rightarrow>
    (smqtt_status_t \<times> (server_impl_t, 'w) client_out \<times> 'w smqtt_env) option" where
  "smqtt_connect api raw allocated raw_id a g =
     smqtt_connect_internal (create_network_server api raw) allocated raw_id REMOTE_SERVER a g"

subsection \<open>Ping\<close>

definition smqtt_ping ::
  "('i, 'w) smqtt_client \<Rightarrow> 'w smqtt_env \<Rightarrow>
    (smqtt_status_t \<times> ('i, 'w) smqtt_client \<times> 'w smqtt_env) option" where
  "smqtt_ping client g =
     (if \<not> connected client then Some (SMQTT_NOT_CONNECTED, client, g)
      else do {
        (stat, client, g) \<leftarrow> transmit (\<lambda>b. make_pingreq_message b (of_nat BUFFER_SIZE)) client g;
        if stat \<noteq> SMQTT_OK then Some (stat, client, g)
        else do {
          (resp, client, g) \<leftarrow> await client g;
          case resp of
            None \<Rightarrow> Some (SMQTT_BAD_MESSAGE, client, g)
          | Some r \<Rightarrow>
              if response_type r = PINGRESP then Some (SMQTT_OK, client, g)
              else Some (SMQTT_UNEXPECTED, client, g)
        }
      })"

subsection \<open>Subscribing\<close>

definition smqtt_subscribe ::
  "('i, 'w) smqtt_client \<Rightarrow> u16 \<Rightarrow> bytes list \<Rightarrow> QoS list \<Rightarrow> 'w smqtt_env \<Rightarrow>
    (smqtt_status_t \<times> ('i, 'w) smqtt_client \<times> 'w smqtt_env) option" where
  "smqtt_subscribe client topic_count topics qoss g =
     (if \<not> connected client then Some (SMQTT_NOT_CONNECTED, client, g)
      else do {
        let client = client\<lparr>subscribe_packet_id := subscribe_packet_id client + 1\<rparr>;
        (stat, client, g) \<leftarrow>
          transmit (\<lambda>b. make_subscribe_message b (of_nat BUFFER_SIZE)
            (subscribe_packet_id client) topic_count topics qoss) client g;
        if stat \<noteq> SMQTT_OK then Some (SMQTT_other (-1), client, g)
        else do {
          (resp, client, g) \<leftarrow> await client g;
          case resp of
            None \<Rightarrow> Some (SMQTT_BAD_MESSAGE, client, g)
          | Some r \<Rightarrow>
              if (case r of Suback_body d \<Rightarrow> sa_packet_id d = subscribe_packet_id client | _ \<Rightarrow> False)
              then Some (SMQTT_OK, client, g)
              else Some (SMQTT_UNEXPECTED, client, g)
        }
      })"

text \<open>
  The test of the reply reads \<^verbatim>\<open>suback_data.packet_id\<close> of an UNSUBACK: in the union it is the same field
  as \<^verbatim>\<open>unsuback_data.packet_id\<close>, the first member of either struct. The same holds of
  \<^verbatim>\<open>puback_data.packet_id\<close> of a PUBREC or PUBCOMP below.
\<close>

definition smqtt_unsubscribe ::
  "('i, 'w) smqtt_client \<Rightarrow> u16 \<Rightarrow> bytes list \<Rightarrow> 'w smqtt_env \<Rightarrow>
    (smqtt_status_t \<times> ('i, 'w) smqtt_client \<times> 'w smqtt_env) option" where
  "smqtt_unsubscribe client topic_count topics g =
     (if \<not> connected client then Some (SMQTT_NOT_CONNECTED, client, g)
      else do {
        let client = client\<lparr>unsubscribe_packet_id := unsubscribe_packet_id client + 1\<rparr>;
        (stat, client, g) \<leftarrow>
          transmit (\<lambda>b. make_unsubscribe_message b (of_nat BUFFER_SIZE)
            (unsubscribe_packet_id client) topic_count topics) client g;
        if stat \<noteq> SMQTT_OK then Some (stat, client, g)
        else do {
          (resp, client, g) \<leftarrow> await client g;
          case resp of
            None \<Rightarrow> Some (SMQTT_BAD_MESSAGE, client, g)
          | Some r \<Rightarrow>
              if r = Unsuback_body (unsubscribe_packet_id client)
              then Some (SMQTT_OK, client, g)
              else Some (SMQTT_UNEXPECTED, client, g)
        }
      })"

subsection \<open>Receiving a message\<close>

text \<open>What the call stores through its three pointers; \<^const>\<open>None\<close> where it stores nothing.\<close>

record delivery =
  out_packet_id :: "u16 option"
  out_message :: "bytes option"
  out_message_size :: "u16 option"

definition nothing :: delivery where
  "nothing = \<lparr>out_packet_id = None, out_message = None, out_message_size = None\<rparr>"

text \<open>The acknowledgement of a delivered message, the chain of tests on its quality of service.\<close>

definition acknowledge ::
  "publish_data \<Rightarrow> ('i, 'w) smqtt_client \<Rightarrow> 'w smqtt_env \<Rightarrow>
    (smqtt_status_t \<times> ('i, 'w) smqtt_client \<times> 'w smqtt_env) option" where
  "acknowledge d client g =
     (if p_qos d = QoS0 then Some (SMQTT_OK, client, g)
      else if p_qos d = QoS1 then do {
        (stat, client, g) \<leftarrow>
          transmit (\<lambda>b. make_puback_message b (of_nat BUFFER_SIZE) (p_packet_id d)) client g;
        if stat \<noteq> SMQTT_OK then Some (stat, client, g)
        else Some (SMQTT_OK, client, g)
      }
      else if p_qos d = QoS2 then do {
        let packet_id = p_packet_id d;
        (stat, client, g) \<leftarrow>
          transmit (\<lambda>b. make_pubrec_message b (of_nat BUFFER_SIZE) packet_id) client g;
        if stat \<noteq> SMQTT_OK then Some (stat, client, g)
        else do {
          (resp, client, g) \<leftarrow> await client g;
          case resp of
            None \<Rightarrow> Some (SMQTT_BAD_MESSAGE, client, g)
          | Some r \<Rightarrow>
              if r = Pubrel_body packet_id then do {
                (stat, client, g) \<leftarrow>
                  transmit (\<lambda>b. make_pubcomp_message b (of_nat BUFFER_SIZE) packet_id) client g;
                if stat \<noteq> SMQTT_OK then Some (stat, client, g)
                else Some (SMQTT_OK, client, g)
              }
              else Some (SMQTT_UNEXPECTED, client, g)
        }
      }
      else Some (SMQTT_OK, client, g))"

definition smqtt_get_next_message ::
  "('i, 'w) smqtt_client \<Rightarrow> 'w smqtt_env \<Rightarrow>
    (smqtt_status_t \<times> delivery \<times> ('i, 'w) smqtt_client \<times> 'w smqtt_env) option" where
  "smqtt_get_next_message client g =
     do {
       (sz, client, g) \<leftarrow> receive_packet client g;
       if sz < 0 then Some (SMQTT_NOMESSAGE, nothing, client, g)
       else do {
         resp \<leftarrow> parse_received g sz;
         case resp of
           None \<Rightarrow> Some (SMQTT_BAD_MESSAGE, nothing, client, g)
         | Some (Publish_body d) \<Rightarrow> do {
             message \<leftarrow> strncpy_mem (receive_buffer g) (p_message d) (unat (p_message_size d));
             let out = \<lparr>out_packet_id = (if p_packet_id d \<noteq> 0 then Some (p_packet_id d) else None),
                        out_message = Some message, out_message_size = Some (p_message_size d)\<rparr>;
             (stat, client, g) \<leftarrow> acknowledge d client g;
             Some (stat, out, client, g)
           }
         | Some _ \<Rightarrow> Some (SMQTT_UNEXPECTED, nothing, client, g)
       }
     }"

subsection \<open>Publishing\<close>

definition smqtt_publish ::
  "('i, 'w) smqtt_client \<Rightarrow> bytes \<Rightarrow> bytes option \<Rightarrow> QoS \<Rightarrow> bool \<Rightarrow> 'w smqtt_env \<Rightarrow>
    (smqtt_status_t \<times> ('i, 'w) smqtt_client \<times> 'w smqtt_env) option" where
  "smqtt_publish client topic msg qos retain g =
     (if \<not> connected client then Some (SMQTT_NOT_CONNECTED, client, g)
      else if qos > QoS2 then Some (SMQTT_INVALID, client, g)
      else if qos = QoS0 then do {
        (stat, client, g) \<leftarrow>
          transmit (\<lambda>b. make_publish_message b (of_nat BUFFER_SIZE) topic
            (publish_packet_id client) qos retain msg) client g;
        if stat \<noteq> SMQTT_OK then Some (stat, client, g)
        else Some (SMQTT_OK, client, g)
      }
      else do {
        let client = client\<lparr>publish_packet_id := publish_packet_id client + 1\<rparr>;
        (stat, client, g) \<leftarrow>
          transmit (\<lambda>b. make_publish_message b (of_nat BUFFER_SIZE) topic
            (publish_packet_id client) qos retain msg) client g;
        if stat \<noteq> SMQTT_OK then Some (stat, client, g)
        else if qos = QoS1 then do {
          (resp, client, g) \<leftarrow> await client g;
          case resp of
            None \<Rightarrow> Some (SMQTT_BAD_MESSAGE, client, g)
          | Some r \<Rightarrow>
              if r = Puback_body (publish_packet_id client) then Some (SMQTT_OK, client, g)
              else Some (SMQTT_UNEXPECTED, client, g)
        }
        else do {
          (resp, client, g) \<leftarrow> await client g;
          case resp of
            None \<Rightarrow> Some (SMQTT_other (-1), client, g)
          | Some r \<Rightarrow>
              if r = Pubrec_body (publish_packet_id client) then do {
                (stat, client, g) \<leftarrow>
                  transmit (\<lambda>b. make_pubrel_message b (of_nat BUFFER_SIZE)
                    (publish_packet_id client)) client g;
                if stat \<noteq> SMQTT_OK then Some (stat, client, g)
                else do {
                  (resp, client, g) \<leftarrow> await client g;
                  case resp of
                    None \<Rightarrow> Some (SMQTT_BAD_MESSAGE, client, g)
                  | Some r \<Rightarrow>
                      if r = Pubcomp_body (publish_packet_id client) then Some (SMQTT_OK, client, g)
                      else Some (SMQTT_UNEXPECTED, client, g)
                }
              }
              else Some (SMQTT_UNEXPECTED, client, g)
        }
      })"

subsection \<open>Disconnecting\<close>

text \<open>The status of \<^verbatim>\<open>server_disconnect\<close> is dropped, and the client stays marked connected.\<close>

definition smqtt_disconnect ::
  "('i, 'w) smqtt_client \<Rightarrow> 'w smqtt_env \<Rightarrow>
    (smqtt_status_t \<times> ('i, 'w) smqtt_client \<times> 'w smqtt_env) option" where
  "smqtt_disconnect client g =
     do {
       (stat, client, g) \<leftarrow> transmit (\<lambda>b. make_disconnect_message b (of_nat BUFFER_SIZE)) client g;
       (_, s, w) \<leftarrow> server_disconnect (server client) (outside g);
       let client = client\<lparr>server := s\<rparr>;
       let g = g\<lparr>outside := w\<rparr>;
       if stat \<noteq> SMQTT_OK then Some (stat, client, g)
       else Some (SMQTT_OK, client, g)
     }"

definition mqtt_drop ::
  "('i, 'w) smqtt_client \<Rightarrow> 'w smqtt_env \<Rightarrow>
    (smqtt_status_t \<times> ('i, 'w) smqtt_client \<times> 'w smqtt_env) option" where
  "mqtt_drop broker g =
     do {
       (_, s, w) \<leftarrow> server_disconnect (server broker) (outside g);
       Some (SMQTT_OK, broker\<lparr>server := s\<rparr>, g\<lparr>outside := w\<rparr>)
     }"

end
