(* ===== verification/Client_Safety.thy ===== *)
theory Client_Safety
  imports Client
begin

section \<open>The client never leaves its buffers\<close>

text \<open>
  Proved once over the contract \<open>transport\<close>. A client is \<open>ready\<close> when its transport is up, its send
  buffer has its 1024 bytes and its receive buffer a zero tail. Then every call whose packet fits the
  send buffer is defined, for every behaviour of the peer, and leaves a ready client unless a send
  failed. The interpretation for the network server gives the properties of the client as it is built.
\<close>

subsection \<open>Buffers\<close>

definition buffers_ok :: "'w smqtt_env \<Rightarrow> bool" where
  "buffers_ok g \<longleftrightarrow> length (send_buffer g) = BUFFER_SIZE \<and> quiet_tail (receive_buffer g)"

definition initial_env :: "'w \<Rightarrow> 'w smqtt_env" where
  "initial_env w = \<lparr>send_buffer = replicate BUFFER_SIZE 0, receive_buffer = replicate BUFFER_SIZE 0, outside = w\<rparr>"

lemma buffers_initial: "buffers_ok (initial_env w)"
  by (simp add: buffers_ok_def initial_env_def quiet_tail_def BUFFER_SIZE_def)

text \<open>A builder that stores the packet \<open>w\<close>, which fits.\<close>

definition builds :: "(bytes \<Rightarrow> (bytes \<times> nat) option) \<Rightarrow> bytes \<Rightarrow> bool" where
  "builds mk w \<longleftrightarrow> (\<forall>b. mk b = stored b w) \<and> length w \<le> BUFFER_SIZE"

lemma builds_fixed:
  "builds (\<lambda>b. make_puback_message b len i) (ack_wire (PACK_MESSAGE_TYPE PUBACK) i)"
  "builds (\<lambda>b. make_pubrec_message b len i) (ack_wire (PACK_MESSAGE_TYPE PUBREC) i)"
  "builds (\<lambda>b. make_pubrel_message b len i) (ack_wire (PACK_MESSAGE_TYPE PUBREL OR 2) i)"
  "builds (\<lambda>b. make_pubcomp_message b len i) (ack_wire (PACK_MESSAGE_TYPE PUBCOMP) i)"
  "builds (\<lambda>b. make_pingreq_message b len) [PACK_MESSAGE_TYPE PINGREQ, 0]"
  "builds (\<lambda>b. make_disconnect_message b len) [PACK_MESSAGE_TYPE DISCONNECT, 0]"
  by (simp_all add: builds_def BUFFER_SIZE_def puback.make_stores pubrec.make_stores pubrel.make_stores
      pubcomp.make_stores pingreq.make_stores disconnect.make_stores)

lemma builds_publish:
  "length (publish_wire (topic, i, qos, retain, msg)) \<le> BUFFER_SIZE \<Longrightarrow>
    builds (\<lambda>b. make_publish_message b len topic i qos retain msg) (publish_wire (topic, i, qos, retain, msg))"
  using publish.make_stores [where m = "(topic, i, qos, retain, msg)"]
  by (simp add: builds_def del: publish_wire.simps)

lemma builds_subscribe:
  "\<lbrakk>subscribe_args_ok (i, n, topics, qoss); length (subscribe_wire (i, n, topics, qoss)) \<le> BUFFER_SIZE\<rbrakk> \<Longrightarrow>
    builds (\<lambda>b. make_subscribe_message b len i n topics qoss) (subscribe_wire (i, n, topics, qoss))"
  using subscribe.make_stores [where m = "(i, n, topics, qoss)"]
  by (simp add: builds_def del: subscribe_wire.simps)

lemma builds_unsubscribe:
  "\<lbrakk>unsubscribe_args_ok (i, n, topics); length (unsubscribe_wire (i, n, topics)) \<le> BUFFER_SIZE\<rbrakk> \<Longrightarrow>
    builds (\<lambda>b. make_unsubscribe_message b len i n topics) (unsubscribe_wire (i, n, topics))"
  using unsubscribe.make_stores [where m = "(i, n, topics)"]
  by (simp add: builds_def del: unsubscribe_wire.simps)

lemma builds_connect:
  "\<lbrakk>connect_args_ok a; length (connect_wire a) \<le> BUFFER_SIZE\<rbrakk> \<Longrightarrow>
    builds (\<lambda>b. make_connect_message b len a) (connect_wire a)"
  by (simp add: builds_def connect.make_stores)

definition sendable :: "(bytes \<Rightarrow> (bytes \<times> nat) option) \<Rightarrow> bool" where
  "sendable mk \<longleftrightarrow> (\<exists>w. builds mk w)"

lemma sendableI: "builds mk w \<Longrightarrow> sendable mk"
  by (auto simp: sendable_def)

lemmas sendable_fixed = builds_fixed [THEN sendableI]

lemma builds_result:
  assumes "builds mk w" "length b = BUFFER_SIZE"
  obtains b' where "mk b = Some (b', length w)" "length b' = BUFFER_SIZE" "take (length w) b' = w"
    "unat (of_nat (length w) :: size_t) = length w" "length w \<le> BUFFER_SIZE"
proof -
  from assms have w: "mk b = Some (w @ drop (length w) b, length w)" "length w \<le> BUFFER_SIZE"
    by (simp_all add: builds_def stored_def)
  show thesis
    by (rule that [OF w(1)]) (use assms w(2) in \<open>auto simp: BUFFER_SIZE_def unat_of_nat_small\<close>)
qed

subsection \<open>Over the contract\<close>

context transport
begin

definition ready :: "('i, 'w) smqtt_client \<Rightarrow> 'w smqtt_env \<Rightarrow> bool" where
  "ready c g \<longleftrightarrow> up (smqtt_client.server c) \<and> buffers_ok g"

text \<open>The result of a call: defined, the buffers kept, and the client ready unless a send failed.\<close>

definition safe :: "(smqtt_status_t \<times> ('i, 'w) smqtt_client \<times> 'w smqtt_env) option \<Rightarrow> bool" where
  "safe res \<longleftrightarrow> (\<exists>st c g. res = Some (st, c, g) \<and> buffers_ok g \<and>
     (st \<notin> {SMQTT_SOCKET, SMQTT_other (-1)} \<longrightarrow> ready c g))"

lemma safeI: "ready c g \<Longrightarrow> safe (Some (st, c, g))"
  by (auto simp: safe_def ready_def)

lemma transmit_ready:
  assumes "ready c g" "builds mk w"
  obtains st s g' where "transmit mk c g = Some (st, c\<lparr>smqtt_client.server := s\<rparr>, g')" "buffers_ok g'"
    "st = SMQTT_OK \<or> st = SMQTT_SOCKET" "st = SMQTT_OK \<longrightarrow> ready (c\<lparr>smqtt_client.server := s\<rparr>) g'"
proof -
  from assms(1) have up: "up (smqtt_client.server c)" and b: "length (send_buffer g) = BUFFER_SIZE"
    "quiet_tail (receive_buffer g)" by (simp_all add: ready_def buffers_ok_def)
  from builds_result [OF assms(2) b(1)] obtain b' where b': "mk (send_buffer g) = Some (b', length w)"
    "length b' = BUFFER_SIZE" "unat (of_nat (length w) :: size_t) = length w" "length w \<le> BUFFER_SIZE" .
  from b' have "2 \<le> length b'" "unat (of_nat (length w) :: size_t) \<le> length b'"
    by (simp_all add: BUFFER_SIZE_def)
  from up_send [OF up this, of "outside g"] obtain st s' w' where
    s: "server_send (smqtt_client.server c) b' (of_nat (length w)) (outside g) = Some (st, s', w')"
    "st = SMQTT_NET_OK \<longrightarrow> up s'" .
  let ?g = "g\<lparr>send_buffer := b', outside := w'\<rparr>"
  have "transmit mk c g = Some (status_from_net st, c\<lparr>smqtt_client.server := s'\<rparr>, ?g)"
    using b'(1) s(1) by (simp add: transmit_def)
  moreover have "buffers_ok ?g" using b b'(2) by (simp add: buffers_ok_def)
  ultimately show thesis
    by (rule that) (cases st; use s(2) \<open>buffers_ok ?g\<close> in \<open>simp_all add: ready_def\<close>)+
qed

lemma receive_ready:
  assumes "ready c g"
  obtains sz s g' where "receive_packet c g = Some (sz, c\<lparr>smqtt_client.server := s\<rparr>, g')"
    "ready (c\<lparr>smqtt_client.server := s\<rparr>) g'" "0 \<le> sz" "sz \<le> int rx_limit"
proof -
  from assms have "up (smqtt_client.server c)" "quiet_tail (receive_buffer g)"
    and b: "length (send_buffer g) = BUFFER_SIZE" by (simp_all add: ready_def buffers_ok_def)
  from up_receive_quiet [OF this(1,2), of "of_nat BUFFER_SIZE" "outside g"] obtain sz b' s' w' where
    r: "server_receive (smqtt_client.server c) (receive_buffer g) (of_nat BUFFER_SIZE) (outside g) =
        Some (sz, b', s', w')" "up s'" "quiet_tail b'" "0 \<le> sz" "sz \<le> int rx_limit" .
  show thesis
    by (rule that [of sz s' "g\<lparr>receive_buffer := b', outside := w'\<rparr>"])
      (use r b in \<open>simp_all add: receive_packet_def ready_def buffers_ok_def\<close>)
qed

lemma parse_ready: "ready c g \<Longrightarrow> \<exists>r. parse_received g sz = Some r"
  unfolding parse_received_def ready_def buffers_ok_def by (intro deserialize_quiet) simp

lemma await_ready:
  assumes "ready c g"
  obtains r s g' where "await c g = Some (r, c\<lparr>smqtt_client.server := s\<rparr>, g')"
    "ready (c\<lparr>smqtt_client.server := s\<rparr>) g'"
proof -
  from receive_ready [OF assms] obtain sz s g' where
    r: "receive_packet c g = Some (sz, c\<lparr>smqtt_client.server := s\<rparr>, g')"
    "ready (c\<lparr>smqtt_client.server := s\<rparr>) g'" .
  from parse_ready [OF r(2), of sz] obtain p where "parse_received g' sz = Some p" ..
  with r show thesis by (intro that) (simp add: await_def)
qed

text \<open>The two calls composed with what follows them.\<close>

lemma safe_transmit:
  assumes "ready c g" "sendable mk"
    and "\<And>s g'. ready (c\<lparr>smqtt_client.server := s\<rparr>) g' \<Longrightarrow> safe (k (c\<lparr>smqtt_client.server := s\<rparr>) g')"
    and "f SMQTT_SOCKET \<in> {SMQTT_SOCKET, SMQTT_other (-1)}"
  shows "safe (Option.bind (transmit mk c g)
    (\<lambda>(st, c, g). if st \<noteq> SMQTT_OK then Some (f st, c, g) else k c g))"
proof -
  from assms(2) obtain w where "builds mk w" by (auto simp: sendable_def)
  from transmit_ready [OF assms(1) this] obtain st s g' where
    t: "transmit mk c g = Some (st, c\<lparr>smqtt_client.server := s\<rparr>, g')" "buffers_ok g'"
    "st = SMQTT_OK \<or> st = SMQTT_SOCKET" "st = SMQTT_OK \<longrightarrow> ready (c\<lparr>smqtt_client.server := s\<rparr>) g'" .
  from t(3) show ?thesis
  proof
    assume "st = SMQTT_OK"
    with t assms(3) show ?thesis by simp
  next
    assume "st = SMQTT_SOCKET"
    with t assms(4) show ?thesis by (auto simp: safe_def)
  qed
qed

lemma safe_await:
  assumes "ready c g"
    and "\<And>r s g'. ready (c\<lparr>smqtt_client.server := s\<rparr>) g' \<Longrightarrow> safe (k r (c\<lparr>smqtt_client.server := s\<rparr>) g')"
  shows "safe (Option.bind (await c g) (\<lambda>(r, c, g). k r c g))"
proof -
  from await_ready [OF assms(1)] obtain r s g' where
    "await c g = Some (r, c\<lparr>smqtt_client.server := s\<rparr>, g')" "ready (c\<lparr>smqtt_client.server := s\<rparr>) g'" .
  with assms(2) show ?thesis by simp
qed

lemma ready_update [simp]:
  "ready (c\<lparr>publish_packet_id := i\<rparr>) g = ready c g"
  "ready (c\<lparr>subscribe_packet_id := i\<rparr>) g = ready c g"
  "ready (c\<lparr>unsubscribe_packet_id := i\<rparr>) g = ready c g"
  by (simp_all add: ready_def)

lemma ping_safe: "ready c g \<Longrightarrow> safe (smqtt_ping c g)"
  unfolding smqtt_ping_def
  by (auto intro!: safeI safe_transmit safe_await sendable_fixed split: option.splits)

lemma subscribe_safe:
  assumes "ready c g" "subscribe_args_ok (0, n, topics, qoss)"
    "length (subscribe_wire (0, n, topics, qoss)) \<le> BUFFER_SIZE"
  shows "safe (smqtt_subscribe c n topics qoss g)"
proof -
  have "sendable (\<lambda>b. make_subscribe_message b len i n topics qoss)" for len i
    using assms(2,3) by (intro builds_subscribe [THEN sendableI]) (simp_all add: short_wire_def Let_def)
  with assms(1) show ?thesis
    unfolding smqtt_subscribe_def
    by (auto intro!: safeI safe_transmit safe_await simp: Let_def split: option.splits)
qed

lemma unsubscribe_safe:
  assumes "ready c g" "unsubscribe_args_ok (0, n, topics)"
    "length (unsubscribe_wire (0, n, topics)) \<le> BUFFER_SIZE"
  shows "safe (smqtt_unsubscribe c n topics g)"
proof -
  have "sendable (\<lambda>b. make_unsubscribe_message b len i n topics)" for len i
    using assms(2,3) by (intro builds_unsubscribe [THEN sendableI]) (simp_all add: short_wire_def Let_def)
  with assms(1) show ?thesis
    unfolding smqtt_unsubscribe_def
    by (auto intro!: safeI safe_transmit safe_await simp: Let_def split: option.splits)
qed

lemma publish_safe:
  assumes "ready c g" "length (publish_wire (topic, 0, qos, retain, msg)) \<le> BUFFER_SIZE"
  shows "safe (smqtt_publish c topic msg qos retain g)"
proof -
  have "sendable (\<lambda>b. make_publish_message b len topic i qos retain msg)" for len i
    using assms(2) by (intro builds_publish [THEN sendableI]) (cases "QoS1 \<le> qos"; simp add: short_wire_def)
  with assms(1) show ?thesis
    unfolding smqtt_publish_def
    by (auto intro!: safeI safe_transmit safe_await sendable_fixed simp: Let_def split: option.splits)
qed

text \<open>Disconnecting is defined as long as its DISCONNECT packet was sent.\<close>

lemma disconnect_sent:
  assumes "ready c g"
    and "transmit (\<lambda>b. make_disconnect_message b (of_nat BUFFER_SIZE)) c g = Some (SMQTT_OK, c', g')"
  shows "\<exists>s w. smqtt_disconnect c g = Some (SMQTT_OK, c'\<lparr>smqtt_client.server := s\<rparr>, g'\<lparr>outside := w\<rparr>)"
proof -
  from transmit_ready [OF assms(1) builds_fixed(6), of "of_nat BUFFER_SIZE"] assms(2)
  have "ready c' g'" by auto
  then have "up (smqtt_client.server c')" by (simp add: ready_def)
  from up_disconnect [OF this, of "outside g'"] obtain st s w where
    "server_disconnect (smqtt_client.server c') (outside g') = Some (st, s, w)" .
  with assms(2) show ?thesis by (auto simp: smqtt_disconnect_def)
qed

lemma drop_ready:
  assumes "ready c g"
  shows "\<exists>s w. mqtt_drop c g = Some (SMQTT_OK, c\<lparr>smqtt_client.server := s\<rparr>, g\<lparr>outside := w\<rparr>)"
proof -
  from assms have "up (smqtt_client.server c)" by (simp add: ready_def)
  from up_disconnect [OF this, of "outside g"] obtain st s w where
    "server_disconnect (smqtt_client.server c) (outside g) = Some (st, s, w)" .
  then show ?thesis by (auto simp: mqtt_drop_def)
qed

subsection \<open>Receiving and connecting\<close>

text \<open>The same for a call that also delivers a message.\<close>

definition safe_delivery ::
  "(smqtt_status_t \<times> delivery \<times> ('i, 'w) smqtt_client \<times> 'w smqtt_env) option \<Rightarrow> bool" where
  "safe_delivery res \<longleftrightarrow> safe (map_option (\<lambda>(st, out, c, g). (st, c, g)) res)"

lemma acknowledge_safe: "ready c g \<Longrightarrow> safe (acknowledge d c g)"
  unfolding acknowledge_def
  by (auto intro!: safeI safe_transmit safe_await sendable_fixed simp: Let_def split: option.splits)

lemma next_message_safe:
  assumes "ready c g"
  shows "safe_delivery (smqtt_get_next_message c g)"
proof -
  from receive_ready [OF assms] obtain sz s g' where
    r: "receive_packet c g = Some (sz, c\<lparr>smqtt_client.server := s\<rparr>, g')"
    "ready (c\<lparr>smqtt_client.server := s\<rparr>) g'" "0 \<le> sz" .
  from parse_ready [OF r(2), of sz] obtain resp where p: "parse_received g' sz = Some resp" ..
  from r(2) have q: "quiet_tail (receive_buffer g')" by (simp add: ready_def buffers_ok_def)
  note plain = safeI [OF r(2)]
  show ?thesis
  proof (cases "\<exists>d. resp = Some (Publish_body d)")
    case True
    then obtain d where d: "resp = Some (Publish_body d)" ..
    with p q have "p_message d \<le> 264"
      by (intro deserialize_publish_layout(1)) (auto simp: parse_received_def quiet_tail_def BUFFER_SIZE_def)
    from copy_quiet [OF q this] obtain cs where
      "strncpy_mem (receive_buffer g') (p_message d) (unat (p_message_size d)) = Some cs" by blast
    moreover from acknowledge_safe [OF r(2), of d] obtain st c' g'' where
      "acknowledge d (c\<lparr>smqtt_client.server := s\<rparr>) g' = Some (st, c', g'')" "safe (Some (st, c', g''))"
      by (auto simp: safe_def)
    ultimately show ?thesis using r(1,3) p d by (simp add: smqtt_get_next_message_def safe_delivery_def)
  next
    case False
    then show ?thesis
      using r(1,3) p plain
      by (auto simp: smqtt_get_next_message_def safe_delivery_def split: option.splits response_t.splits)
  qed
qed

text \<open>
  Connecting is defined when the transport's own connect is, and it yields a connected, ready client or
  none at all.
\<close>

definition opens :: "'w \<Rightarrow> bool" where
  "opens w \<longleftrightarrow> (\<forall>h p t. \<exists>st i w'. sv_connect server (impl server) h p t w = Some (st, i, w') \<and>
     (st = SMQTT_NET_OK \<longrightarrow> (\<exists>j. i = Some j \<and> live j)))"

definition safe_connect ::
  "(smqtt_status_t \<times> ('i, 'w) client_out \<times> 'w smqtt_env) option \<Rightarrow> bool" where
  "safe_connect res \<longleftrightarrow> (\<exists>st out g. res = Some (st, out, g) \<and> buffers_ok g \<and>
     (\<forall>c. out = Client c \<longrightarrow> st = SMQTT_OK \<and> connected c \<and> ready c g))"

lemma safe_connectI:
  "buffers_ok g \<Longrightarrow> safe_connect (Some (st, Unset, g))"
  "buffers_ok g \<Longrightarrow> safe_connect (Some (st, Null, g))"
  "ready c g \<Longrightarrow> safe_connect (Some (SMQTT_OK, Client (c\<lparr>connected := True\<rparr>), g))"
  by (auto simp: safe_connect_def ready_def)

lemma opens_connect:
  assumes "opens w"
  obtains st s w' where "server_connect server h p t w = Some (st, s, w')" "st = SMQTT_NET_OK \<longrightarrow> up s"
proof -
  from assms obtain st i w' where c: "sv_connect server (impl server) h p t w = Some (st, i, w')"
    "st = SMQTT_NET_OK \<longrightarrow> (\<exists>j. i = Some j \<and> live j)" unfolding opens_def by blast
  show thesis
    by (rule that [of st "server\<lparr>impl := i\<rparr>" w'])
      (use c in \<open>auto simp: server_connect_def intro: up_impl\<close>)
qed

lemma safe_close:
  assumes "ready c g"
  shows "safe_connect (Option.bind (server_disconnect (smqtt_client.server c) (outside g))
    (\<lambda>(st, s, w). Some (f, Unset, g\<lparr>outside := w\<rparr>)))"
proof -
  from assms have "up (smqtt_client.server c)" "buffers_ok g" by (simp_all add: ready_def)
  from up_disconnect [OF this(1), of "outside g"] obtain st s w where
    "server_disconnect (smqtt_client.server c) (outside g) = Some (st, s, w)" .
  with \<open>buffers_ok g\<close> show ?thesis by (auto simp: buffers_ok_def intro: safe_connectI)
qed

lemma connect_reply_safe:
  assumes "ready c g"
  shows "safe_connect (connect_reply sz c g)"
proof -
  from parse_ready [OF assms, of sz] obtain resp where p: "parse_received g sz = Some resp" ..
  have "buffers_ok g" using assms by (simp add: ready_def)
  then show ?thesis
    unfolding connect_reply_def
    by (auto simp: p intro: safe_connectI safe_close [OF assms] assms split: option.splits response_t.splits)
qed

lemma connect_sent_safe:
  assumes "ready c g" "sendable mk"
  shows "safe_connect (Option.bind (transmit mk c g) (\<lambda>(st, c, g).
    if st \<noteq> SMQTT_OK then Some (st, Unset, g)
    else Option.bind (receive_packet c g) (\<lambda>(sz, c, g). connect_reply sz c g)))"
proof -
  from assms(2) obtain w where "builds mk w" by (auto simp: sendable_def)
  from transmit_ready [OF assms(1) this] obtain st s g' where
    t: "transmit mk c g = Some (st, c\<lparr>smqtt_client.server := s\<rparr>, g')" "buffers_ok g'"
    "st = SMQTT_OK \<longrightarrow> ready (c\<lparr>smqtt_client.server := s\<rparr>) g'" .
  show ?thesis
  proof (cases "st = SMQTT_OK")
    case True
    with t(3) have "ready (c\<lparr>smqtt_client.server := s\<rparr>) g'" by simp
    from receive_ready [OF this] obtain sz s' g'' where
      "receive_packet (c\<lparr>smqtt_client.server := s\<rparr>) g' =
        Some (sz, c\<lparr>smqtt_client.server := s, smqtt_client.server := s'\<rparr>, g'')"
      "ready (c\<lparr>smqtt_client.server := s, smqtt_client.server := s'\<rparr>) g''" .
    with t(1) True connect_reply_safe show ?thesis by simp
  next
    case False
    with t(1,2) show ?thesis by (simp add: safe_connectI)
  qed
qed

lemma connect_internal_safe:
  assumes "buffers_ok g" "opens (outside g)"
    and "sendable (\<lambda>b. make_connect_message b (of_nat BUFFER_SIZE) (connect_args_of (cstr (cp_client_id a)) a))"
  shows "safe_connect (smqtt_connect_internal server allocated raw_id REMOTE_SERVER a g)"
proof (cases "allocated \<and> \<not> (strlen (cp_client_id a) + 1 > MAX_XLIENT_ID_CHARS \<or>
    strlen (cp_server_ip a) + 1 > MAX_HOSTNAME_CHARS)")
  case True
  from opens_connect [OF assms(2)] obtain st s w where
    c: "server_connect server (cstr (cp_server_ip a)) (ucast (cp_port a)) 30000 (outside g) = Some (st, s, w)"
    "st = SMQTT_NET_OK \<longrightarrow> up s" .
  have b: "buffers_ok (g\<lparr>outside := w\<rparr>)" using assms(1) by (simp add: buffers_ok_def)
  show ?thesis
  proof (cases st)
    case SMQTT_NET_OK
    with True c b show ?thesis
      unfolding smqtt_connect_internal_def
      by (simp add: Let_def) (rule connect_sent_safe; use assms(3) in \<open>simp add: ready_def\<close>)
  next
    case SMQTT_NET_SOCKET
    with True c b show ?thesis by (simp add: smqtt_connect_internal_def Let_def safe_connectI)
  qed
next
  case False
  with assms(1) show ?thesis by (auto simp: smqtt_connect_internal_def intro: safe_connectI)
qed

end

end
