(* ===== verification/Client_Protocol.thy ===== *)
theory Client_Protocol
  imports Client_Safety
begin

section \<open>The client's side of the protocol\<close>

text \<open>
  What the client does on the wire, as a state machine over events. \<open>Tx\<close> is a packet handed to the
  transport with the status of the send, \<open>Rx\<close> a receive with the count returned and the content of the
  receive buffer after it. \<open>traced\<close> wraps any transport so that its state records the events; the call
  itself is not changed (the lemmas show the traced and the plain run side by side). The machine
  \<open>pub_step\<close> is the MQTT handshake of a publishing client, and \<open>publish_follows\<close> shows that every run of
  \<^verbatim>\<open>smqtt_publish\<close> is a run of it that ends in the state of its status.
\<close>

subsection \<open>Recording events\<close>

datatype event = Tx bytes smqtt_net_status_t | Rx int bytes

definition traced :: "('i, 'w) server_t \<Rightarrow> ('i, 'w \<times> event list) server_t" where
  "traced s =
     \<lparr>sv_connect = (\<lambda>i h p t (w, l). map_option (\<lambda>(st, i, w). (st, i, w, l)) (sv_connect s i h p t w)),
      sv_send = (\<lambda>i b n (w, l).
        map_option (\<lambda>(st, i, w). (st, i, w, l @ [Tx (take (unat n) b) st])) (sv_send s i b n w)),
      sv_receive = (\<lambda>i b n (w, l).
        map_option (\<lambda>(sz, b, i, w). (sz, b, i, w, l @ [Rx sz b])) (sv_receive s i b n w)),
      sv_disconnect = (\<lambda>i (w, l). map_option (\<lambda>(st, i, w). (st, i, w, l)) (sv_disconnect s i w)),
      impl = impl s\<rparr>"

definition traced_client :: "('i, 'w) smqtt_client \<Rightarrow> ('i, 'w \<times> event list) smqtt_client" where
  "traced_client c =
     \<lparr>hostname = hostname c, clientid = clientid c, port = port c, connected = connected c,
      publish_packet_id = publish_packet_id c, subscribe_packet_id = subscribe_packet_id c,
      unsubscribe_packet_id = unsubscribe_packet_id c, server = traced (server c)\<rparr>"

definition traced_env :: "event list \<Rightarrow> 'w smqtt_env \<Rightarrow> ('w \<times> event list) smqtt_env" where
  "traced_env l g = \<lparr>send_buffer = send_buffer g, receive_buffer = receive_buffer g, outside = (outside g, l)\<rparr>"

lemma traced_client_simps [simp]:
  "connected (traced_client c) = connected c"
  "publish_packet_id (traced_client c) = publish_packet_id c"
  "subscribe_packet_id (traced_client c) = subscribe_packet_id c"
  "unsubscribe_packet_id (traced_client c) = unsubscribe_packet_id c"
  "smqtt_client.server (traced_client c) = traced (smqtt_client.server c)"
  "traced_client c\<lparr>publish_packet_id := i\<rparr> = traced_client (c\<lparr>publish_packet_id := i\<rparr>)"
  "traced_client c\<lparr>subscribe_packet_id := i\<rparr> = traced_client (c\<lparr>subscribe_packet_id := i\<rparr>)"
  "traced_client c\<lparr>unsubscribe_packet_id := i\<rparr> = traced_client (c\<lparr>unsubscribe_packet_id := i\<rparr>)"
  "traced_client c\<lparr>smqtt_client.server := traced s\<rparr> = traced_client (c\<lparr>smqtt_client.server := s\<rparr>)"
  by (simp_all add: traced_client_def)

lemma traced_env_simps [simp]:
  "send_buffer (traced_env l g) = send_buffer g" "receive_buffer (traced_env l g) = receive_buffer g"
  "outside (traced_env l g) = (outside g, l)"
  by (simp_all add: traced_env_def)

lemma traced_send:
  "server_send (traced s) b n (w, l) =
    map_option (\<lambda>(st, s, w). (st, traced s, w, l @ [Tx (take (unat n) b) st])) (server_send s b n w)"
  by (cases "sv_send s (impl s) b n w") (auto simp: server_send_def traced_def)

lemma traced_receive:
  "server_receive (traced s) b n (w, l) =
    map_option (\<lambda>(sz, b, s, w). (sz, b, traced s, w, l @ [Rx sz b])) (server_receive s b n w)"
  by (cases "sv_receive s (impl s) b n w") (auto simp: server_receive_def traced_def)

text \<open>What a received event says: the parser's result on it.\<close>

definition parsed :: "int \<Rightarrow> bytes \<Rightarrow> response_t option \<Rightarrow> bool" where
  "parsed n b r \<longleftrightarrow> deserialize_response b (unat (word_of_int n :: size_t)) = Some r"

lemma transmit_traced:
  assumes "transmit mk c g = Some (st, c', g')" "builds mk w" "length (send_buffer g) = BUFFER_SIZE"
  obtains nst s where "transmit mk (traced_client c) (traced_env l g) =
      Some (st, traced_client c', traced_env (l @ [Tx w nst]) g')" "st = status_from_net nst"
    "c' = c\<lparr>smqtt_client.server := s\<rparr>" "length (send_buffer g') = BUFFER_SIZE"
proof -
  from builds_result [OF assms(2,3)] obtain b' where b': "mk (send_buffer g) = Some (b', length w)"
    "length b' = BUFFER_SIZE" "take (length w) b' = w" "unat (of_nat (length w) :: size_t) = length w" .
  with assms(1) obtain nst s w' where
    s: "server_send (smqtt_client.server c) b' (of_nat (length w)) (outside g) = Some (nst, s, w')"
    "st = status_from_net nst" "c' = c\<lparr>smqtt_client.server := s\<rparr>" "g' = g\<lparr>send_buffer := b', outside := w'\<rparr>"
    by (auto simp: transmit_def Option.bind_eq_Some_conv)
  show thesis
    by (rule that [of nst s]) (use s b' in \<open>simp_all add: transmit_def traced_send traced_env_def\<close>)
qed

lemma await_traced:
  assumes "await c g = Some (r, c', g')"
  obtains n b s where "await (traced_client c) (traced_env l g) =
      Some (r, traced_client c', traced_env (l @ [Rx n b]) g')" "parsed n b r"
    "c' = c\<lparr>smqtt_client.server := s\<rparr>" "send_buffer g' = send_buffer g"
proof -
  from assms obtain sz b s w' where
    r: "server_receive (smqtt_client.server c) (receive_buffer g) (of_nat BUFFER_SIZE) (outside g) =
        Some (sz, b, s, w')"
    "c' = c\<lparr>smqtt_client.server := s\<rparr>" "g' = g\<lparr>receive_buffer := b, outside := w'\<rparr>" "parsed sz b r"
    by (auto simp: await_def receive_packet_def parse_received_def parsed_def Option.bind_eq_Some_conv)
  show thesis
    by (rule that [of sz b s])
      (use r in \<open>simp_all add: await_def receive_packet_def parse_received_def parsed_def traced_receive traced_env_def\<close>)
qed

subsection \<open>Publishing\<close>

datatype pub_state = Start | Wait_puback | Wait_pubrec | Release | Wait_pubcomp | Done smqtt_status_t

text \<open>
  The publisher with packet identifier \<open>i\<close> and PUBLISH packet \<open>w\<close>. At quality 0 the sent packet ends the
  exchange, at quality 1 the matching PUBACK, at quality 2 the matching PUBREC must be answered with
  PUBREL and the matching PUBCOMP received. Anything else ends it with an error.
\<close>

inductive pub_step :: "QoS \<Rightarrow> u16 \<Rightarrow> bytes \<Rightarrow> pub_state \<Rightarrow> event \<Rightarrow> pub_state \<Rightarrow> bool"
  for qos i w where
  send_failed: "pub_step qos i w Start (Tx w SMQTT_NET_SOCKET) (Done SMQTT_SOCKET)"
| sent0: "qos = QoS0 \<Longrightarrow> pub_step qos i w Start (Tx w SMQTT_NET_OK) (Done SMQTT_OK)"
| sent1: "qos = QoS1 \<Longrightarrow> pub_step qos i w Start (Tx w SMQTT_NET_OK) Wait_puback"
| sent2: "qos = QoS2 \<Longrightarrow> pub_step qos i w Start (Tx w SMQTT_NET_OK) Wait_pubrec"
| puback: "parsed n b (Some (Puback_body i)) \<Longrightarrow> pub_step qos i w Wait_puback (Rx n b) (Done SMQTT_OK)"
| puback_bad: "parsed n b None \<Longrightarrow> pub_step qos i w Wait_puback (Rx n b) (Done SMQTT_BAD_MESSAGE)"
| puback_other: "\<lbrakk>parsed n b (Some r); r \<noteq> Puback_body i\<rbrakk> \<Longrightarrow>
    pub_step qos i w Wait_puback (Rx n b) (Done SMQTT_UNEXPECTED)"
| pubrec: "parsed n b (Some (Pubrec_body i)) \<Longrightarrow> pub_step qos i w Wait_pubrec (Rx n b) Release"
| pubrec_bad: "parsed n b None \<Longrightarrow> pub_step qos i w Wait_pubrec (Rx n b) (Done (SMQTT_other (-1)))"
| pubrec_other: "\<lbrakk>parsed n b (Some r); r \<noteq> Pubrec_body i\<rbrakk> \<Longrightarrow>
    pub_step qos i w Wait_pubrec (Rx n b) (Done SMQTT_UNEXPECTED)"
| released: "pub_step qos i w Release (Tx (ack_wire (PACK_MESSAGE_TYPE PUBREL OR 2) i) SMQTT_NET_OK) Wait_pubcomp"
| release_failed:
    "pub_step qos i w Release (Tx (ack_wire (PACK_MESSAGE_TYPE PUBREL OR 2) i) SMQTT_NET_SOCKET) (Done SMQTT_SOCKET)"
| pubcomp: "parsed n b (Some (Pubcomp_body i)) \<Longrightarrow> pub_step qos i w Wait_pubcomp (Rx n b) (Done SMQTT_OK)"
| pubcomp_bad: "parsed n b None \<Longrightarrow> pub_step qos i w Wait_pubcomp (Rx n b) (Done SMQTT_BAD_MESSAGE)"
| pubcomp_other: "\<lbrakk>parsed n b (Some r); r \<noteq> Pubcomp_body i\<rbrakk> \<Longrightarrow>
    pub_step qos i w Wait_pubcomp (Rx n b) (Done SMQTT_UNEXPECTED)"

inductive pub_run :: "QoS \<Rightarrow> u16 \<Rightarrow> bytes \<Rightarrow> pub_state \<Rightarrow> event list \<Rightarrow> pub_state \<Rightarrow> bool"
  for qos i w where
  pub_nil: "pub_run qos i w s [] s"
| pub_cons: "\<lbrakk>pub_step qos i w s e s'; pub_run qos i w s' tr s''\<rbrakk> \<Longrightarrow> pub_run qos i w s (e # tr) s''"

inductive_cases pub_run_ConsE: "pub_run qos i w s (e # tr) s'"
inductive_cases pub_run_StartE: "pub_run qos i w Start tr (Done st)"
inductive_cases pub_run_WaitE: "pub_run qos i w Wait_puback tr (Done st)"
  "pub_run qos i w Wait_pubrec tr (Done st)" "pub_run qos i w Release tr (Done st)"
  "pub_run qos i w Wait_pubcomp tr (Done st)"
inductive_cases pub_step_fromE: "pub_step qos i w Start e s" "pub_step qos i w Wait_puback e s"
  "pub_step qos i w Wait_pubrec e s" "pub_step qos i w Release e s" "pub_step qos i w Wait_pubcomp e s"
  "pub_step qos i w (Done st) e s"

lemma pub_run_Done: "pub_run qos i w (Done st) tr s \<Longrightarrow> tr = [] \<and> s = Done st"
  by (erule pub_run.cases) (auto elim: pub_step_fromE)

lemma pub_last: "pub_step qos i w s e s' \<Longrightarrow> pub_run qos i w s [e] s'"
  by (rule pub_cons [OF _ pub_nil])

declare publish_wire.simps [simp del]

text \<open>The traced run of the call, and the run of the machine it makes.\<close>

definition publish_conforms ::
  "('i, 'w) smqtt_client \<Rightarrow> bytes \<Rightarrow> bytes option \<Rightarrow> QoS \<Rightarrow> bool \<Rightarrow> 'w smqtt_env \<Rightarrow>
    smqtt_status_t \<Rightarrow> ('i, 'w) smqtt_client \<Rightarrow> 'w smqtt_env \<Rightarrow> bool" where
  "publish_conforms c topic msg qos retain g st c' g' \<longleftrightarrow>
     publish_packet_id c' = publish_packet_id c + (if qos = QoS0 then 0 else 1) \<and>
     (\<exists>tr. smqtt_publish (traced_client c) topic msg qos retain (traced_env [] g) =
        Some (st, traced_client c', traced_env tr g') \<and>
      pub_run qos (publish_packet_id c') (publish_wire (topic, publish_packet_id c', qos, retain, msg)) Start tr (Done st))"

lemma publish_builds:
  "length (publish_wire (topic, 0, qos, retain, msg)) \<le> BUFFER_SIZE \<Longrightarrow>
    builds (\<lambda>b. make_publish_message b len topic i qos retain msg) (publish_wire (topic, i, qos, retain, msg))"
  by (intro builds_publish) (cases "QoS1 \<le> qos"; simp add: publish_wire.simps short_wire_def)

lemma publish0_conforms:
  assumes "connected c" "length (publish_wire (topic, 0, QoS0, retain, msg)) \<le> BUFFER_SIZE"
    "length (send_buffer g) = BUFFER_SIZE"
    "smqtt_publish c topic msg QoS0 retain g = Some (st, c', g')"
  shows "publish_conforms c topic msg QoS0 retain g st c' g'"
proof -
  have run: "transmit (\<lambda>b. make_publish_message b (of_nat BUFFER_SIZE) topic (publish_packet_id c) QoS0 retain msg) c g =
      Some (st, c', g')"
    using assms(1,4) by (auto simp: smqtt_publish_def Option.bind_eq_Some_conv split: if_splits)
  let ?w = "publish_wire (topic, publish_packet_id c, QoS0, retain, msg)"
  from transmit_traced [OF run publish_builds [OF assms(2)] assms(3), of "[]", unfolded append_Nil] obtain nst s where
    t: "transmit (\<lambda>b. make_publish_message b (of_nat BUFFER_SIZE) topic (publish_packet_id c) QoS0 retain msg)
      (traced_client c) (traced_env [] g) = Some (st, traced_client c', traced_env [Tx ?w nst] g')"
    "st = status_from_net nst" "c' = c\<lparr>smqtt_client.server := s\<rparr>" .
  have "pub_run QoS0 (publish_packet_id c) ?w Start [Tx ?w nst] (Done st)"
    using t(2) by (intro pub_last) (cases nst; simp add: pub_step.intros)
  with t assms(1) show ?thesis
    unfolding publish_conforms_def by (auto simp: smqtt_publish_def)
qed

text \<open>
  The part qualities 1 and 2 share: the packet is sent and a reply received. Either the send failed, or the
  plain and the traced run have both come to the reply.
\<close>

lemma publish_head:
  fixes c :: "('i, 'w) smqtt_client"
  assumes "connected c" "qos = QoS1 \<or> qos = QoS2" "length (publish_wire (topic, 0, qos, retain, msg)) \<le> BUFFER_SIZE"
    "length (send_buffer g) = BUFFER_SIZE"
    "smqtt_publish c topic msg qos retain g = Some (st, c', g')"
  defines "i \<equiv> publish_packet_id c + 1"
  defines "mk \<equiv> \<lambda>b. make_publish_message b (of_nat BUFFER_SIZE) topic i qos retain msg"
  defines "e \<equiv> Tx (publish_wire (topic, i, qos, retain, msg))"
  obtains (failed) "publish_conforms c topic msg qos retain g st c' g'"
  | (replied) c1 g1 r c2 g2 n b s1 s2 where
    "transmit mk (c\<lparr>publish_packet_id := i\<rparr>) g = Some (SMQTT_OK, c1, g1)" "await c1 g1 = Some (r, c2, g2)"
    "transmit mk (traced_client (c\<lparr>publish_packet_id := i\<rparr>)) (traced_env [] g) =
      Some (SMQTT_OK, traced_client c1, traced_env [e SMQTT_NET_OK] g1)"
    "await (traced_client c1) (traced_env [e SMQTT_NET_OK] g1) =
      Some (r, traced_client c2, traced_env [e SMQTT_NET_OK, Rx n b] g2)"
    "parsed n b r" "c1 = c\<lparr>publish_packet_id := i, smqtt_client.server := s1\<rparr>"
    "c2 = c1\<lparr>smqtt_client.server := s2\<rparr>" "length (send_buffer g2) = BUFFER_SIZE"
proof -
  let ?c = "c\<lparr>publish_packet_id := i\<rparr>"
  have builds: "builds mk (publish_wire (topic, i, qos, retain, msg))"
    unfolding mk_def using assms(3) by (rule publish_builds)
  have pub: "smqtt_publish x topic msg qos retain y \<noteq> None \<Longrightarrow> connected x \<Longrightarrow> publish_packet_id x = publish_packet_id c \<Longrightarrow>
      transmit mk (x\<lparr>publish_packet_id := i\<rparr>) y \<noteq> None" for x y
    using assms(2) by (auto simp: smqtt_publish_def mk_def i_def Option.bind_eq_Some_conv)
  from pub [of c g] assms(1,5) obtain st1 c1 g1 where run: "transmit mk ?c g = Some (st1, c1, g1)" by auto
  from transmit_traced [OF run builds assms(4), of "[]", unfolded append_Nil] obtain nst s1 where
    t: "transmit mk (traced_client ?c) (traced_env [] g) = Some (st1, traced_client c1, traced_env [e nst] g1)"
    "st1 = status_from_net nst" "c1 = ?c\<lparr>smqtt_client.server := s1\<rparr>" "length (send_buffer g1) = BUFFER_SIZE"
    unfolding e_def .
  show thesis
  proof (cases nst)
    case SMQTT_NET_OK
    with t(2) run assms(1,2,5) obtain r c2 g2 where run2: "await c1 g1 = Some (r, c2, g2)"
      by (auto simp: smqtt_publish_def mk_def i_def Option.bind_eq_Some_conv)
    from await_traced [OF run2, of "[e nst]", unfolded append_Cons append_Nil] obtain n b s2 where
      "await (traced_client c1) (traced_env [e nst] g1) = Some (r, traced_client c2, traced_env [e nst, Rx n b] g2)"
      "parsed n b r" "c2 = c1\<lparr>smqtt_client.server := s2\<rparr>" "send_buffer g2 = send_buffer g1" .
    with run t run2 SMQTT_NET_OK show thesis by (intro replied [of c1 g1 r c2 g2 n b s1 s2]) simp_all
  next
    case SMQTT_NET_SOCKET
    with assms(1,2,5) run t have "st = SMQTT_SOCKET" "c' = c1" "g' = g1"
      by (auto simp: smqtt_publish_def mk_def i_def)
    moreover have "pub_run qos i (publish_wire (topic, i, qos, retain, msg)) Start [e SMQTT_NET_SOCKET] (Done SMQTT_SOCKET)"
      by (simp add: pub_last pub_step.intros e_def)
    moreover have "smqtt_publish (traced_client c) topic msg qos retain (traced_env [] g) =
        Some (SMQTT_SOCKET, traced_client c1, traced_env [e SMQTT_NET_SOCKET] g1)"
      using assms(1,2) t(1,2) SMQTT_NET_SOCKET by (auto simp: smqtt_publish_def mk_def i_def)
    ultimately show thesis
      using t(3) assms(2) by (intro failed) (auto simp: publish_conforms_def i_def)
  qed
qed

lemma publish1_conforms:
  assumes "connected c" "length (publish_wire (topic, 0, QoS1, retain, msg)) \<le> BUFFER_SIZE"
    "length (send_buffer g) = BUFFER_SIZE"
    "smqtt_publish c topic msg QoS1 retain g = Some (st, c', g')"
  shows "publish_conforms c topic msg QoS1 retain g st c' g'"
proof (rule publish_head [OF assms(1) _ assms(2-4)])
  fix c1 g1 r c2 g2 n b s1 s2
  let ?i = "publish_packet_id c + 1"
  let ?mk = "\<lambda>b. make_publish_message b (of_nat BUFFER_SIZE) topic ?i QoS1 retain msg"
  let ?w = "publish_wire (topic, ?i, QoS1, retain, msg)"
  assume run: "transmit ?mk (c\<lparr>publish_packet_id := ?i\<rparr>) g = Some (SMQTT_OK, c1, g1)" "await c1 g1 = Some (r, c2, g2)"
    and t: "transmit ?mk (traced_client (c\<lparr>publish_packet_id := ?i\<rparr>)) (traced_env [] g) =
      Some (SMQTT_OK, traced_client c1, traced_env [Tx ?w SMQTT_NET_OK] g1)"
    "await (traced_client c1) (traced_env [Tx ?w SMQTT_NET_OK] g1) =
      Some (r, traced_client c2, traced_env [Tx ?w SMQTT_NET_OK, Rx n b] g2)"
    "parsed n b r" "c1 = c\<lparr>publish_packet_id := ?i, smqtt_client.server := s1\<rparr>"
    "c2 = c1\<lparr>smqtt_client.server := s2\<rparr>"
  have res: "st = (case r of None \<Rightarrow> SMQTT_BAD_MESSAGE | Some m \<Rightarrow>
      if m = Puback_body ?i then SMQTT_OK else SMQTT_UNEXPECTED)" "c' = c2" "g' = g2"
    using assms(1,4) run t(4,5) by (auto simp: smqtt_publish_def split: option.splits if_splits)
  have "pub_run QoS1 ?i ?w Start [Tx ?w SMQTT_NET_OK, Rx n b] (Done st)"
    using t(3) res(1) by (auto intro!: pub_cons pub_last intro: pub_step.intros split: option.splits)
  moreover have "smqtt_publish (traced_client c) topic msg QoS1 retain (traced_env [] g) =
      Some (st, traced_client c', traced_env [Tx ?w SMQTT_NET_OK, Rx n b] g')"
    using assms(1) t res by (auto simp: smqtt_publish_def split: option.splits)
  ultimately show ?thesis using t(4,5) res(2) unfolding publish_conforms_def by auto
qed simp_all

text \<open>At quality 2, the second half of the exchange, from the PUBREL packet on.\<close>

definition release_tail ::
  "('i, 'w) smqtt_client \<Rightarrow> 'w smqtt_env \<Rightarrow>
    (smqtt_status_t \<times> ('i, 'w) smqtt_client \<times> 'w smqtt_env) option" where
  "release_tail client g =
     do {
       (stat, client, g) \<leftarrow>
         transmit (\<lambda>b. make_pubrel_message b (of_nat BUFFER_SIZE) (publish_packet_id client)) client g;
       if stat \<noteq> SMQTT_OK then Some (stat, client, g)
       else do {
         (resp, client, g) \<leftarrow> await client g;
         case resp of
           None \<Rightarrow> Some (SMQTT_BAD_MESSAGE, client, g)
         | Some r \<Rightarrow>
             if r = Pubcomp_body (publish_packet_id client) then Some (SMQTT_OK, client, g)
             else Some (SMQTT_UNEXPECTED, client, g)
       }
     }"

lemma release_tail_conforms:
  assumes "length (send_buffer g) = BUFFER_SIZE" "release_tail c g = Some (st, c', g')"
  obtains tr s where "release_tail (traced_client c) (traced_env l g) =
      Some (st, traced_client c', traced_env (l @ tr) g')"
    "pub_run qos (publish_packet_id c) w Release tr (Done st)" "c' = c\<lparr>smqtt_client.server := s\<rparr>"
proof -
  let ?i = "publish_packet_id c"
  let ?mk = "\<lambda>b. make_pubrel_message b (of_nat BUFFER_SIZE) ?i"
  let ?e = "Tx (ack_wire (PACK_MESSAGE_TYPE PUBREL OR 2) ?i)"
  from assms(2) obtain st1 c1 g1 where run: "transmit ?mk c g = Some (st1, c1, g1)"
    by (auto simp: release_tail_def Option.bind_eq_Some_conv)
  from transmit_traced [OF run builds_fixed(3) assms(1), of l] obtain nst s where
    t: "transmit ?mk (traced_client c) (traced_env l g) = Some (st1, traced_client c1, traced_env (l @ [?e nst]) g1)"
    "st1 = status_from_net nst" "c1 = c\<lparr>smqtt_client.server := s\<rparr>" .
  show thesis
  proof (cases nst)
    case SMQTT_NET_OK
    with t run assms(2) obtain r c2 g2 where run2: "await c1 g1 = Some (r, c2, g2)"
      by (auto simp: release_tail_def Option.bind_eq_Some_conv)
    from await_traced [OF run2, of "l @ [?e nst]"] obtain n b s2 where
      t2: "await (traced_client c1) (traced_env (l @ [?e nst]) g1) =
          Some (r, traced_client c2, traced_env ((l @ [?e nst]) @ [Rx n b]) g2)" "parsed n b r"
        "c2 = c1\<lparr>smqtt_client.server := s2\<rparr>" .
    have res: "st = (case r of None \<Rightarrow> SMQTT_BAD_MESSAGE | Some m \<Rightarrow>
        if m = Pubcomp_body ?i then SMQTT_OK else SMQTT_UNEXPECTED)" "c' = c2" "g' = g2"
      using assms(2) run run2 t(2,3) t2(3) SMQTT_NET_OK
      by (auto simp: release_tail_def split: option.splits if_splits)
    show thesis
      by (rule that [of "[?e nst, Rx n b]" s2])
        (use t t2 res SMQTT_NET_OK in \<open>auto simp: release_tail_def split: option.splits
          intro!: pub_cons pub_last intro: pub_step.intros\<close>)
  next
    case SMQTT_NET_SOCKET
    with assms(2) run t have "st = SMQTT_SOCKET" "c' = c1" "g' = g1"
      by (auto simp: release_tail_def)
    with t SMQTT_NET_SOCKET show thesis
      by (intro that [of "[?e nst]" s]) (auto simp: release_tail_def intro: pub_last pub_step.intros)
  qed
qed

lemma publish2_conforms:
  assumes "connected c" "length (publish_wire (topic, 0, QoS2, retain, msg)) \<le> BUFFER_SIZE"
    "length (send_buffer g) = BUFFER_SIZE"
    "smqtt_publish c topic msg QoS2 retain g = Some (st, c', g')"
  shows "publish_conforms c topic msg QoS2 retain g st c' g'"
proof (rule publish_head [OF assms(1) _ assms(2-4)])
  fix c1 g1 r c2 g2 n b s1 s2
  let ?i = "publish_packet_id c + 1"
  let ?mk = "\<lambda>b. make_publish_message b (of_nat BUFFER_SIZE) topic ?i QoS2 retain msg"
  let ?w = "publish_wire (topic, ?i, QoS2, retain, msg)"
  let ?tr = "[Tx ?w SMQTT_NET_OK, Rx n b]"
  assume run: "transmit ?mk (c\<lparr>publish_packet_id := ?i\<rparr>) g = Some (SMQTT_OK, c1, g1)" "await c1 g1 = Some (r, c2, g2)"
    and t: "transmit ?mk (traced_client (c\<lparr>publish_packet_id := ?i\<rparr>)) (traced_env [] g) =
      Some (SMQTT_OK, traced_client c1, traced_env [Tx ?w SMQTT_NET_OK] g1)"
    "await (traced_client c1) (traced_env [Tx ?w SMQTT_NET_OK] g1) = Some (r, traced_client c2, traced_env ?tr g2)"
    "parsed n b r" "c1 = c\<lparr>publish_packet_id := ?i, smqtt_client.server := s1\<rparr>"
    "c2 = c1\<lparr>smqtt_client.server := s2\<rparr>" "length (send_buffer g2) = BUFFER_SIZE"
  note def = smqtt_publish_def release_tail_def
  show ?thesis
  proof (cases "r = Some (Pubrec_body ?i)")
    case True
    have "release_tail c2 g2 = Some (st, c', g')" using assms(1,4) run t(4,5) True by (simp add: def)
    from release_tail_conforms [OF t(6) this, of ?tr QoS2 ?w] obtain tr s3 where
      t3: "release_tail (traced_client c2) (traced_env ?tr g2) = Some (st, traced_client c', traced_env (?tr @ tr) g')"
        "pub_run QoS2 (publish_packet_id c2) ?w Release tr (Done st)" "c' = c2\<lparr>smqtt_client.server := s3\<rparr>" .
    have "smqtt_publish (traced_client c) topic msg QoS2 retain (traced_env [] g) =
        Some (st, traced_client c', traced_env (?tr @ tr) g')"
      using assms(1) t t3(1) True by (simp add: def)
    moreover have "pub_run QoS2 ?i ?w Start (?tr @ tr) (Done st)"
      using t(3-5) t3(2) True by (auto intro!: pub_cons intro: pub_step.intros)
    ultimately show ?thesis using t(4,5) t3(3) unfolding publish_conforms_def by auto
  next
    case False
    then have res: "st = (if r = None then SMQTT_other (-1) else SMQTT_UNEXPECTED)" "c' = c2" "g' = g2"
      using assms(1,4) run t(4,5) by (auto simp: smqtt_publish_def split: option.splits if_splits)
    have "pub_run QoS2 ?i ?w Start ?tr (Done st)"
      using t(3) res(1) False by (cases r) (auto intro!: pub_cons pub_last intro: pub_step.intros)
    moreover have "smqtt_publish (traced_client c) topic msg QoS2 retain (traced_env [] g) =
        Some (st, traced_client c', traced_env ?tr g')"
      using assms(1) t res False by (auto simp: smqtt_publish_def split: option.splits)
    ultimately show ?thesis using t(4,5) res(2) unfolding publish_conforms_def by auto
  qed
qed simp_all

lemma publish_follows:
  assumes "connected c" "qos \<le> QoS2" "length (publish_wire (topic, 0, qos, retain, msg)) \<le> BUFFER_SIZE"
    "length (send_buffer g) = BUFFER_SIZE"
    "smqtt_publish c topic msg qos retain g = Some (st, c', g')"
  shows "publish_conforms c topic msg qos retain g st c' g'"
proof -
  note hyps = assms(1,3-5)
  consider "qos = QoS0" | "qos = QoS1" | "qos = QoS2" using qos_cases [OF assms(2)] by blast
  then show ?thesis
    by cases (use publish0_conforms [of c topic retain msg] publish1_conforms [of c topic retain msg]
        publish2_conforms [of c topic retain msg] hyps in simp_all)
qed

subsection \<open>What a successful publication means\<close>

lemma pub_ok1:
  assumes "pub_run QoS1 i w Start tr (Done SMQTT_OK)"
  shows "\<exists>n b. tr = [Tx w SMQTT_NET_OK, Rx n b] \<and> parsed n b (Some (Puback_body i))"
  using assms
  by (auto elim!: pub_run_StartE pub_step_fromE pub_run_WaitE dest: pub_run_Done)

lemma pub_ok2:
  assumes "pub_run QoS2 i w Start tr (Done SMQTT_OK)"
  shows "\<exists>n b n' b'. tr = [Tx w SMQTT_NET_OK, Rx n b, Tx (ack_wire (PACK_MESSAGE_TYPE PUBREL OR 2) i) SMQTT_NET_OK, Rx n' b'] \<and>
    parsed n b (Some (Pubrec_body i)) \<and> parsed n' b' (Some (Pubcomp_body i))"
  using assms
  by (auto elim!: pub_run_StartE pub_step_fromE pub_run_WaitE dest: pub_run_Done)

subsection \<open>Packet identifiers\<close>

lemma parsed_ack: "parsed n b (Some r) \<Longrightarrow> r \<in> {Puback_body i, Pubrec_body i, Pubcomp_body i, Unsuback_body i} \<Longrightarrow> i < 256"
  unfolding parsed_def word_less_nat_alt by (drule deserialize_ack) auto

lemma pub_ok_small: "pub_run qos i w Start tr (Done SMQTT_OK) \<Longrightarrow> qos = QoS1 \<or> qos = QoS2 \<Longrightarrow> i < 256"
  using pub_ok1 pub_ok2 parsed_ack by fastforce

end
