(* ===== verification/Client_Properties.thy ===== *)
theory Client_Properties
  imports Client_Protocol Message_Properties
begin

section \<open>Correctness of the network server and the client\<close>

text \<open>
  The properties of \<^verbatim>\<open>network_server.c\<close> and \<^verbatim>\<open>smqttc.c\<close> over any operating system whose \<^verbatim>\<open>recv\<close> behaves as
  documented (\<open>posix_sockets\<close>). The witnesses run on the scripted peer.
\<close>

declare publish_wire.simps [simp del]

subsection \<open>A client on an open connection\<close>

definition net_client ::
  "'w sockets_api \<Rightarrow> (server_impl_t, 'w) smqtt_client \<Rightarrow> 'w smqtt_env \<Rightarrow> bool" where
  "net_client api c g \<longleftrightarrow>
     (\<exists>im. fd_live im \<and> smqtt_client.server c = create_network_server api im) \<and> buffers_ok g"

text \<open>A call that ran to its end: it kept the buffers, and the connection is open unless a send failed.\<close>

definition runs_safely ::
  "'w sockets_api \<Rightarrow> (smqtt_status_t \<times> (server_impl_t, 'w) smqtt_client \<times> 'w smqtt_env) option \<Rightarrow> bool" where
  "runs_safely api res \<longleftrightarrow> (\<exists>st c g. res = Some (st, c, g) \<and> buffers_ok g \<and>
     (st \<notin> {SMQTT_SOCKET, SMQTT_other (-1)} \<longrightarrow> net_client api c g))"

lemma impl_create: "create_network_server api raw\<lparr>impl := Some i\<rparr> = create_network_server api i"
  by (simp add: create_network_server_def)

context network_provider
begin

lemma ready_net: "ready c g \<longleftrightarrow> net_client api c g"
  by (simp add: ready_def up_def net_client_def impl_create)

lemma safe_net: "safe res \<longleftrightarrow> runs_safely api res"
  by (simp add: safe_def runs_safely_def ready_net)

lemma opens_net: "fst (sk_socket api w) < FD_SETSIZE \<Longrightarrow> opens w"
  unfolding opens_def
  by (auto simp: create_network_server_def network_connect_def fd_live_def Let_def split: prod.splits)

lemmas net_calls = ping_safe [unfolded ready_net safe_net] publish_safe [unfolded ready_net safe_net]
  subscribe_safe [unfolded ready_net safe_net] unsubscribe_safe [unfolded ready_net safe_net]

lemmas net_deliver = next_message_safe [unfolded safe_delivery_def ready_net safe_net]

lemmas net_connect = connect_internal_safe [OF _ opens_net, unfolded safe_connect_def ready_net]

lemmas net_disconnect = disconnect_sent [unfolded ready_net]

end

subsection \<open>Safety of the calls\<close>

text \<open>A packet that does not fit the send buffer.\<close>

lemma transmit_overflow:
  assumes "\<And>b. mk b = stored b w" "length (send_buffer g) < length w"
  shows "transmit mk c g = None"
  using assms by (simp add: transmit_def stored_def)

lemma calls_overflow:
  fixes c :: "('i, 'w) smqtt_client"
  assumes "length (send_buffer g) = BUFFER_SIZE" "connected c"
  shows "\<lbrakk>qos \<le> QoS2; BUFFER_SIZE < length (publish_wire (topic, 0, qos, retain, msg))\<rbrakk> \<Longrightarrow>
      smqtt_publish c topic msg qos retain g = None"
    and "\<lbrakk>subscribe_args_ok (0, n, topics, qoss); BUFFER_SIZE < length (subscribe_wire (0, n, topics, qoss))\<rbrakk> \<Longrightarrow>
      smqtt_subscribe c n topics qoss g = None"
    and "\<lbrakk>unsubscribe_args_ok (0, n, topics); BUFFER_SIZE < length (unsubscribe_wire (0, n, topics))\<rbrakk> \<Longrightarrow>
      smqtt_unsubscribe c n topics g = None"
proof -
  assume q: "qos \<le> QoS2" "BUFFER_SIZE < length (publish_wire (topic, 0, qos, retain, msg))"
  have "transmit (\<lambda>b. make_publish_message b len topic i qos retain msg) c' g = None" for len i and c' :: "('i, 'w) smqtt_client"
  proof (rule transmit_overflow)
    show "make_publish_message b len topic i qos retain msg = stored b (publish_wire (topic, i, qos, retain, msg))" for b
      using publish.make_stores [where m = "(topic, i, qos, retain, msg)"] by simp
    have "length (publish_wire (topic, i, qos, retain, msg)) = length (publish_wire (topic, 0, qos, retain, msg))"
      by (cases "QoS1 \<le> qos") (simp_all add: publish_wire.simps short_wire_def)
    with q(2) assms(1) show "length (send_buffer g) < length (publish_wire (topic, i, qos, retain, msg))" by (simp only:)
  qed
  with assms(2) q(1) show "smqtt_publish c topic msg qos retain g = None"
    by (auto simp: smqtt_publish_def Let_def not_less)
next
  assume q: "subscribe_args_ok (0, n, topics, qoss)" "BUFFER_SIZE < length (subscribe_wire (0, n, topics, qoss))"
  have "transmit (\<lambda>b. make_subscribe_message b len i n topics qoss) c' g = None" for len i and c' :: "('i, 'w) smqtt_client"
    using subscribe.make_stores [where m = "(i, n, topics, qoss)"] q assms(1)
    by (intro transmit_overflow [of _ "subscribe_wire (i, n, topics, qoss)"]) (simp_all add: short_wire_def Let_def)
  with assms(2) show "smqtt_subscribe c n topics qoss g = None" by (simp add: smqtt_subscribe_def Let_def)
next
  assume q: "unsubscribe_args_ok (0, n, topics)" "BUFFER_SIZE < length (unsubscribe_wire (0, n, topics))"
  have "transmit (\<lambda>b. make_unsubscribe_message b len i n topics) c' g = None" for len i and c' :: "('i, 'w) smqtt_client"
    using unsubscribe.make_stores [where m = "(i, n, topics)"] q assms(1)
    by (intro transmit_overflow [of _ "unsubscribe_wire (i, n, topics)"]) (simp_all add: short_wire_def Let_def)
  with assms(2) show "smqtt_unsubscribe c n topics g = None" by (simp add: smqtt_unsubscribe_def Let_def)
qed

text \<open>C8: on an open network connection, whatever the peer sends and however the sends go, \<^verbatim>\<open>smqtt_ping\<close> runs to its end without leaving
  a buffer, and \<^verbatim>\<open>smqtt_publish\<close>, \<^verbatim>\<open>smqtt_subscribe\<close> and \<^verbatim>\<open>smqtt_unsubscribe\<close> of a connected client do so exactly when the packet they
  build fits the 1024 bytes of the send buffer; the connection stays usable unless a send failed. Where the packet
  does not fit, they write behind the buffer.\<close>

theorem client_calls_safe:
  assumes "posix_sockets api" "net_client api c g" "connected c" "qos \<le> QoS2" "unat n \<le> length topics" "unat n \<le> length qoss"
  shows "runs_safely api (smqtt_ping c g) \<and>
    (if length (publish_wire (topic, 0, qos, retain, msg)) \<le> BUFFER_SIZE
     then runs_safely api (smqtt_publish c topic msg qos retain g) else smqtt_publish c topic msg qos retain g = None) \<and>
    (if length (subscribe_wire (0, n, topics, qoss)) \<le> BUFFER_SIZE
     then runs_safely api (smqtt_subscribe c n topics qoss g) else smqtt_subscribe c n topics qoss g = None) \<and>
    (if length (unsubscribe_wire (0, n, topics)) \<le> BUFFER_SIZE
     then runs_safely api (smqtt_unsubscribe c n topics g) else smqtt_unsubscribe c n topics g = None)"
proof -
  note calls = network_provider.net_calls [OF network_provider.intro [OF assms(1)] assms(2)]
  have args: "subscribe_args_ok (0, n, topics, qoss)" "unsubscribe_args_ok (0, n, topics)" using assms(5,6) by simp_all
  have "length (send_buffer g) = BUFFER_SIZE" using assms(2) by (simp add: net_client_def buffers_ok_def)
  note over = calls_overflow [OF this assms(3)]
  show ?thesis
    using calls(1) calls(2) [of topic qos retain msg] calls(3) [OF args(1)] calls(4) [OF args(2)]
      over(1) [OF assms(4)] over(2) [OF args(1)] over(3) [OF args(2)]
    by (simp add: not_le del: publish_wire.simps subscribe_wire.simps unsubscribe_wire.simps)
qed

definition sample_impl :: server_impl_t where
  "sample_impl = \<lparr>socket = 3, socket_address = \<lparr>sin_family = AF_INET, sin_port = 0, sin_addr = 0\<rparr>, read_fds = []\<rparr>"

definition sample_client :: "(server_impl_t, peer) smqtt_client" where
  "sample_client = \<lparr>hostname = [49], clientid = [97], port = 1883, connected = True, publish_packet_id = 0,
     subscribe_packet_id = 1, unsubscribe_packet_id = 0,
     server = create_network_server peer_sockets sample_impl\<rparr>"

definition sample_env :: "bytes list \<Rightarrow> int list \<Rightarrow> peer smqtt_env" where
  "sample_env segs results = initial_env \<lparr>to_client = segs, send_results = results, sent = []\<rparr>"

lemma sample_net: "net_client peer_sockets sample_client (sample_env segs results)"
proof -
  have "fd_live sample_impl" by (simp add: fd_live_def sample_impl_def FD_SETSIZE_def)
  then show ?thesis by (auto simp: net_client_def sample_client_def sample_env_def buffers_initial)
qed

lemma sample_packets:
  "length (publish_wire ([116], 0, QoS1, True, Some [104, 105])) \<le> BUFFER_SIZE"
  "length (subscribe_wire (0, 1, [[116]], [QoS1])) \<le> BUFFER_SIZE"
  "length (unsubscribe_wire (0, 1, [[116]])) \<le> BUFFER_SIZE"
proof -
  have "strlen [116] = 1" "strlen [104, 105] = 2" "cstr [116] = [116]" "cstr [104, 105] = [104, 105]"
    by (simp_all add: strlen_def cstr_def)
  moreover from this have "utf8_size [[116]] True = 4" "utf8_size [[116]] False = 3"
    by (simp_all add: utf8_size_def)
  moreover have "size_field 7 = [7]" "size_field 6 = [6]" "size_field 5 = [5]" by (simp_all add: size_field_small)
  ultimately show "length (publish_wire ([116], 0, QoS1, True, Some [104, 105])) \<le> BUFFER_SIZE"
    "length (subscribe_wire (0, 1, [[116]], [QoS1])) \<le> BUFFER_SIZE"
    "length (unsubscribe_wire (0, 1, [[116]])) \<le> BUFFER_SIZE"
    by (simp_all add: publish_wire.simps string_wire_def short_wire_def topic_qos_wire_def BUFFER_SIZE_def)
qed

theorem client_calls_safe_witness:
  "runs_safely peer_sockets (smqtt_ping sample_client (sample_env [[255, 255]] [])) \<and>
    runs_safely peer_sockets (smqtt_publish sample_client [116] (Some [104, 105]) QoS1 True (sample_env [[255, 255]] [])) \<and>
    runs_safely peer_sockets (smqtt_subscribe sample_client 1 [[116]] [QoS1] (sample_env [[255, 255]] [])) \<and>
    runs_safely peer_sockets (smqtt_unsubscribe sample_client 1 [[116]] (sample_env [[255, 255]] []))"
proof -
  have "connected sample_client" "QoS1 \<le> QoS2" "unat (1 :: u16) \<le> length [[116 :: u8]]" "unat (1 :: u16) \<le> length [QoS1]"
    by (simp_all add: sample_client_def)
  from client_calls_safe [OF peer.posix_sockets_axioms sample_net [of "[[255, 255]]" "[]"] this, of "[116]" True "Some [104, 105]"]
  show ?thesis using sample_packets by (simp del: publish_wire.simps subscribe_wire.simps unsubscribe_wire.simps)
qed

text \<open>C15: on an open network connection \<^verbatim>\<open>smqtt_get_next_message\<close> runs to its end for every packet the peer
  may send: parsing the packet and copying the message out of the receive buffer stay inside it, whatever
  sizes the packet claims.\<close>

theorem next_message_in_bounds:
  assumes "posix_sockets api" "net_client api c g"
  shows "\<exists>st out c' g'. smqtt_get_next_message c g = Some (st, out, c', g') \<and> buffers_ok g' \<and>
    (st \<notin> {SMQTT_SOCKET, SMQTT_other (-1)} \<longrightarrow> net_client api c' g')"
  using network_provider.net_deliver [OF network_provider.intro [OF assms(1)] assms(2)]
  by (auto simp: runs_safely_def)

theorem next_message_in_bounds_witness:
  "\<exists>st out c' g'. smqtt_get_next_message sample_client (sample_env [[0x32, 255], replicate 255 255] []) =
      Some (st, out, c', g') \<and> buffers_ok g' \<and>
    (st \<notin> {SMQTT_SOCKET, SMQTT_other (-1)} \<longrightarrow> net_client peer_sockets c' g')"
  by (intro next_message_in_bounds peer.posix_sockets_axioms sample_net)

text \<open>C23: \<^verbatim>\<open>smqtt_connect\<close> runs to its end when the CONNECT packet fits the send buffer and the socket
  number is one \<^verbatim>\<open>select\<close> can watch, and a client it hands out is connected, open and paired with status
  \<^verbatim>\<open>SMQTT_OK\<close>.\<close>

theorem connect_safe:
  assumes "posix_sockets api" "buffers_ok g" "fst (sk_socket api (outside g)) < FD_SETSIZE"
    "connect_args_ok (connect_args_of (cstr (cp_client_id a)) a)"
    "length (connect_wire (connect_args_of (cstr (cp_client_id a)) a)) \<le> BUFFER_SIZE"
  shows "\<exists>st out g'. smqtt_connect api raw allocated raw_id a g = Some (st, out, g') \<and> buffers_ok g' \<and>
    (\<forall>c. out = Client c \<longrightarrow> st = SMQTT_OK \<and> connected c \<and> net_client api c g')"
  using network_provider.net_connect [OF network_provider.intro [OF assms(1)] assms(2,3)
      sendableI [OF builds_connect [OF assms(4,5)]]]
  by (simp add: smqtt_connect_def)

definition sample_params :: connect_params where
  "sample_params = \<lparr>cp_server_ip = [49], cp_port = 1883, cp_client_id = [97, 98], cp_user = None, cp_pw = None,
     cp_keep_alive_sec = 30, cp_clean_session = True, cp_last_will = False, cp_will_qos = QoS0,
     cp_will_retain = False, cp_will_topic = None, cp_will_message = None\<rparr>"

lemma sample_params_wire:
  "connect_args_ok (connect_args_of (cstr (cp_client_id sample_params)) sample_params)"
  "length (connect_wire (connect_args_of (cstr (cp_client_id sample_params)) sample_params)) \<le> BUFFER_SIZE"
proof -
  let ?a = "connect_args_of (cstr (cp_client_id sample_params)) sample_params"
  have "connect_len ?a = 16"
    by (simp add: connect_len_def connect_args_of_def sample_params_def strlen_def cstr_def protocol_name_def opt_len_def)
  moreover have "size_field 16 = [16]" by (simp add: size_field_small)
  ultimately show "length (connect_wire ?a) \<le> BUFFER_SIZE"
    by (simp add: connect_wire_def string_wire_def short_wire_def opt_wire_def BUFFER_SIZE_def
        connect_args_of_def sample_params_def strlen_def cstr_def protocol_name_def)
qed (simp add: connect_args_ok_def connect_args_of_def sample_params_def)

theorem connect_safe_witness:
  "\<exists>st out g'. smqtt_connect peer_sockets sample_impl True 7 sample_params (sample_env [[32, 2], [0, 0]] []) =
      Some (st, out, g') \<and> buffers_ok g' \<and>
    (\<forall>c. out = Client c \<longrightarrow> st = SMQTT_OK \<and> connected c \<and> net_client peer_sockets c g')"
proof -
  have "buffers_ok (sample_env [[32, 2], [0, 0]] [])" by (simp add: sample_env_def buffers_initial)
  moreover have "fst (sk_socket peer_sockets w) < FD_SETSIZE" for w
    by (simp add: peer_sockets_def FD_SETSIZE_def)
  ultimately show ?thesis
    using connect_safe [OF peer.posix_sockets_axioms _ _ sample_params_wire] by blast
qed

subsection \<open>The network server\<close>

text \<open>\<^verbatim>\<open>network_send\<close> reports a failure exactly for a short write. A negative result of \<^verbatim>\<open>send\<close>, an
  error, is compared as a huge unsigned number and passes for a success.\<close>

theorem network_send_status:
  assumes "2 \<le> length b" "unat n \<le> length b" "unat n < 2 ^ 63"
    "sk_send api (socket im) (take (unat n) b) w = (r, w')" "- (2 ^ 63) \<le> r" "r < 2 ^ 63"
  shows "network_send api (Some im) b n w =
    (if 0 \<le> r \<and> r < int (unat n) then Some (SMQTT_NET_SOCKET, None, w')
     else Some (SMQTT_NET_OK, Some im, w'))"
proof -
  have "(word_of_int r :: size_t) < n \<longleftrightarrow> r mod 2 ^ 64 < int (unat n)"
    by (simp add: word_less_def uint_word_of_int)
  moreover have "r mod 2 ^ 64 = (if 0 \<le> r then r else r + 2 ^ 64)"
    using assms(5,6) mod_pos_pos_trivial [of "r + 2 ^ 64" "2 ^ 64"] by (simp add: mod_pos_pos_trivial)
  moreover have "int (unat n) < int (2 ^ 63)" using assms(3) by (simp only: of_nat_less_iff)
  ultimately have "(word_of_int r :: size_t) < n \<longleftrightarrow> 0 \<le> r \<and> r < int (unat n)"
    using assms(5) by auto
  then show ?thesis by (simp add: network_send_result [OF assms(1,2)] assms(4))
qed

theorem network_send_status_witness:
  "network_send peer_sockets (Some sample_impl) [192, 0] 2 \<lparr>to_client = [], send_results = [-1], sent = []\<rparr> =
    Some (SMQTT_NET_OK, Some sample_impl, \<lparr>to_client = [], send_results = [], sent = [[]]\<rparr>) \<and>
   network_send peer_sockets (Some sample_impl) [192, 0] 2 \<lparr>to_client = [], send_results = [1], sent = []\<rparr> =
    Some (SMQTT_NET_SOCKET, None, \<lparr>to_client = [], send_results = [], sent = [[192]]\<rparr>)"
  using network_send_status [of "[192, 0]" 2 peer_sockets sample_impl
      "\<lparr>to_client = [], send_results = [-1], sent = []\<rparr>" "-1"
      "\<lparr>to_client = [], send_results = [], sent = [[]]\<rparr>"]
    network_send_status [of "[192, 0]" 2 peer_sockets sample_impl
      "\<lparr>to_client = [], send_results = [1], sent = []\<rparr>" 1
      "\<lparr>to_client = [], send_results = [], sent = [[192]]\<rparr>"]
  by (simp add: peer_sockets_def peer_send_def)

subsection \<open>Publishing\<close>

text \<open>C1: every run of \<^verbatim>\<open>smqtt_publish\<close> over any transport is a run of the publisher's state machine: the
  PUBLISH packet with the next packet identifier (the current one at quality 0), then at quality 1 one reply, at quality 2 a reply, the
  PUBREL packet for a matching PUBREC, and a last reply; the state the machine ends in is the status
  returned. Recording the events changes nothing of the run.\<close>

theorem publish_refines_protocol:
  assumes "connected c" "qos \<le> QoS2" "length (publish_wire (topic, 0, qos, retain, msg)) \<le> BUFFER_SIZE"
    "length (send_buffer g) = BUFFER_SIZE"
    "smqtt_publish c topic msg qos retain g = Some (st, c', g')"
  shows "publish_packet_id c' = publish_packet_id c + (if qos = QoS0 then 0 else 1) \<and>
    (\<exists>tr. smqtt_publish (traced_client c) topic msg qos retain (traced_env [] g) =
      Some (st, traced_client c', traced_env tr g') \<and>
    pub_run qos (publish_packet_id c') (publish_wire (topic, publish_packet_id c', qos, retain, msg)) Start tr (Done st))"
  using publish_follows [OF assms] unfolding publish_conforms_def .

text \<open>A transport that answers every receive with one packet, for runs without an operating system.\<close>

definition echo_server :: "bytes \<Rightarrow> (unit, unit) server_t" where
  "echo_server packet =
     \<lparr>sv_connect = local_connect, sv_send = local_send,
      sv_receive = (\<lambda>i b n w. Some (int (length packet), packet @ drop (length packet) b, i, w)),
      sv_disconnect = local_disconnect, impl = Some ()\<rparr>"

definition echo_client :: "bytes \<Rightarrow> (unit, unit) smqtt_client" where
  "echo_client packet = \<lparr>hostname = [49], clientid = [97], port = 1883, connected = True, publish_packet_id = 8,
     subscribe_packet_id = 1, unsubscribe_packet_id = 0, server = echo_server packet\<rparr>"

lemma echo_await:
  assumes "4 \<le> length (receive_buffer g)" "i < 256"
    "server c = echo_server (ack_wire (PACK_MESSAGE_TYPE PUBACK) i)"
  shows "\<exists>b. await c g = Some (Some (Puback_body i), c, g\<lparr>receive_buffer := b\<rparr>)"
proof -
  let ?w = "ack_wire (PACK_MESSAGE_TYPE PUBACK) i"
  have "deserialize_response (?w @ drop 4 (receive_buffer g)) 4 = Some (Some (Puback_body i))"
    using puback.parse_wire [OF TrueI assms(2) bytes_at_whole [of ?w]] by simp
  then show ?thesis
    using assms(3)
    by (cases c, cases g) (auto simp: await_def receive_packet_def parse_received_def server_receive_def echo_server_def)
qed

lemma echo_publish:
  "\<exists>c' g'. smqtt_publish (echo_client (ack_wire (PACK_MESSAGE_TYPE PUBACK) 9)) [116] (Some [104, 105]) QoS1 True
      (initial_env ()) = Some (SMQTT_OK, c', g') \<and> publish_packet_id c' = 9"
proof -
  let ?c = "echo_client (ack_wire (PACK_MESSAGE_TYPE PUBACK) 9)\<lparr>publish_packet_id := 9\<rparr>"
  let ?w = "publish_wire ([116], 9, QoS1, True, Some [104, 105])"
  let ?mk = "\<lambda>b. make_publish_message b (of_nat BUFFER_SIZE) [116] 9 QoS1 True (Some [104, 105])"
  have "builds ?mk ?w"
    by (rule builds_publish) (simp add: sample_publish_wire BUFFER_SIZE_def)
  from builds_result [OF this, of "send_buffer (initial_env ())"] obtain b where
    b: "?mk (send_buffer (initial_env ())) = Some (b, length ?w)" by (auto simp: initial_env_def)
  let ?g = "(initial_env ())\<lparr>send_buffer := b\<rparr>"
  have t: "transmit ?mk ?c (initial_env ()) = Some (SMQTT_OK, ?c, ?g)"
    using b by (simp add: transmit_def server_send_def echo_client_def echo_server_def local_send_def initial_env_def)
  have "\<exists>b'. await ?c ?g = Some (Some (Puback_body 9), ?c, ?g\<lparr>receive_buffer := b'\<rparr>)"
    by (rule echo_await) (simp_all add: echo_client_def initial_env_def BUFFER_SIZE_def)
  then obtain b' where "await ?c ?g = Some (Some (Puback_body 9), ?c, ?g\<lparr>receive_buffer := b'\<rparr>)" ..
  with t show ?thesis by (simp add: smqtt_publish_def echo_client_def)
qed

theorem publish_refines_protocol_witness:
  "\<exists>c' g' tr. smqtt_publish (echo_client (ack_wire (PACK_MESSAGE_TYPE PUBACK) 9)) [116] (Some [104, 105]) QoS1 True
      (initial_env ()) = Some (SMQTT_OK, c', g') \<and>
    pub_run QoS1 9 (publish_wire ([116], 9, QoS1, True, Some [104, 105])) Start tr (Done SMQTT_OK)"
proof -
  from echo_publish obtain c' g' where run: "smqtt_publish (echo_client (ack_wire (PACK_MESSAGE_TYPE PUBACK) 9)) [116]
      (Some [104, 105]) QoS1 True (initial_env ()) = Some (SMQTT_OK, c', g')" "publish_packet_id c' = 9" by blast
  have "connected (echo_client (ack_wire (PACK_MESSAGE_TYPE PUBACK) 9))"
    "length (send_buffer (initial_env ())) = BUFFER_SIZE" "QoS1 \<le> QoS2"
    by (simp_all add: echo_client_def initial_env_def)
  from publish_refines_protocol [OF this(1,3) sample_packets(1) this(2) run(1)] run show ?thesis by auto
qed

text \<open>C9: \<^verbatim>\<open>SMQTT_OK\<close> of \<^verbatim>\<open>smqtt_publish\<close> is earned: at quality 1 the packet was sent and the reply parsed as PUBACK
  with its identifier; at quality 2 the run is exactly PUBLISH, PUBREC, PUBREL, PUBCOMP, all with the
  identifier of the publication.\<close>

theorem publish_ok_acknowledged:
  assumes "connected c" "qos = QoS1 \<or> qos = QoS2"
    "length (publish_wire (topic, 0, qos, retain, msg)) \<le> BUFFER_SIZE" "length (send_buffer g) = BUFFER_SIZE"
    "smqtt_publish c topic msg qos retain g = Some (SMQTT_OK, c', g')"
  shows "\<exists>tr i w. smqtt_publish (traced_client c) topic msg qos retain (traced_env [] g) =
      Some (SMQTT_OK, traced_client c', traced_env tr g') \<and>
    i = publish_packet_id c' \<and> w = publish_wire (topic, i, qos, retain, msg) \<and>
    (if qos = QoS1
     then \<exists>n b. tr = [Tx w SMQTT_NET_OK, Rx n b] \<and> parsed n b (Some (Puback_body i))
     else \<exists>n b n' b'. tr = [Tx w SMQTT_NET_OK, Rx n b,
         Tx (ack_wire (PACK_MESSAGE_TYPE PUBREL OR 2) i) SMQTT_NET_OK, Rx n' b'] \<and>
       parsed n b (Some (Pubrec_body i)) \<and> parsed n' b' (Some (Pubcomp_body i)))"
proof -
  have "qos \<le> QoS2" using assms(2) by auto
  from publish_follows [OF assms(1) this assms(3-5)] show ?thesis
    unfolding publish_conforms_def using assms(2) pub_ok1 pub_ok2 by fastforce
qed

theorem publish_ok_acknowledged_witness:
  "\<exists>c' g' n b. smqtt_publish (echo_client (ack_wire (PACK_MESSAGE_TYPE PUBACK) 9)) [116] (Some [104, 105]) QoS1 True
      (initial_env ()) = Some (SMQTT_OK, c', g') \<and> parsed n b (Some (Puback_body 9))"
proof -
  from echo_publish obtain c' g' where run: "smqtt_publish (echo_client (ack_wire (PACK_MESSAGE_TYPE PUBACK) 9)) [116]
      (Some [104, 105]) QoS1 True (initial_env ()) = Some (SMQTT_OK, c', g')" "publish_packet_id c' = 9" by blast
  have "connected (echo_client (ack_wire (PACK_MESSAGE_TYPE PUBACK) 9))"
    "length (send_buffer (initial_env ())) = BUFFER_SIZE" "QoS1 = QoS1 \<or> QoS1 = QoS2"
    by (simp_all add: echo_client_def initial_env_def)
  from publish_ok_acknowledged [OF this(1,3) sample_packets(1) this(2) run(1)] run show ?thesis by auto
qed

text \<open>C38: the 256th publication at quality 1 or 2 cannot succeed, nor can any later one until the counter wraps:
  with a packet identifier of 256 or more no reply of the peer makes \<^verbatim>\<open>smqtt_publish\<close> return
  \<^verbatim>\<open>SMQTT_OK\<close>.\<close>

theorem publish_wide_id_fails:
  assumes "connected c" "qos = QoS1 \<or> qos = QoS2" "256 \<le> publish_packet_id c + 1"
    "length (publish_wire (topic, 0, qos, retain, msg)) \<le> BUFFER_SIZE" "length (send_buffer g) = BUFFER_SIZE"
  shows "smqtt_publish c topic msg qos retain g \<noteq> Some (SMQTT_OK, c', g')"
proof
  assume run: "smqtt_publish c topic msg qos retain g = Some (SMQTT_OK, c', g')"
  have q: "qos \<noteq> QoS0" "qos \<le> QoS2" using assms(2) by auto
  note conforms = publish_follows [OF assms(1) q(2) assms(4,5) run, unfolded publish_conforms_def]
  with pub_ok_small [OF _ assms(2)] have "publish_packet_id c' < 256" by blast
  moreover have "publish_packet_id c' = publish_packet_id c + 1" using conforms q(1) by simp
  ultimately show False using assms(3) by simp
qed

theorem publish_wide_id_fails_witness:
  "smqtt_publish (sample_client\<lparr>publish_packet_id := 255\<rparr>) [116] (Some [104, 105]) QoS1 True (sample_env [[64, 2], [1, 0]] []) \<noteq>
    Some (SMQTT_OK, sample_client, sample_env [] [])"
  using sample_packets(1)
  by (intro publish_wide_id_fails) (simp_all add: sample_client_def sample_env_def initial_env_def)

subsection \<open>Failures the client does not see\<close>

text \<open>A closed connection goes unnoticed: when the peer has closed the stream, every \<^verbatim>\<open>recv\<close> returns 0, and if
  the last packet received was a PINGRESP then \<^verbatim>\<open>smqtt_ping\<close> parses it again from the buffer and returns
  \<^verbatim>\<open>SMQTT_OK\<close>.\<close>

theorem ping_ok_after_close:
  assumes "fd_live im" "smqtt_client.server c = create_network_server api im" "buffers_ok g" "connected c"
    "take 2 (receive_buffer g) = [PACK_MESSAGE_TYPE PINGRESP, 0]"
    "\<And>n w. \<exists>w'. sk_recv api (socket im) n w = (0, [], w')"
    "\<And>bs w. \<exists>w'. sk_send api (socket im) bs w = (int (length bs), w')"
    "\<And>n fds t w. \<exists>fds' w'. sk_select api n fds t w = (1, fds', w')"
  shows "\<exists>c' g'. smqtt_ping c g = Some (SMQTT_OK, c', g')"
proof -
  let ?w = "[PACK_MESSAGE_TYPE PINGREQ, 0]"
  have b: "length (send_buffer g) = BUFFER_SIZE" "length (receive_buffer g) = BUFFER_SIZE"
    using assms(3) by (simp_all add: buffers_ok_def quiet_tail_def)
  from builds_result [OF builds_fixed(5) b(1), of "of_nat BUFFER_SIZE"] obtain b' where
    b': "make_pingreq_message (send_buffer g) (of_nat BUFFER_SIZE) = Some (b', length ?w)" "length b' = BUFFER_SIZE"
      "take (length ?w) b' = ?w" .
  from assms(7) [of ?w "outside g"] obtain w1 where s: "sk_send api (socket im) ?w (outside g) = (2, w1)" by auto
  have "take 2 b' = ?w" using b'(3) by (simp add: numeral_2_eq_2)
  with s b'(2) have "network_send api (Some im) b' 2 (outside g) = Some (SMQTT_NET_OK, Some im, w1)"
    by (simp add: network_send_result BUFFER_SIZE_def)
  then have t: "transmit (\<lambda>b. make_pingreq_message b (of_nat BUFFER_SIZE)) c g =
      Some (SMQTT_OK, c, g\<lparr>send_buffer := b', outside := w1\<rparr>)"
    using b' assms(2) by (simp add: transmit_def server_send_def create_network_server_def)
  from assms(8) [of "socket im + 1" "[socket im]" "(0, 1000)" w1] obtain fds w2 where
    sel: "sk_select api (socket im + 1) [socket im] (0, 1000) w1 = (1, fds, w2)" by blast
  have "2 \<le> length (receive_buffer g)" using b(2) by (simp add: BUFFER_SIZE_def)
  from network_receive_eof [OF assms(1) this sel _ assms(6)] obtain w3 where
    r: "network_receive api (Some im) (receive_buffer g) (of_nat BUFFER_SIZE) w1 =
      Some (2, receive_buffer g, Some (im\<lparr>read_fds := fds\<rparr>), w3)" by auto
  have "bytes_at (receive_buffer g) 0 [PACK_MESSAGE_TYPE PINGRESP, 0]"
    using assms(5) \<open>2 \<le> length (receive_buffer g)\<close> by (simp add: bytes_at_def numeral_2_eq_2)
  from pingresp.parse_wire [OF TrueI TrueI this] have "deserialize_response (receive_buffer g) 2 = Some (Some Pingresp_body)"
    by (simp add: numeral_2_eq_2)
  with r assms(2) have "\<exists>c' g'. await c (g\<lparr>send_buffer := b', outside := w1\<rparr>) = Some (Some Pingresp_body, c', g')"
    by (simp add: await_def receive_packet_def parse_received_def server_receive_def create_network_server_def)
  with t assms(4) show ?thesis by (auto simp: smqtt_ping_def)
qed

text \<open>An operating system whose only connection has been closed by the peer.\<close>

definition closed_sockets :: "unit sockets_api" where
  "closed_sockets =
     \<lparr>sk_htons = id, sk_inet_addr = (\<lambda>_. 0), sk_socket = (\<lambda>w. (3, w)), sk_connect = (\<lambda>_ _ w. (0, w)),
      sk_setrcvtimeo = (\<lambda>_ _ w. (0, w)), sk_send = (\<lambda>_ bs w. (int (length bs), w)),
      sk_select = (\<lambda>_ fds _ w. (1, fds, w)), sk_recv = (\<lambda>_ _ w. (0, [], w)), sk_close = (\<lambda>_ w. (0, w))\<rparr>"

definition closed_client :: "(server_impl_t, unit) smqtt_client" where
  "closed_client = \<lparr>hostname = [49], clientid = [97], port = 1883, connected = True, publish_packet_id = 0,
     subscribe_packet_id = 1, unsubscribe_packet_id = 0,
     server = create_network_server closed_sockets sample_impl\<rparr>"

theorem ping_ok_after_close_witness:
  "\<exists>c' g'. smqtt_ping closed_client ((initial_env ())\<lparr>receive_buffer := [208, 0] @ replicate 1022 0\<rparr>) =
    Some (SMQTT_OK, c', g')"
proof (rule ping_ok_after_close)
  show "fd_live sample_impl" "smqtt_client.server closed_client = create_network_server closed_sockets sample_impl"
    by (simp_all add: fd_live_def sample_impl_def FD_SETSIZE_def closed_client_def)
  show "buffers_ok ((initial_env ())\<lparr>receive_buffer := [208, 0] @ replicate 1022 0\<rparr>)"
    by (auto simp: buffers_ok_def initial_env_def quiet_tail_def BUFFER_SIZE_def rx_limit_def nth_append nth_Cons')
qed (simp_all add: closed_client_def closed_sockets_def PACK_MESSAGE_TYPE_def)

text \<open>C39: a short write of the DISCONNECT packet makes \<^verbatim>\<open>smqtt_disconnect\<close> undefined: \<^verbatim>\<open>network_send\<close> frees the
  connection's state, and \<^verbatim>\<open>server_disconnect\<close> follows the null pointer.\<close>

theorem disconnect_short_write_undefined:
  assumes "smqtt_client.server c = create_network_server api im" "length (send_buffer g) = BUFFER_SIZE"
    "sk_send api (socket im) [PACK_MESSAGE_TYPE DISCONNECT, 0] (outside g) = (r, w')" "0 \<le> r" "r < 2"
  shows "smqtt_disconnect c g = None"
proof -
  let ?w = "[PACK_MESSAGE_TYPE DISCONNECT, 0]"
  from builds_result [OF builds_fixed(6) assms(2), of "of_nat BUFFER_SIZE"] obtain b' where
    b': "make_disconnect_message (send_buffer g) (of_nat BUFFER_SIZE) = Some (b', length ?w)" "length b' = BUFFER_SIZE"
      "take (length ?w) b' = ?w" .
  have "r = 0 \<or> r = 1" using assms(4,5) by auto
  then have "(word_of_int r :: size_t) < 2" by auto
  moreover have "take 2 b' = ?w" using b'(3) by (simp add: numeral_2_eq_2)
  ultimately have "network_send api (Some im) b' 2 (outside g) = Some (SMQTT_NET_SOCKET, None, w')"
    using assms(3) b'(2) by (simp add: network_send_result BUFFER_SIZE_def)
  then have "\<exists>c' g'. transmit (\<lambda>b. make_disconnect_message b (of_nat BUFFER_SIZE)) c g = Some (SMQTT_SOCKET, c', g') \<and>
      impl (smqtt_client.server c') = None \<and> sv_disconnect (smqtt_client.server c') = network_disconnect api"
    using b' assms(1) by (simp add: transmit_def server_send_def create_network_server_def)
  then show ?thesis
    by (auto simp: smqtt_disconnect_def server_disconnect_def network_disconnect_def)
qed

theorem disconnect_short_write_undefined_witness:
  "smqtt_disconnect sample_client (sample_env [] [1]) = None"
  by (rule disconnect_short_write_undefined [of _ peer_sockets sample_impl _ 1])
    (simp_all add: sample_client_def sample_env_def initial_env_def peer_sockets_def peer_send_def)

end
