(* ===== verification/Queue.thy ===== *)
theory Queue
  imports Messages
begin

section \<open>The queues of the multithreaded client (\<^verbatim>\<open>connection.c\<close>)\<close>

text \<open>
  The doubly linked queues of \<^verbatim>\<open>libsmqttclient_mt/connection.c\<close>, lines 25 to 150, on an explicit heap: a
  map from addresses to entries, in which a freed entry is absent and following a pointer to it is
  undefined (\<^const>\<open>None\<close>). \<^verbatim>\<open>malloc\<close> is an argument of \<^verbatim>\<open>enqueue\<close>, the address it returned; the facts about
  \<^verbatim>\<open>enqueue\<close> suppose that it was not in use.

  \<^verbatim>\<open>dequeue\<close> leaves the \<^verbatim>\<open>previous\<close> pointer of the new first entry pointing to the freed one, so the
  queues of buffer slots, which are emptied by \<^verbatim>\<open>dequeue\<close>, are only forward linked (\<open>queue_at\<close>), while
  \<^verbatim>\<open>remove_from_queue\<close> needs both directions (\<open>dqueue_at\<close>), which the queue of waiting requests keeps.
\<close>

subsection \<open>Data\<close>

record 'a queue_entry =
  payload :: 'a
  previous :: "nat option"
  next_entry :: "nat option"

record queue_t =
  head :: "nat option"
  tail :: "nat option"

type_synonym 'a heap = "nat \<Rightarrow> 'a queue_entry option"

text \<open>
  A request waiting for a reply. Callbacks and their contexts are opaque; \<^const>\<open>None\<close> is \<^verbatim>\<open>NULL\<close>. The union
  is a datatype. The packet identifiers of the PUBACK, PUBREC, PUBCOMP and UNSUBACK structs share their
  place in the union; those of the PUBREL and SUBACK structs lie behind pointers.
\<close>

datatype waiting_data =
    Id_data u16
  | Pubrel_data bytes bytes bool u16
  | Suback_data "nat option" u16
  | No_data

record waiting_t =
  wtype :: message_type_t
  callback :: "nat option"
  cb_context :: nat
  wdata :: waiting_data

subsection \<open>Operations\<close>

definition init_queue :: queue_t where
  "init_queue = \<lparr>head = None, tail = None\<rparr>"

definition dequeue :: "queue_t \<Rightarrow> 'a heap \<Rightarrow> ('a option \<times> queue_t \<times> 'a heap) option" where
  "dequeue queue h =
     (case head queue of
        None \<Rightarrow> Some (None, queue, h)
      | Some first \<Rightarrow> do {
          queue \<leftarrow> (if tail queue = head queue then Some (queue\<lparr>head := None, tail := None\<rparr>)
                    else do { e \<leftarrow> h first; Some (queue\<lparr>head := next_entry e\<rparr>) });
          e \<leftarrow> h first;
          Some (Some (payload e), queue, h(first := None))
        })"

definition remove_from_queue :: "queue_t \<Rightarrow> nat \<Rightarrow> 'a heap \<Rightarrow> (queue_t \<times> 'a heap) option" where
  "remove_from_queue queue entry h =
     do {
       e \<leftarrow> h entry;
       (queue, h) \<leftarrow> (case previous e of
           None \<Rightarrow> Some (queue\<lparr>head := next_entry e\<rparr>, h)
         | Some p \<Rightarrow> do { pe \<leftarrow> h p; Some (queue, h(p \<mapsto> pe\<lparr>next_entry := next_entry e\<rparr>)) });
       e \<leftarrow> h entry;
       (case next_entry e of
           None \<Rightarrow> Some (queue\<lparr>tail := previous e\<rparr>, h)
         | Some n \<Rightarrow> do { ne \<leftarrow> h n; Some (queue, h(n \<mapsto> ne\<lparr>previous := previous e\<rparr>)) })
     }"

definition enqueue :: "nat \<Rightarrow> queue_t \<Rightarrow> 'a \<Rightarrow> 'a heap \<Rightarrow> (queue_t \<times> 'a heap) option" where
  "enqueue entry queue pl h =
     do {
       let e = \<lparr>payload = pl, previous = None, next_entry = None\<rparr>;
       let h = h(entry \<mapsto> e);
       case head queue of
         None \<Rightarrow> Some (queue\<lparr>head := Some entry, tail := Some entry\<rparr>, h)
       | Some _ \<Rightarrow> do {
           let h = h(entry \<mapsto> e\<lparr>previous := tail queue\<rparr>);
           t \<leftarrow> tail queue;
           te \<leftarrow> h t;
           Some (queue\<lparr>tail := Some entry\<rparr>, h(t \<mapsto> te\<lparr>next_entry := Some entry\<rparr>))
         }
     }"

text \<open>
  The packet identifier of a waiting request read through the struct for \<open>type\<close>: undefined when the
  union holds another struct there. \<open>entry_test\<close> is the switch of the search loop: \<open>Matched\<close> takes the
  entry, \<open>Stop\<close> is the \<^verbatim>\<open>return true\<close> after a SUBACK entry with another identifier, which leaves
  \<^verbatim>\<open>*waiting\<close> unset.
\<close>

fun waiting_id :: "message_type_t \<Rightarrow> waiting_data \<Rightarrow> u16 option" where
  "waiting_id PUBREL (Pubrel_data _ _ _ i) = Some i"
| "waiting_id SUBACK (Suback_data _ i) = Some i"
| "waiting_id PUBACK (Id_data i) = Some i"
| "waiting_id PUBREC (Id_data i) = Some i"
| "waiting_id PUBCOMP (Id_data i) = Some i"
| "waiting_id UNSUBACK (Id_data i) = Some i"
| "waiting_id _ _ = None"

datatype test_result = Matched | Stop | Continue

definition entry_test :: "message_type_t \<Rightarrow> u16 \<Rightarrow> waiting_t \<Rightarrow> test_result option" where
  "entry_test type packet_id w =
     (if wtype w = type then
        (if type = PINGRESP then Some Matched
         else if type \<in> {PUBACK, PUBREC, PUBCOMP, PUBREL, UNSUBACK} then do {
           i \<leftarrow> waiting_id type (wdata w);
           Some (if i = packet_id then Matched else Continue)
         }
         else if type = SUBACK then do {
           i \<leftarrow> waiting_id type (wdata w);
           Some (if i = packet_id then Matched else Stop)
         }
         else Some Continue)
      else Some Continue)"

text \<open>The loop follows pointers, so it may run forever on a cyclic list.\<close>

partial_function (option) search_loop ::
  "message_type_t \<Rightarrow> u16 \<Rightarrow> queue_t \<Rightarrow> nat option \<Rightarrow> waiting_t heap \<Rightarrow>
    (bool \<times> waiting_t option \<times> queue_t \<times> waiting_t heap) option" where
  "search_loop type packet_id queue curr_entry h =
     (case curr_entry of
        None \<Rightarrow> Some (False, None, queue, h)
      | Some a \<Rightarrow> do {
          e \<leftarrow> h a;
          r \<leftarrow> entry_test type packet_id (payload e);
          case r of
            Matched \<Rightarrow> do {
              (queue, h) \<leftarrow> remove_from_queue queue a h;
              Some (True, Some (payload e), queue, h)
            }
          | Stop \<Rightarrow> Some (True, None, queue, h)
          | Continue \<Rightarrow> search_loop type packet_id queue (next_entry e) h
        })"

definition dequeue_by_type_and_id ::
  "queue_t \<Rightarrow> message_type_t \<Rightarrow> u16 \<Rightarrow> waiting_t heap \<Rightarrow>
    (bool \<times> waiting_t option \<times> queue_t \<times> waiting_t heap) option" where
  "dequeue_by_type_and_id queue type packet_id h = search_loop type packet_id queue (head queue) h"

subsection \<open>What a queue holds\<close>

text \<open>
  \<open>first as nxt\<close> is the pointer to a chain of entries \<open>as\<close> that continues with \<open>nxt\<close>, \<open>final p as\<close> the pointer to
  its last entry. \<open>fwd\<close> and \<open>dll\<close> say that the chain is in the heap with the given payloads.
\<close>

definition first :: "nat list \<Rightarrow> nat option \<Rightarrow> nat option" where
  "first as nxt = (case as of [] \<Rightarrow> nxt | a # _ \<Rightarrow> Some a)"

definition final :: "nat option \<Rightarrow> nat list \<Rightarrow> nat option" where
  "final p as = (if as = [] then p else Some (last as))"

fun fwd :: "'a heap \<Rightarrow> nat list \<Rightarrow> nat option \<Rightarrow> 'a list \<Rightarrow> bool" where
  "fwd h [] nxt [] \<longleftrightarrow> True"
| "fwd h (a # as) nxt (x # xs) \<longleftrightarrow>
     (case h a of None \<Rightarrow> False | Some e \<Rightarrow> payload e = x \<and> next_entry e = first as nxt) \<and> fwd h as nxt xs"
| "fwd h _ nxt _ \<longleftrightarrow> False"

fun dll :: "'a heap \<Rightarrow> nat option \<Rightarrow> nat list \<Rightarrow> nat option \<Rightarrow> 'a list \<Rightarrow> bool" where
  "dll h p [] nxt [] \<longleftrightarrow> True"
| "dll h p (a # as) nxt (x # xs) \<longleftrightarrow>
     h a = Some \<lparr>payload = x, previous = p, next_entry = first as nxt\<rparr> \<and> dll h (Some a) as nxt xs"
| "dll h p _ nxt _ \<longleftrightarrow> False"

definition queue_at :: "'a heap \<Rightarrow> queue_t \<Rightarrow> nat list \<Rightarrow> 'a list \<Rightarrow> bool" where
  "queue_at h q as xs \<longleftrightarrow> distinct as \<and> head q = first as None \<and> tail q = final None as \<and> fwd h as None xs"

definition dqueue_at :: "'a heap \<Rightarrow> queue_t \<Rightarrow> nat list \<Rightarrow> 'a list \<Rightarrow> bool" where
  "dqueue_at h q as xs \<longleftrightarrow> distinct as \<and> head q = first as None \<and> tail q = final None as \<and> dll h None as None xs"

lemma first_simps [simp]: "first [] nxt = nxt" "first (a # as) nxt = Some a"
  by (simp_all add: first_def)

lemma final_simps [simp]: "final p [] = p" "final p (a # as) = final (Some a) as" "final p (as @ bs) = final (final p as) bs"
  by (simp_all add: final_def)

lemma first_append [simp]: "first (as @ bs) nxt = first as (first bs nxt)"
  by (cases as) auto

lemma dll_fwd: "dll h p as nxt xs \<Longrightarrow> fwd h as nxt xs"
  by (induction h p as nxt xs rule: dll.induct) auto

lemma dqueue_queue: "dqueue_at h q as xs \<Longrightarrow> queue_at h q as xs"
  by (auto simp: dqueue_at_def queue_at_def dll_fwd)

lemma fwd_length: "fwd h as nxt xs \<Longrightarrow> length as = length xs"
  by (induction h as nxt xs rule: fwd.induct) auto

lemma dll_length: "dll h p as nxt xs \<Longrightarrow> length as = length xs"
  by (induction h p as nxt xs rule: dll.induct) auto

text \<open>Frames: only the entries of the chain matter.\<close>

lemma fwd_frame: "\<forall>a \<in> set as. h' a = h a \<Longrightarrow> fwd h' as nxt xs = fwd h as nxt xs"
  by (induction h as nxt xs rule: fwd.induct) auto

lemma dll_frame: "\<forall>a \<in> set as. h' a = h a \<Longrightarrow> dll h' p as nxt xs = dll h p as nxt xs"
  by (induction h p as nxt xs rule: dll.induct) auto

lemma fwd_upd [simp]: "a \<notin> set as \<Longrightarrow> fwd (h(a := v)) as nxt xs = fwd h as nxt xs"
  by (rule fwd_frame) auto

lemma dll_upd [simp]: "a \<notin> set as \<Longrightarrow> dll (h(a := v)) p as nxt xs = dll h p as nxt xs"
  by (rule dll_frame) auto

text \<open>Chains put together.\<close>

lemma dll_append:
  "length as = length xs \<Longrightarrow>
    dll h p (as @ bs) nxt (xs @ ys) \<longleftrightarrow> dll h p as (first bs nxt) xs \<and> dll h (final p as) bs nxt ys"
  by (induction as xs arbitrary: p rule: list_induct2) auto

lemma fwd_append:
  "length as = length xs \<Longrightarrow>
    fwd h (as @ bs) nxt (xs @ ys) \<longleftrightarrow> fwd h as (first bs nxt) xs \<and> fwd h bs nxt ys"
  by (induction as xs rule: list_induct2) (auto split: option.splits)

lemma fwd_alive: "fwd h as nxt xs \<Longrightarrow> a \<in> set as \<Longrightarrow> h a \<noteq> None"
  by (induction h as nxt xs rule: fwd.induct) (auto split: option.splits)

lemma dll_alive: "dll h p as nxt xs \<Longrightarrow> a \<in> set as \<Longrightarrow> h a \<noteq> None"
  by (induction h p as nxt xs rule: dll.induct) auto

lemma snoc_lists:
  assumes "length (as @ [t]) = length xs"
  obtains ys y where "xs = ys @ [y]" "length as = length ys"
  using assms by (cases xs rule: rev_cases) auto

subsection \<open>The operations on what the queue holds\<close>

lemma enqueue_queue:
  assumes "queue_at h q as xs" "h a = None"
  shows "\<exists>q' h'. enqueue a q x h = Some (q', h') \<and> queue_at h' q' (as @ [a]) (xs @ [x]) \<and>
    (\<forall>b. b \<notin> insert a (set as) \<longrightarrow> h' b = h b)"
proof -
  from assms have f: "fwd h as None xs" "distinct as" "a \<notin> set as"
    using fwd_alive [of h as None xs a] by (auto simp: queue_at_def)
  show ?thesis
  proof (cases as rule: rev_cases)
    case Nil
    with f assms(1) show ?thesis by (cases xs) (auto simp: enqueue_def queue_at_def)
  next
    case (snoc bs t)
    with fwd_length [OF f(1)] have "length (bs @ [t]) = length xs" by simp
    then obtain ys y where xs: "xs = ys @ [y]" and l: "length bs = length ys" by (rule snoc_lists)
    with f snoc obtain e where t: "fwd h bs (Some t) ys" "h t = Some e" "payload e = y" "next_entry e = None"
      by (auto simp: fwd_append split: option.splits)
    let ?h = "h(a \<mapsto> \<lparr>payload = x, previous = Some t, next_entry = None\<rparr>, t \<mapsto> e\<lparr>next_entry := Some a\<rparr>)"
    have hd: "head q = first (bs @ [t]) None" "tail q = Some t" "head q \<noteq> None"
      using assms(1) snoc by (cases bs; simp add: queue_at_def)+
    have "enqueue a q x h = Some (q\<lparr>tail := Some a\<rparr>, ?h)"
      using hd t(2) f(3) snoc by (auto simp: enqueue_def split: option.splits)
    moreover have "queue_at ?h (q\<lparr>tail := Some a\<rparr>) (as @ [a]) (xs @ [x])"
      using hd f snoc xs l t by (auto simp: queue_at_def fwd_append)
    ultimately show ?thesis using snoc by auto
  qed
qed

lemma enqueue_dqueue:
  assumes "dqueue_at h q as xs" "h a = None"
  shows "\<exists>q' h'. enqueue a q x h = Some (q', h') \<and> dqueue_at h' q' (as @ [a]) (xs @ [x]) \<and>
    (\<forall>b. b \<notin> insert a (set as) \<longrightarrow> h' b = h b)"
proof -
  from assms have f: "dll h None as None xs" "distinct as" "a \<notin> set as"
    using dll_alive [of h None as None xs a] by (auto simp: dqueue_at_def)
  show ?thesis
  proof (cases as rule: rev_cases)
    case Nil
    with f assms(1) show ?thesis by (cases xs) (auto simp: enqueue_def dqueue_at_def)
  next
    case (snoc bs t)
    with dll_length [OF f(1)] have "length (bs @ [t]) = length xs" by simp
    then obtain ys y where xs: "xs = ys @ [y]" and l: "length bs = length ys" by (rule snoc_lists)
    with f snoc have t: "dll h None bs (Some t) ys"
      "h t = Some \<lparr>payload = y, previous = final None bs, next_entry = None\<rparr>"
      by (auto simp: dll_append)
    let ?h = "h(a \<mapsto> \<lparr>payload = x, previous = Some t, next_entry = None\<rparr>,
      t \<mapsto> \<lparr>payload = y, previous = final None bs, next_entry = Some a\<rparr>)"
    have hd: "head q = first (bs @ [t]) None" "tail q = Some t" "head q \<noteq> None"
      using assms(1) snoc by (cases bs; simp add: dqueue_at_def)+
    have "enqueue a q x h = Some (q\<lparr>tail := Some a\<rparr>, ?h)"
      using hd t(2) f(3) snoc by (auto simp: enqueue_def split: option.splits)
    moreover have "dqueue_at ?h (q\<lparr>tail := Some a\<rparr>) (as @ [a]) (xs @ [x])"
      using hd f snoc xs l t by (auto simp: dqueue_at_def dll_append)
    ultimately show ?thesis using snoc by auto
  qed
qed

lemma dequeue_queue:
  assumes "queue_at h q (a # as) (x # xs)"
  shows "\<exists>q'. dequeue q h = Some (Some x, q', h(a := None)) \<and> queue_at (h(a := None)) q' as xs"
proof -
  from assms have f: "fwd h (a # as) None (x # xs)" "a \<notin> set as" "distinct as" "head q = Some a"
    "tail q = final (Some a) as" by (auto simp: queue_at_def)
  then obtain e where e: "h a = Some e" "payload e = x" "next_entry e = first as None" "fwd h as None xs"
    by (auto split: option.splits)
  show ?thesis
  proof (cases as)
    case Nil
    with f e show ?thesis by (auto simp: dequeue_def queue_at_def)
  next
    case (Cons b bs)
    with f have "tail q \<noteq> head q" by (auto simp: final_def)
    with f e Cons show ?thesis by (auto simp: dequeue_def queue_at_def)
  qed
qed

lemma dequeue_empty: "queue_at h q [] [] \<Longrightarrow> dequeue q h = Some (None, q, h)"
  by (simp add: queue_at_def dequeue_def)

text \<open>Unlinking an entry from the middle: its neighbours are joined and nothing else changes.\<close>

lemma dll_set_next:
  assumes "dll h p as nxt xs" "as \<noteq> []" "distinct as" "h (last as) = Some e"
  shows "dll (h(last as \<mapsto> e\<lparr>next_entry := n\<rparr>)) p as n xs"
proof (cases as rule: rev_cases)
  case (snoc bs t)
  with dll_length [OF assms(1)] have "length (bs @ [t]) = length xs" by simp
  then obtain ys y where "xs = ys @ [y]" "length bs = length ys" by (rule snoc_lists)
  with assms snoc show ?thesis by (auto simp: dll_append)
qed (use assms in simp)

lemma dll_set_previous:
  assumes "dll h p (b # bs) nxt ys" "b \<notin> set bs" "h b = Some e"
  shows "dll (h(b \<mapsto> e\<lparr>previous := p'\<rparr>)) p' (b # bs) nxt ys"
  using assms by (cases ys) auto

lemma remove_dqueue:
  assumes "dqueue_at h q (as @ a # bs) (xs @ x # ys)" "length as = length xs"
  shows "\<exists>q' h'. remove_from_queue q a h = Some (q', h') \<and> dqueue_at h' q' (as @ bs) (xs @ ys) \<and>
    (\<forall>c. c \<notin> set (as @ bs) \<longrightarrow> h' c = h c)"
proof -
  from assms have d: "distinct as" "distinct bs" "a \<notin> set as" "a \<notin> set bs" "set as \<inter> set bs = {}"
    and q: "head q = first as (Some a)" "tail q = final (Some a) bs"
    and l: "dll h None as (Some a) xs" "dll h (Some a) bs None ys"
    and e: "h a = Some \<lparr>payload = x, previous = final None as, next_entry = first bs None\<rparr>"
    by (auto simp: dqueue_at_def dll_append final_def)
  obtain q1 h1 where left: "(case final None as of None \<Rightarrow> Some (q\<lparr>head := first bs None\<rparr>, h)
      | Some p \<Rightarrow> do { pe \<leftarrow> h p; Some (q, h(p \<mapsto> pe\<lparr>next_entry := first bs None\<rparr>)) }) = Some (q1, h1)"
    "head q1 = first as (first bs None)" "tail q1 = tail q" "dll h1 None as (first bs None) xs"
    "\<forall>c. c \<notin> set as \<longrightarrow> h1 c = h c"
  proof (cases as)
    case Nil
    with l(1) show thesis by (intro that [of "q\<lparr>head := first bs None\<rparr>" h]) (auto elim: dll.elims)
  next
    case Cons
    then have "last as \<in> set as" by simp
    with dll_alive [OF l(1)] obtain pe where pe: "h (last as) = Some pe" by blast
    from dll_set_next [OF l(1) _ d(1) this, of "first bs None"] Cons pe q(1) show thesis
      by (intro that [of q]) (auto simp: final_def)
  qed
  from left(5) d have h1: "h1 a = h a" "dll h1 (Some a) bs None ys"
    using l(2) dll_frame [of bs h1 h "Some a" None ys] by auto
  show ?thesis
  proof (cases bs)
    case Nil
    with e left h1 d have "remove_from_queue q a h = Some (q1\<lparr>tail := final None as\<rparr>, h1)"
      by (simp add: remove_from_queue_def cong: option.case_cong)
    with Nil left d h1 show ?thesis by (cases ys) (auto simp: dqueue_at_def)
  next
    case (Cons b cs)
    with h1(2) obtain be where be: "h1 b = Some be" by (cases ys) auto
    let ?h = "h1(b \<mapsto> be\<lparr>previous := final None as\<rparr>)"
    have "dll ?h (final None as) bs None ys"
      using dll_set_previous [OF h1(2) [unfolded Cons] _ be] d(2) Cons by simp
    moreover have "dll ?h None as (first bs None) xs" using left(4) d(5) Cons by auto
    ultimately have "dqueue_at ?h q1 (as @ bs) (xs @ ys)"
      using d q left(2,3) assms(2) Cons by (auto simp: dqueue_at_def dll_append final_def)
    moreover have "remove_from_queue q a h = Some (q1, ?h)"
      using e left(1) h1(1) be Cons by (simp add: remove_from_queue_def cong: option.case_cong)
    ultimately show ?thesis using left(5) Cons by auto
  qed
qed

subsection \<open>First in, first out\<close>

fun enq_all :: "(nat \<Rightarrow> 'q \<Rightarrow> 'a \<Rightarrow> 's \<Rightarrow> ('q \<times> 's) option) \<Rightarrow> (nat \<times> 'a) list \<Rightarrow> 'q \<Rightarrow> 's \<Rightarrow> ('q \<times> 's) option" where
  "enq_all enq [] q s = Some (q, s)"
| "enq_all enq ((a, x) # ps) q s = do { (q, s) \<leftarrow> enq a q x s; enq_all enq ps q s }"

fun deq_all :: "('q \<Rightarrow> 's \<Rightarrow> ('a option \<times> 'q \<times> 's) option) \<Rightarrow> nat \<Rightarrow> 'q \<Rightarrow> 's \<Rightarrow> ('a option list \<times> 'q \<times> 's) option" where
  "deq_all deq 0 q s = Some ([], q, s)"
| "deq_all deq (Suc n) q s =
     do { (x, q, s) \<leftarrow> deq q s; (xs, q, s) \<leftarrow> deq_all deq n q s; Some (x # xs, q, s) }"

text \<open>
  The contract of a queue on a shared store. \<open>holds s q xs\<close> says what queue \<open>q\<close> holds in store \<open>s\<close>,
  \<open>fresh s a\<close> that address \<open>a\<close> is free for a new entry.
\<close>

locale fifo =
  fixes holds :: "'s \<Rightarrow> 'q \<Rightarrow> 'a list \<Rightarrow> bool"
    and fresh :: "'s \<Rightarrow> nat \<Rightarrow> bool"
    and empty :: 'q
    and enq :: "nat \<Rightarrow> 'q \<Rightarrow> 'a \<Rightarrow> 's \<Rightarrow> ('q \<times> 's) option"
    and deq :: "'q \<Rightarrow> 's \<Rightarrow> ('a option \<times> 'q \<times> 's) option"
  assumes holds_empty: "holds s empty []"
    and enq_law: "\<lbrakk>holds s q xs; fresh s a\<rbrakk> \<Longrightarrow>
      \<exists>q' s'. enq a q x s = Some (q', s') \<and> holds s' q' (xs @ [x]) \<and> (\<forall>b. b \<noteq> a \<longrightarrow> fresh s b \<longrightarrow> fresh s' b)"
    and deq_none: "holds s q [] \<Longrightarrow> deq q s = Some (None, q, s)"
    and deq_some: "holds s q (x # xs) \<Longrightarrow> \<exists>q' s'. deq q s = Some (Some x, q', s') \<and> holds s' q' xs"
begin

lemma enq_all_holds:
  "\<lbrakk>holds s q xs; distinct (map fst ps); \<forall>a \<in> fst ` set ps. fresh s a\<rbrakk> \<Longrightarrow>
    \<exists>q' s'. enq_all enq ps q s = Some (q', s') \<and> holds s' q' (xs @ map snd ps) \<and>
      (\<forall>b. b \<notin> fst ` set ps \<longrightarrow> fresh s b \<longrightarrow> fresh s' b)"
proof (induction ps arbitrary: q s xs)
  case (Cons p ps)
  obtain a x where p: "p = (a, x)" by (cases p)
  with Cons.prems enq_law [of s q xs a x] obtain q1 s1 where
    e: "enq a q x s = Some (q1, s1)" "holds s1 q1 (xs @ [x])" "\<forall>b. b \<noteq> a \<longrightarrow> fresh s b \<longrightarrow> fresh s1 b" by auto
  have "\<forall>b \<in> fst ` set ps. fresh s1 b" using Cons.prems e(3) p by force
  with Cons.IH [OF e(2)] Cons.prems p e(1,3) show ?case by auto
qed simp

lemma deq_all_holds:
  "holds s q (xs @ ys) \<Longrightarrow> \<exists>q' s'. deq_all deq (length xs) q s = Some (map Some xs, q', s') \<and> holds s' q' ys"
proof (induction xs arbitrary: q s)
  case (Cons x xs)
  then obtain q1 s1 where d: "deq q s = Some (Some x, q1, s1)" "holds s1 q1 (xs @ ys)"
    using deq_some [of s q x "xs @ ys"] by auto
  from Cons.IH [OF this(2)] obtain q' s' where
    "deq_all deq (length xs) q1 s1 = Some (map Some xs, q', s')" "holds s' q' ys" by blast
  with d(1) show ?case by simp
qed simp

lemma fifo_order:
  assumes "distinct (map fst ps)" "\<forall>a \<in> fst ` set ps. fresh s a"
  shows "\<exists>q s' q' s''. enq_all enq ps empty s = Some (q, s') \<and>
    deq_all deq (length ps) q s' = Some (map (Some \<circ> snd) ps, q', s'') \<and> deq q' s'' = Some (None, q', s'')"
proof -
  from enq_all_holds [OF holds_empty assms] obtain q s' where
    "enq_all enq ps empty s = Some (q, s')" "holds s' q (map snd ps @ [])" by fastforce
  with deq_all_holds [OF this(2)] deq_none show ?thesis by fastforce
qed

end

interpretation slots: fifo "\<lambda>h q xs. \<exists>as. queue_at h q as xs" "\<lambda>h a. h a = None" init_queue enqueue dequeue
proof
  fix h :: "'a heap"
  show "\<exists>as. queue_at h init_queue as []" by (intro exI [of _ "[]"]) (simp add: queue_at_def init_queue_def)
next
  fix h :: "'a heap" and q xs a x
  assume "\<exists>as. queue_at h q as xs" and a: "h a = None"
  then obtain as where as: "queue_at h q as xs" by blast
  from enqueue_queue [OF as a, of x] obtain q' h' where e: "enqueue a q x h = Some (q', h')"
    "queue_at h' q' (as @ [a]) (xs @ [x])" "\<forall>b. b \<notin> insert a (set as) \<longrightarrow> h' b = h b" by blast
  from as have "h b \<noteq> None" if "b \<in> set as" for b
    using fwd_alive [of h as None xs b] that by (simp add: queue_at_def)
  then have "\<forall>b. b \<noteq> a \<longrightarrow> h b = None \<longrightarrow> h' b = None" using e(3) by (metis insertE)
  with e show "\<exists>q' h'. enqueue a q x h = Some (q', h') \<and> (\<exists>as. queue_at h' q' as (xs @ [x])) \<and>
      (\<forall>b. b \<noteq> a \<longrightarrow> h b = None \<longrightarrow> h' b = None)" by blast
next
  fix h :: "'a heap" and q
  assume "\<exists>as. queue_at h q as []"
  then obtain as where as: "queue_at h q as []" by blast
  then have "as = []" using fwd_length [of h as None "[]"] by (simp add: queue_at_def)
  with as show "dequeue q h = Some (None, q, h)" by (simp add: dequeue_empty)
next
  fix h :: "'a heap" and q x xs
  assume "\<exists>as. queue_at h q as (x # xs)"
  then obtain as where as: "queue_at h q as (x # xs)" by blast
  then obtain b bs where "as = b # bs"
    using fwd_length [of h as None "x # xs"] by (cases as) (auto simp: queue_at_def)
  with as have "queue_at h q (b # bs) (x # xs)" by simp
  from dequeue_queue [OF this] show "\<exists>q' h'. dequeue q h = Some (Some x, q', h') \<and> (\<exists>as. queue_at h' q' as xs)" by blast
qed

subsection \<open>Searching the waiting requests\<close>

text \<open>The search on the list of requests, and the heap search implements it.\<close>

fun lookup_waiting ::
  "message_type_t \<Rightarrow> u16 \<Rightarrow> waiting_t list \<Rightarrow> (bool \<times> waiting_t option \<times> waiting_t list) option" where
  "lookup_waiting t i [] = Some (False, None, [])"
| "lookup_waiting t i (w # ws) =
     do {
       r \<leftarrow> entry_test t i w;
       case r of
         Matched \<Rightarrow> Some (True, Some w, ws)
       | Stop \<Rightarrow> Some (True, None, w # ws)
       | Continue \<Rightarrow> do { (f, m, rest) \<leftarrow> lookup_waiting t i ws; Some (f, m, w # rest) }
     }"

lemma search_refines:
  "dqueue_at h q (as @ bs) (xs @ ys) \<Longrightarrow> length as = length xs \<Longrightarrow> lookup_waiting t i ys = Some (f, m, zs) \<Longrightarrow>
    \<exists>q' h' cs. search_loop t i q (first bs None) h = Some (f, m, q', h') \<and> dqueue_at h' q' cs (xs @ zs) \<and>
      (\<forall>c. c \<notin> set (as @ bs) \<longrightarrow> h' c = h c)"
proof (induction ys arbitrary: as bs xs zs)
  case Nil
  then have "bs = []" using dll_length [of h None "as @ bs" None "xs @ []"] by (auto simp: dqueue_at_def)
  with Nil show ?case by (auto simp: search_loop.simps)
next
  case (Cons y ys)
  have "length (as @ bs) = length (xs @ y # ys)"
    using Cons.prems(1) dll_length [of h None "as @ bs" None "xs @ y # ys"] by (simp add: dqueue_at_def)
  with Cons.prems(2) obtain b cs where bs: "bs = b # cs" by (cases bs) auto
  with Cons.prems(1,2) have hb: "h b = Some \<lparr>payload = y, previous = final None as, next_entry = first cs None\<rparr>"
    by (auto simp: dqueue_at_def dll_append)
  from Cons.prems(3) obtain r where r: "entry_test t i y = Some r" by (auto simp: Option.bind_eq_Some_conv)
  note step = search_loop.simps [of t i q "Some b" h] bs hb r
  show ?case
  proof (cases r)
    case Matched
    from remove_dqueue [of h q as b cs xs y ys] Cons.prems(1,2) bs obtain q' h' where
      "remove_from_queue q b h = Some (q', h')" "dqueue_at h' q' (as @ cs) (xs @ ys)"
      "\<forall>c. c \<notin> set (as @ cs) \<longrightarrow> h' c = h c" by blast
    with Matched step Cons.prems(3) show ?thesis by (auto simp: step)
  next
    case Stop
    with step Cons.prems(1,3) show ?thesis by (auto simp: step)
  next
    case Continue
    with Cons.prems(3) r obtain zs' where z: "lookup_waiting t i ys = Some (f, m, zs')" "zs = y # zs'"
      by (auto simp: Option.bind_eq_Some_conv)
    from Cons.IH [of "as @ [b]" cs "xs @ [y]" zs'] Cons.prems(1,2) bs z(1) obtain q' h' cs' where
      "search_loop t i q (first cs None) h = Some (f, m, q', h')" "dqueue_at h' q' cs' (xs @ zs)"
      "\<forall>c. c \<notin> set (as @ bs) \<longrightarrow> h' c = h c" by (auto simp: z(2))
    with Continue show ?thesis by (auto simp: step)
  qed
qed

lemma dequeue_by_refines:
  assumes "dqueue_at h q as xs" "lookup_waiting t i xs = Some (f, m, zs)"
  shows "\<exists>q' h' cs. dequeue_by_type_and_id q t i h = Some (f, m, q', h') \<and> dqueue_at h' q' cs zs \<and>
    (\<forall>c. c \<notin> set as \<longrightarrow> h' c = h c)"
proof -
  have "head q = first as None" using assms(1) by (simp add: dqueue_at_def)
  with search_refines [of h q "[]" as "[]" xs t i f m zs] assms show ?thesis
    by (simp add: dequeue_by_type_and_id_def)
qed

text \<open>Where the search on the list is undefined, reading an identifier the union does not hold, so is the loop.\<close>

lemma search_undefined:
  "dqueue_at h q (as @ bs) (xs @ ys) \<Longrightarrow> length as = length xs \<Longrightarrow> lookup_waiting t i ys = None \<Longrightarrow>
    search_loop t i q (first bs None) h = None"
proof (induction ys arbitrary: as bs xs)
  case (Cons y ys)
  have "length (as @ bs) = length (xs @ y # ys)"
    using Cons.prems(1) dll_length [of h None "as @ bs" None "xs @ y # ys"] by (simp add: dqueue_at_def)
  with Cons.prems(2) obtain b cs where bs: "bs = b # cs" by (cases bs) auto
  with Cons.prems(1,2) have "h b = Some \<lparr>payload = y, previous = final None as, next_entry = first cs None\<rparr>"
    by (auto simp: dqueue_at_def dll_append)
  moreover have "search_loop t i q (first cs None) h = None" if "lookup_waiting t i ys = None"
    using Cons.IH [of "as @ [b]" cs "xs @ [y]"] Cons.prems(1,2) bs that by simp
  ultimately show ?case
    using Cons.prems(3) bs search_loop.simps [of t i q "Some b" h]
    by (cases "entry_test t i y"; cases "lookup_waiting t i ys") (auto split: test_result.splits)
qed simp

lemma dequeue_by_undefined:
  assumes "dqueue_at h q as xs" "lookup_waiting t i xs = None"
  shows "dequeue_by_type_and_id q t i h = None"
proof -
  have "head q = first as None" using assms(1) by (simp add: dqueue_at_def)
  with search_undefined [of h q "[]" as "[]" xs t i] assms show ?thesis
    by (simp add: dequeue_by_type_and_id_def)
qed

end
