(* ===== verification/Queue_Properties.thy ===== *)
theory Queue_Properties
  imports Queue
begin

section \<open>Correctness of the queues\<close>

text \<open>
  The properties of the queue functions of \<^verbatim>\<open>connection.c\<close>: order of the slot queues, exact removal
  from the queue of waiting requests, and the two places where the code does not keep its own
  structure.
\<close>

lemma lookup_found:
  "\<forall>v \<in> set xs. entry_test t i v = Some Continue \<Longrightarrow> entry_test t i w = Some Matched \<Longrightarrow>
    lookup_waiting t i (xs @ w # ys) = Some (True, Some w, xs @ ys)"
  by (induction xs) auto

lemma lookup_absent:
  "\<forall>v \<in> set xs. entry_test t i v = Some Continue \<Longrightarrow> lookup_waiting t i xs = Some (False, None, xs)"
  by (induction xs) auto

text \<open>C20: the queues are first in, first out: payloads enqueued from an empty queue, each in a fresh entry, come
  out of \<^verbatim>\<open>dequeue\<close> in the order they went in, and then the queue is empty again; no call follows a
  dangling pointer.\<close>

theorem queue_fifo:
  assumes "distinct (map fst ps)" "\<forall>a \<in> fst ` set ps. h a = None"
  shows "\<exists>q h' q' h''. enq_all enqueue ps init_queue h = Some (q, h') \<and>
    deq_all dequeue (length ps) q h' = Some (map (Some \<circ> snd) ps, q', h'') \<and>
    dequeue q' h'' = Some (None, q', h'')"
  using assms by (rule slots.fifo_order)

theorem queue_fifo_witness:
  "\<exists>q h' q' h''. enq_all enqueue [(10, 1), (20, 2), (30, 3 :: nat)] init_queue (\<lambda>_. None) = Some (q, h') \<and>
    deq_all dequeue 3 q h' = Some ([Some 1, Some 2, Some 3], q', h'') \<and>
    dequeue q' h'' = Some (None, q', h'')"
proof -
  have "distinct (map fst [(10 :: nat, 1), (20, 2), (30, 3 :: nat)])"
    "\<forall>a \<in> fst ` set [(10 :: nat, 1), (20, 2), (30, 3 :: nat)]. (\<lambda>_. None :: nat queue_entry option) a = None" by auto
  from queue_fifo [OF this] show ?thesis by (simp add: numeral_3_eq_3 del: deq_all.simps enq_all.simps)
qed

text \<open>
  What a request waits for, independent of the loop: a type of packet and, unless it is a ping, a packet identifier.
  \<open>well_tagged\<close> says that the union holds the struct for the type.
\<close>

fun request_id :: "waiting_data \<Rightarrow> u16 option" where
  "request_id (Id_data i) = Some i"
| "request_id (Suback_data _ i) = Some i"
| "request_id (Pubrel_data _ _ _ i) = Some i"
| "request_id No_data = None"

definition waits_for :: "message_type_t \<Rightarrow> u16 \<Rightarrow> waiting_t \<Rightarrow> bool" where
  "waits_for t i w \<longleftrightarrow> wtype w = t \<and> (t = PINGRESP \<or> request_id (wdata w) = Some i)"

fun well_tagged :: "message_type_t \<Rightarrow> waiting_data \<Rightarrow> bool" where
  "well_tagged PINGRESP _ \<longleftrightarrow> True"
| "well_tagged SUBACK (Suback_data _ _) \<longleftrightarrow> True"
| "well_tagged PUBREL (Pubrel_data _ _ _ _) \<longleftrightarrow> True"
| "well_tagged t (Id_data _) \<longleftrightarrow> t \<in> {PUBACK, PUBREC, PUBCOMP, UNSUBACK}"
| "well_tagged _ _ \<longleftrightarrow> False"

text \<open>The search as a list operation. For a SUBACK only the first subscription counts.\<close>

definition search_spec :: "message_type_t \<Rightarrow> u16 \<Rightarrow> waiting_t list \<Rightarrow> bool \<times> waiting_t option \<times> waiting_t list" where
  "search_spec t i ws =
     (if t = SUBACK then
        (case List.extract (\<lambda>w. wtype w = SUBACK) ws of
           None \<Rightarrow> (False, None, ws)
         | Some (xs, w, ys) \<Rightarrow> if waits_for t i w then (True, Some w, xs @ ys) else (True, None, ws))
      else
        (case List.extract (waits_for t i) ws of
           None \<Rightarrow> (False, None, ws)
         | Some (xs, w, ys) \<Rightarrow> (True, Some w, xs @ ys)))"

lemma entry_test_spec:
  assumes "well_tagged (wtype w) (wdata w)"
  shows "entry_test t i w =
    Some (if waits_for t i w then Matched else if t = SUBACK \<and> wtype w = SUBACK then Stop else Continue)"
  using assms
  by (cases "wtype w"; cases "wdata w") (auto simp: entry_test_def waits_for_def)

lemma lookup_spec:
  assumes "\<forall>w \<in> set ws. well_tagged (wtype w) (wdata w)"
  shows "lookup_waiting t i ws = Some (search_spec t i ws)"
  using assms
proof (induction ws)
  case (Cons w ws)
  then have "lookup_waiting t i ws = Some (search_spec t i ws)" "well_tagged (wtype w) (wdata w)" by simp_all
  moreover have "waits_for t i w \<Longrightarrow> wtype w = t" by (simp add: waits_for_def)
  ultimately show ?case
    by (auto simp: entry_test_spec search_spec_def extract_Cons_code split: option.splits)
qed (simp add: search_spec_def extract_Nil_code)

text \<open>C19: \<^verbatim>\<open>dequeue_by_type_and_id\<close> ends on every well formed queue of requests whose data has the struct of their type. It takes the
  first request that waits for the type and the identifier (a ping for the type alone) and removes exactly that one; without
  one it reports false and removes nothing. For a SUBACK it looks at the first subscription only: if that one has another
  identifier it reports true without a request and removes nothing. The requests that stay keep their order in a well
  formed queue, and the entries of other queues are untouched.\<close>

theorem dequeue_by_takes_match:
  assumes "dqueue_at h q as ws" "\<forall>w \<in> set ws. well_tagged (wtype w) (wdata w)" "search_spec t i ws = (found, m, rest)"
  shows "\<exists>q' h' cs. dequeue_by_type_and_id q t i h = Some (found, m, q', h') \<and> dqueue_at h' q' cs rest \<and>
    (\<forall>c. c \<notin> set as \<longrightarrow> h' c = h c)"
  by (rule dequeue_by_refines [OF assms(1)]) (use lookup_spec [OF assms(2)] assms(3) in simp)

definition request :: "message_type_t \<Rightarrow> u16 \<Rightarrow> waiting_t" where
  "request t i = \<lparr>wtype = t, callback = Some 1, cb_context = 0, wdata = Id_data i\<rparr>"

lemma two_requests:
  "dqueue_at [1 \<mapsto> \<lparr>payload = v, previous = None, next_entry = Some 2\<rparr>,
      2 \<mapsto> \<lparr>payload = w, previous = Some 1, next_entry = None\<rparr>] \<lparr>head = Some 1, tail = Some 2\<rparr> [1, 2] [v, w]"
  by (simp add: dqueue_at_def)

theorem dequeue_by_takes_match_witness:
  "\<exists>q' h' cs. dequeue_by_type_and_id \<lparr>head = Some 1, tail = Some 2\<rparr> PUBACK 7
      [1 \<mapsto> \<lparr>payload = request PUBACK 6, previous = None, next_entry = Some 2\<rparr>,
       2 \<mapsto> \<lparr>payload = request PUBACK 7, previous = Some 1, next_entry = None\<rparr>] =
      Some (True, Some (request PUBACK 7), q', h') \<and> dqueue_at h' q' cs [request PUBACK 6]"
proof -
  have "\<forall>w \<in> set [request PUBACK 6, request PUBACK 7]. well_tagged (wtype w) (wdata w)"
    "search_spec PUBACK 7 [request PUBACK 6, request PUBACK 7] = (True, Some (request PUBACK 7), [request PUBACK 6])"
    by (simp_all add: search_spec_def waits_for_def request_def extract_Cons_code)
  from dequeue_by_takes_match [OF two_requests this] show ?thesis by blast
qed

text \<open>When no request matches, \<^verbatim>\<open>dequeue_by_type_and_id\<close> ends, reports false and leaves the queue as it was.\<close>

theorem dequeue_by_without_match:
  assumes "dqueue_at h q as xs" "\<forall>v \<in> set xs. entry_test t i v = Some Continue"
  shows "\<exists>q' h' cs. dequeue_by_type_and_id q t i h = Some (False, None, q', h') \<and> dqueue_at h' q' cs xs"
  using dequeue_by_refines [OF assms(1) lookup_absent [OF assms(2)]] by blast

theorem dequeue_by_without_match_witness:
  "\<exists>q' h' cs. dequeue_by_type_and_id \<lparr>head = Some 1, tail = Some 2\<rparr> PUBREC 7
      [1 \<mapsto> \<lparr>payload = request PUBACK 6, previous = None, next_entry = Some 2\<rparr>,
       2 \<mapsto> \<lparr>payload = request PUBACK 7, previous = Some 1, next_entry = None\<rparr>] = Some (False, None, q', h') \<and>
    dqueue_at h' q' cs [request PUBACK 6, request PUBACK 7]"
  by (rule dequeue_by_without_match [OF two_requests]) (simp add: entry_test_def request_def)

text \<open>A SUBACK for one subscription is reported as found when the first waiting SUBSCRIBE has another packet
  identifier, although no request was taken: the caller goes on with an uninitialised pointer.\<close>

theorem suback_mismatch_reported_found:
  assumes "dqueue_at h q as (w # ws)" "wtype w = SUBACK" "wdata w = Suback_data cb j" "j \<noteq> i"
  shows "\<exists>q' h' cs. dequeue_by_type_and_id q SUBACK i h = Some (True, None, q', h') \<and> dqueue_at h' q' cs (w # ws)"
proof -
  have "lookup_waiting SUBACK i (w # ws) = Some (True, None, w # ws)" using assms(2-4) by (simp add: entry_test_def)
  from dequeue_by_refines [OF assms(1) this] show ?thesis by blast
qed

theorem suback_mismatch_reported_found_witness:
  "\<exists>q' h' cs. dequeue_by_type_and_id \<lparr>head = Some 1, tail = Some 2\<rparr> SUBACK 4
      [1 \<mapsto> \<lparr>payload = (request SUBACK 0)\<lparr>wdata := Suback_data (Some 1) 3\<rparr>, previous = None, next_entry = Some 2\<rparr>,
       2 \<mapsto> \<lparr>payload = (request SUBACK 0)\<lparr>wdata := Suback_data (Some 1) 4\<rparr>, previous = Some 1, next_entry = None\<rparr>] =
      Some (True, None, q', h') \<and>
    dqueue_at h' q' cs [(request SUBACK 0)\<lparr>wdata := Suback_data (Some 1) 3\<rparr>,
      (request SUBACK 0)\<lparr>wdata := Suback_data (Some 1) 4\<rparr>]"
  by (rule suback_mismatch_reported_found [OF two_requests, where j = 3 and cb = "Some 1"]) (simp_all add: request_def)

text \<open>\<^verbatim>\<open>dequeue\<close> and \<^verbatim>\<open>remove_from_queue\<close> cannot be mixed on one queue: the entry that becomes first keeps a
  pointer to the freed one, and removing it follows that pointer.\<close>

theorem dequeue_then_remove_undefined:
  assumes "dqueue_at h q (a # b # as) (x # y # ys)" "dequeue q h = Some (p, q', h')"
  shows "remove_from_queue q' b h' = None"
proof -
  from assms(1) have "a \<noteq> b" "h b = Some \<lparr>payload = y, previous = Some a, next_entry = first as None\<rparr>"
    by (auto simp: dqueue_at_def)
  moreover from dequeue_queue [OF dqueue_queue [OF assms(1)]] assms(2) have "h' = h(a := None)" by auto
  ultimately show ?thesis by (simp add: remove_from_queue_def)
qed

theorem dequeue_then_remove_undefined_witness:
  "remove_from_queue \<lparr>head = Some 2, tail = Some 2\<rparr> 2
    [2 \<mapsto> \<lparr>payload = request PUBACK 7, previous = Some 1, next_entry = None\<rparr>] = None"
  by (rule dequeue_then_remove_undefined [OF two_requests [of "request PUBACK 6"]])
    (simp add: dequeue_def fun_eq_iff)

end
