(* ===== verification/Session.thy ===== *)
theory Session
  imports Client_Safety Queue
begin

section \<open>The session thread (\<^verbatim>\<open>connection.c\<close>)\<close>

text \<open>
  The rest of \<^verbatim>\<open>libsmqttclient_mt/connection.c\<close>: the buffer slots callers fill, the thread that sends
  them and handles what the broker sends, and the functions through which both share a client. The
  code between a lock and the matching unlock of \<^verbatim>\<open>thread_mutex\<close> is one definition, so that it can be one
  step of an interleaving (\<^verbatim>\<open>Session_Steps\<close>).

  Queue entries live in two heaps of \<open>mt_env\<close>, one for the two queues of slots and one for the waiting
  requests. An argument \<open>a\<close> is the address \<^verbatim>\<open>malloc\<close> returned for a new entry. Callbacks are opaque
  numbers; a call of one is recorded in \<open>calls\<close>. \<^verbatim>\<open>malloc\<close>ed memory holds any bytes.
\<close>

subsection \<open>Data\<close>

text \<open>\<open>SMQTT_MT_other\<close> holds the value 99, which is not an enumerator.\<close>

datatype smqtt_mt_status_t =
    SMQTT_MT_OK | SMQTT_MT_NOMEM | SMQTT_MT_BAD_MESSAGE | SMQTT_MT_NOACK | SMQTT_MT_NOMESSAGE
  | SMQTT_MT_NOT_CONNECTED | SMQTT_MT_UNEXPECTED | SMQTT_MT_INVALID | SMQTT_MT_NOT_AUTHORIZED
  | SMQTT_MT_SOCKET | SMQTT_MT_PROTOCOL | SMQTT_MT_IDENTIFIER | SMQTT_MT_SERVER
  | SMQTT_MT_NOT_AUTHENTICATED | SMQTT_MT_other int

type_synonym slot_index_t = u16

record buffer_slot_t =
  message_length :: u16
  buffer :: bytes

record ('i, 'w) smqtt_mt_client =
  hostname :: bytes
  clientid :: bytes
  port :: u16
  connected :: bool
  publish_packet_id :: u16
  subscribe_packet_id :: u16
  unsubscribe_packet_id :: u16
  buffer_count :: slot_index_t
  buffer_size :: size_t
  receive_buffer :: bytes
  buffer_slots :: "buffer_slot_t list"
  ready_to_disconnect :: bool
  free_queue :: queue_t
  send_queue :: queue_t
  ack_queue :: queue_t
  msg_callback :: "nat option"
  msg_cb_context :: nat
  server :: "('i, 'w) server_t"

text \<open>\<^const>\<open>MAX_HOSTNAME_CHARS\<close> has the same value in both clients.\<close>

definition MAX_CLIENT_ID_CHARS :: size_t where
  "MAX_CLIENT_ID_CHARS = 24"

text \<open>A call of a function the user passed in: of a request, of a subscription, for a message.\<close>

datatype call =
    Request_call nat bool nat
  | Suback_call nat bool u16 u16 "bool list" "QoS list" nat
  | Message_call nat bytes bytes QoS bool nat

text \<open>The two static buffers are those of \<^verbatim>\<open>smqttc_mt.c\<close>.\<close>

record 'w mt_env =
  slot_heap :: "slot_index_t heap"
  ack_heap :: "waiting_t heap"
  static_send :: bytes
  static_receive :: bytes
  calls :: "call list"
  outside :: 'w

fun status_from_net_mt :: "smqtt_net_status_t \<Rightarrow> smqtt_mt_status_t" where
  "status_from_net_mt SMQTT_NET_OK = SMQTT_MT_OK"
| "status_from_net_mt _ = SMQTT_MT_SOCKET"

subsection \<open>Starting and stopping\<close>

text \<open>
  What \<^verbatim>\<open>malloc\<close> returned: the bytes in the receive buffer and in the slots, and the addresses of the
  queue entries. \<^verbatim>\<open>calloc\<close> clears \<^verbatim>\<open>message_length\<close>.
\<close>

record fresh_memory =
  raw_receive :: bytes
  raw_slot :: "nat \<Rightarrow> bytes"
  raw_entry :: "nat \<Rightarrow> nat"

definition start_session_thread ::
  "fresh_memory \<Rightarrow> ('i, 'w) smqtt_mt_client \<Rightarrow> slot_index_t \<Rightarrow> size_t \<Rightarrow> ('i, 'w) server_t \<Rightarrow> 'w mt_env \<Rightarrow>
    (bool \<times> ('i, 'w) smqtt_mt_client \<times> 'w mt_env) option" where
  "start_session_thread m client count sz s g =
     do {
       let client = client\<lparr>buffer_count := count, buffer_size := sz, ready_to_disconnect := False,
         server := s, receive_buffer := raw_receive m, free_queue := init_queue,
         send_queue := init_queue, ack_queue := init_queue\<rparr>;
       let client = client\<lparr>buffer_slots :=
         map (\<lambda>i. \<lparr>message_length = 0, buffer = raw_slot m i\<rparr>) [0..<unat count]\<rparr>;
       (q, h) \<leftarrow> enq_all enqueue (map (\<lambda>i. (raw_entry m i, of_nat i)) [0..<unat count]) (free_queue client)
         (slot_heap g);
       Some (True, client\<lparr>free_queue := q\<rparr>, g\<lparr>slot_heap := h\<rparr>)
     }"

text \<open>
  \<^verbatim>\<open>join_session_thread\<close> frees the client and ends without a \<^verbatim>\<open>return\<close>: the caller sees an indeterminate
  status \<open>raw\<close>, and \<^const>\<open>None\<close> for the client, which is gone.
\<close>

definition join_session_thread ::
  "smqtt_mt_status_t \<Rightarrow> ('i, 'w) smqtt_mt_client \<Rightarrow> smqtt_mt_status_t \<times> ('i, 'w) smqtt_mt_client option" where
  "join_session_thread raw client = (raw, None)"

definition signal_disconnect :: "('i, 'w) smqtt_mt_client \<Rightarrow> ('i, 'w) smqtt_mt_client" where
  "signal_disconnect client = client\<lparr>ready_to_disconnect := True\<rparr>"

subsection \<open>What callers do\<close>

text \<open>
  The loop of \<^verbatim>\<open>get_buffer_slot\<close> holds the mutex, so no other thread can fill the queue it polls: it is
  one critical section, and on an empty queue it has no result.
\<close>

partial_function (option) get_slot_loop ::
  "queue_t \<Rightarrow> slot_index_t heap \<Rightarrow> (slot_index_t \<times> queue_t \<times> slot_index_t heap) option" where
  "get_slot_loop q h =
     do {
       (got, q, h) \<leftarrow> dequeue q h;
       case got of
         None \<Rightarrow> get_slot_loop q h
       | Some position \<Rightarrow> Some (position, q, h)
     }"

definition get_buffer_slot ::
  "('i, 'w) smqtt_mt_client \<Rightarrow> 'w mt_env \<Rightarrow> (slot_index_t \<times> ('i, 'w) smqtt_mt_client \<times> 'w mt_env) option" where
  "get_buffer_slot client g =
     do {
       (position, q, h) \<leftarrow> get_slot_loop (free_queue client) (slot_heap g);
       slot \<leftarrow> list_get (buffer_slots client) (unat position);
       Some (position, client\<lparr>free_queue := q\<rparr>, g\<lparr>slot_heap := h\<rparr>)
     }"

definition enqueue_slot_for_send ::
  "nat \<Rightarrow> ('i, 'w) smqtt_mt_client \<Rightarrow> slot_index_t \<Rightarrow> u16 \<Rightarrow> 'w mt_env \<Rightarrow>
    (smqtt_mt_status_t \<times> ('i, 'w) smqtt_mt_client \<times> 'w mt_env) option" where
  "enqueue_slot_for_send a client position len g =
     do {
       slot \<leftarrow> list_get (buffer_slots client) (unat position);
       let client = client\<lparr>buffer_slots := (buffer_slots client)[unat position := slot\<lparr>message_length := len\<rparr>]\<rparr>;
       (q, h) \<leftarrow> enqueue a (send_queue client) position (slot_heap g);
       Some (SMQTT_MT_OK, client\<lparr>send_queue := q\<rparr>, g\<lparr>slot_heap := h\<rparr>)
     }"

definition enqueue_waiting ::
  "nat \<Rightarrow> ('i, 'w) smqtt_mt_client \<Rightarrow> waiting_t \<Rightarrow> 'w mt_env \<Rightarrow>
    (smqtt_mt_status_t \<times> ('i, 'w) smqtt_mt_client \<times> 'w mt_env) option" where
  "enqueue_waiting a client waiting g =
     do {
       (q, h) \<leftarrow> enqueue a (ack_queue client) waiting (ack_heap g);
       Some (SMQTT_MT_OK, client\<lparr>ack_queue := q\<rparr>, g\<lparr>ack_heap := h\<rparr>)
     }"

subsection \<open>The sending half of the session loop\<close>

text \<open>The first critical section: whether to stop, and the next slot to send.\<close>

definition session_take ::
  "('i, 'w) smqtt_mt_client \<Rightarrow> 'w mt_env \<Rightarrow>
    (bool \<times> slot_index_t option \<times> ('i, 'w) smqtt_mt_client \<times> 'w mt_env) option" where
  "session_take client g =
     (let ready = ready_to_disconnect client in
      if \<not> ready then do {
        (slot_rec, q, h) \<leftarrow> dequeue (send_queue client) (slot_heap g);
        Some (ready, slot_rec, client\<lparr>send_queue := q\<rparr>, g\<lparr>slot_heap := h\<rparr>)
      }
      else Some (ready, None, client, g))"

text \<open>The status of the send is not used.\<close>

definition session_send ::
  "slot_index_t \<Rightarrow> ('i, 'w) smqtt_mt_client \<Rightarrow> 'w mt_env \<Rightarrow> (('i, 'w) smqtt_mt_client \<times> 'w mt_env) option" where
  "session_send position client g =
     do {
       slot \<leftarrow> list_get (buffer_slots client) (unat position);
       (st, s, w) \<leftarrow> server_send (server client) (buffer slot) (ucast (message_length slot)) (outside g);
       Some (client\<lparr>server := s\<rparr>, g\<lparr>outside := w\<rparr>)
     }"

definition session_return ::
  "nat \<Rightarrow> slot_index_t \<Rightarrow> ('i, 'w) smqtt_mt_client \<Rightarrow> 'w mt_env \<Rightarrow>
    (('i, 'w) smqtt_mt_client \<times> 'w mt_env) option" where
  "session_return a position client g =
     do {
       (q, h) \<leftarrow> enqueue a (free_queue client) position (slot_heap g);
       Some (client\<lparr>free_queue := q\<rparr>, g\<lparr>slot_heap := h\<rparr>)
     }"

subsection \<open>Handling what the broker sends\<close>

text \<open>The critical section every handler of an acknowledgement starts with.\<close>

definition take_waiting ::
  "message_type_t \<Rightarrow> u16 \<Rightarrow> ('i, 'w) smqtt_mt_client \<Rightarrow> 'w mt_env \<Rightarrow>
    (bool \<times> waiting_t option \<times> ('i, 'w) smqtt_mt_client \<times> 'w mt_env) option" where
  "take_waiting type packet_id client g =
     do {
       (found, waiting, q, h) \<leftarrow> dequeue_by_type_and_id (ack_queue client) type packet_id (ack_heap g);
       Some (found, waiting, client\<lparr>ack_queue := q\<rparr>, g\<lparr>ack_heap := h\<rparr>)
     }"

text \<open>A packet built in the receive buffer and sent at once.\<close>

definition session_reply ::
  "(bytes \<Rightarrow> (bytes \<times> nat) option) \<Rightarrow> ('i, 'w) smqtt_mt_client \<Rightarrow> 'w mt_env \<Rightarrow>
    (smqtt_mt_status_t \<times> ('i, 'w) smqtt_mt_client \<times> 'w mt_env) option" where
  "session_reply mk client g =
     do {
       (b, actual_len) \<leftarrow> mk (receive_buffer client);
       (st, s, w) \<leftarrow> server_send (server client) b (of_nat actual_len) (outside g);
       Some (status_from_net_mt st, client\<lparr>receive_buffer := b, server := s\<rparr>, g\<lparr>outside := w\<rparr>)
     }"

definition request_callback :: "waiting_t \<Rightarrow> 'w mt_env \<Rightarrow> 'w mt_env option" where
  "request_callback waiting g =
     do { f \<leftarrow> callback waiting; Some (g\<lparr>calls := calls g @ [Request_call f True (cb_context waiting)]\<rparr>) }"

definition message_callback ::
  "('i, 'w) smqtt_mt_client \<Rightarrow> bytes \<Rightarrow> bytes \<Rightarrow> QoS \<Rightarrow> bool \<Rightarrow> 'w mt_env \<Rightarrow> 'w mt_env" where
  "message_callback client topic msg qos retain g =
     (case msg_callback client of
        None \<Rightarrow> g
      | Some f \<Rightarrow> g\<lparr>calls := calls g @ [Message_call f topic msg qos retain (msg_cb_context client)]\<rparr>)"

text \<open>A copy is a C string: the characters and a NUL.\<close>

definition copy_publish_topic :: "('i, 'w) smqtt_mt_client \<Rightarrow> publish_data \<Rightarrow> bytes option" where
  "copy_publish_topic client d =
     do { cs \<leftarrow> strncpy_mem (receive_buffer client) (p_topic d) (unat (p_topic_size d)); Some (cs @ [0]) }"

definition copy_publish_msg :: "('i, 'w) smqtt_mt_client \<Rightarrow> publish_data \<Rightarrow> bytes option" where
  "copy_publish_msg client d =
     do { cs \<leftarrow> strncpy_mem (receive_buffer client) (p_message d) (unat (p_message_size d)); Some (cs @ [0]) }"

definition maybe_deliver_message ::
  "('i, 'w) smqtt_mt_client \<Rightarrow> publish_data \<Rightarrow> 'w mt_env \<Rightarrow> 'w mt_env option" where
  "maybe_deliver_message client d g =
     (if msg_callback client \<noteq> None then do {
        topic \<leftarrow> strncpy_mem (receive_buffer client) (p_topic d) (unat (p_topic_size d));
        message \<leftarrow> strncpy_mem (receive_buffer client) (p_message d) (unat (p_message_size d));
        Some (message_callback client (topic @ [0]) (message @ [0]) (p_qos d) (p_retain d) g)
      }
      else Some g)"

text \<open>
  A handler returns the request it enqueues in the end, if any: the \<^verbatim>\<open>enqueue_waiting\<close> takes the mutex
  again, so it is a step of its own. \<open>waiting\<close> is read only when something was found, and it is not set
  when the search stopped at another SUBACK.
\<close>

definition complete_waiting ::
  "message_type_t \<Rightarrow> u16 \<Rightarrow> ('i, 'w) smqtt_mt_client \<Rightarrow> 'w mt_env \<Rightarrow>
    (waiting_t option \<times> ('i, 'w) smqtt_mt_client \<times> 'w mt_env) option" where
  "complete_waiting type packet_id client g =
     do {
       (found, waiting, client, g) \<leftarrow> take_waiting type packet_id client g;
       if found then do {
         waiting \<leftarrow> waiting;
         g \<leftarrow> request_callback waiting g;
         Some (None, client, g)
       }
       else Some (None, client, g)
     }"

definition handle_pubrec ::
  "u16 \<Rightarrow> ('i, 'w) smqtt_mt_client \<Rightarrow> 'w mt_env \<Rightarrow>
    (waiting_t option \<times> ('i, 'w) smqtt_mt_client \<times> 'w mt_env) option" where
  "handle_pubrec packet_id client g =
     do {
       (found, waiting, client, g) \<leftarrow> take_waiting PUBREC packet_id client g;
       if found then do {
         waiting \<leftarrow> waiting;
         (stat, client, g) \<leftarrow>
           session_reply (\<lambda>b. make_pubrel_message b (buffer_size client) packet_id) client g;
         if stat = SMQTT_MT_OK then
           Some (Some (waiting\<lparr>wtype := PUBCOMP, wdata := Id_data packet_id\<rparr>), client, g)
         else Some (None, client, g)
       }
       else Some (None, client, g)
     }"

definition handle_suback ::
  "suback_data \<Rightarrow> ('i, 'w) smqtt_mt_client \<Rightarrow> 'w mt_env \<Rightarrow>
    (waiting_t option \<times> ('i, 'w) smqtt_mt_client \<times> 'w mt_env) option" where
  "handle_suback d client g =
     do {
       (found, waiting, client, g) \<leftarrow> take_waiting SUBACK (sa_packet_id d) client g;
       if found then do {
         waiting \<leftarrow> waiting;
         case wdata waiting of
           Suback_data (Some f) _ \<Rightarrow>
             Some (None, client, g\<lparr>calls := calls g @ [Suback_call f True (sa_packet_id d) (sa_topic_count d)
               (sa_success d) (sa_qoss d) (cb_context waiting)]\<rparr>)
         | Suback_data None _ \<Rightarrow> Some (None, client, g)
         | _ \<Rightarrow> None
       }
       else Some (None, client, g)
     }"

definition handle_unsuback ::
  "u16 \<Rightarrow> ('i, 'w) smqtt_mt_client \<Rightarrow> 'w mt_env \<Rightarrow>
    (waiting_t option \<times> ('i, 'w) smqtt_mt_client \<times> 'w mt_env) option" where
  "handle_unsuback packet_id client g =
     do {
       (found, waiting, client, g) \<leftarrow> take_waiting UNSUBACK packet_id client g;
       if found then do {
         waiting \<leftarrow> waiting;
         g \<leftarrow> (if callback waiting \<noteq> None then request_callback waiting g else Some g);
         Some (None, client, g)
       }
       else Some (None, client, g)
     }"

definition handle_publish ::
  "publish_data \<Rightarrow> ('i, 'w) smqtt_mt_client \<Rightarrow> 'w mt_env \<Rightarrow>
    (waiting_t option \<times> ('i, 'w) smqtt_mt_client \<times> 'w mt_env) option" where
  "handle_publish d client g =
     (if p_qos d = QoS0 then do {
        g \<leftarrow> maybe_deliver_message client d g;
        Some (None, client, g)
      }
      else if p_qos d = QoS1 then do {
        let packet_id = p_packet_id d;
        (stat, client, g) \<leftarrow>
          session_reply (\<lambda>b. make_puback_message b (buffer_size client) packet_id) client g;
        if stat = SMQTT_MT_OK then do {
          g \<leftarrow> maybe_deliver_message client d g;
          Some (None, client, g)
        }
        else Some (None, client, g)
      }
      else if p_qos d = QoS2 then do {
        let packet_id = p_packet_id d;
        (stat, client, g) \<leftarrow>
          session_reply (\<lambda>b. make_pubrec_message b (buffer_size client) packet_id) client g;
        if stat = SMQTT_MT_OK then do {
          topic \<leftarrow> copy_publish_topic client d;
          msg \<leftarrow> copy_publish_msg client d;
          Some (Some \<lparr>wtype = PUBREL, callback = None, cb_context = 0,
            wdata = Pubrel_data topic msg (p_retain d) packet_id\<rparr>, client, g)
        }
        else Some (None, client, g)
      }
      else Some (None, client, g))"

definition handle_pubrel ::
  "u16 \<Rightarrow> ('i, 'w) smqtt_mt_client \<Rightarrow> 'w mt_env \<Rightarrow>
    (waiting_t option \<times> ('i, 'w) smqtt_mt_client \<times> 'w mt_env) option" where
  "handle_pubrel packet_id client g =
     do {
       (found, waiting, client, g) \<leftarrow> take_waiting PUBREL packet_id client g;
       if found then do {
         waiting \<leftarrow> waiting;
         (stat, client, g) \<leftarrow>
           session_reply (\<lambda>b. make_pubcomp_message b (buffer_size client) packet_id) client g;
         if stat = SMQTT_MT_OK \<and> msg_callback client \<noteq> None then
           (case wdata waiting of
              Pubrel_data topic msg retain _ \<Rightarrow>
                Some (None, client, message_callback client topic msg QoS2 retain g)
            | _ \<Rightarrow> None)
         else Some (None, client, g)
       }
       else Some (None, client, g)
     }"

fun handle_response ::
  "response_t \<Rightarrow> ('i, 'w) smqtt_mt_client \<Rightarrow> 'w mt_env \<Rightarrow>
    (waiting_t option \<times> ('i, 'w) smqtt_mt_client \<times> 'w mt_env) option" where
  "handle_response Pingresp_body client g = complete_waiting PINGRESP 0 client g"
| "handle_response (Puback_body i) client g = complete_waiting PUBACK i client g"
| "handle_response (Pubrec_body i) client g = handle_pubrec i client g"
| "handle_response (Pubcomp_body i) client g = complete_waiting PUBCOMP i client g"
| "handle_response (Suback_body d) client g = handle_suback d client g"
| "handle_response (Unsuback_body i) client g = handle_unsuback i client g"
| "handle_response (Publish_body d) client g = handle_publish d client g"
| "handle_response (Pubrel_body i) client g = handle_pubrel i client g"
| "handle_response _ client g = Some (None, client, g)"

text \<open>
  The receiving half up to the last critical section. \<^verbatim>\<open>resp->type\<close> is read without a test for \<^verbatim>\<open>NULL\<close>.
\<close>

definition session_receive ::
  "('i, 'w) smqtt_mt_client \<Rightarrow> 'w mt_env \<Rightarrow>
    (waiting_t option \<times> ('i, 'w) smqtt_mt_client \<times> 'w mt_env) option" where
  "session_receive client g =
     do {
       (sz, b, s, w) \<leftarrow> server_receive (server client) (receive_buffer client) (buffer_size client) (outside g);
       let client = client\<lparr>receive_buffer := b, server := s\<rparr>;
       let g = g\<lparr>outside := w\<rparr>;
       if sz > 0 then do {
         resp \<leftarrow> deserialize_response (receive_buffer client) (unat (word_of_int sz :: size_t));
         resp \<leftarrow> resp;
         handle_response resp client g
       }
       else Some (None, client, g)
     }"

subsection \<open>The loop\<close>

text \<open>
  One iteration without interference, \<open>a\<close> and \<open>b\<close> being the addresses of the entries it may create; the
  result says whether the loop ends. \<open>session_thread_loop\<close> runs as many iterations as there are pairs of
  addresses, or until it ends.
\<close>

definition session_iteration ::
  "nat \<Rightarrow> nat \<Rightarrow> ('i, 'w) smqtt_mt_client \<Rightarrow> 'w mt_env \<Rightarrow>
    (bool \<times> ('i, 'w) smqtt_mt_client \<times> 'w mt_env) option" where
  "session_iteration a b client g =
     do {
       (ready, slot_rec, client, g) \<leftarrow> session_take client g;
       if ready then Some (True, client, g)
       else do {
         (client, g) \<leftarrow> (case slot_rec of
             None \<Rightarrow> Some (client, g)
           | Some position \<Rightarrow> do {
               (client, g) \<leftarrow> session_send position client g;
               session_return a position client g
             });
         (waiting, client, g) \<leftarrow> session_receive client g;
         (client, g) \<leftarrow> (case waiting of
             None \<Rightarrow> Some (client, g)
           | Some w \<Rightarrow> do { (st, client, g) \<leftarrow> enqueue_waiting b client w g; Some (client, g) });
         Some (False, client, g)
       }
     }"

fun session_thread_loop ::
  "(nat \<times> nat) list \<Rightarrow> ('i, 'w) smqtt_mt_client \<Rightarrow> 'w mt_env \<Rightarrow>
    (bool \<times> ('i, 'w) smqtt_mt_client \<times> 'w mt_env) option" where
  "session_thread_loop [] client g = Some (False, client, g)"
| "session_thread_loop ((a, b) # ms) client g =
     do {
       (ended, client, g) \<leftarrow> session_iteration a b client g;
       if ended then Some (True, client, g) else session_thread_loop ms client g
     }"

end
