(* ===== verification/Session_Steps.thy ===== *)
theory Session_Steps
  imports Session "HOL-Library.Multiset"
begin

section \<open>Interleavings of the session thread and its callers\<close>

text \<open>
  The state of a running client and the steps of its threads. A step is a critical section, or code
  between two of them that touches only what its thread owns. \<open>mt_step\<close> lets any number of callers take
  slots, fill the slots they hold, register requests and submit slots in any order, so every interleaving
  of calls is a run of it; the program counter of the session thread follows \<^verbatim>\<open>session_thread_loop\<close>.

  The invariant says who owns each slot: the free queue, the send queue, a caller, or the session
  thread, never two of them. It follows that the session thread sends exactly the packets that
  were submitted, in order.
\<close>

subsection \<open>Two queues on one heap\<close>

text \<open>The contract of two queues whose entries share a store: an operation on one leaves the other alone.\<close>

locale shared_fifos =
  fixes both :: "'s \<Rightarrow> 'q \<Rightarrow> 'q \<Rightarrow> 'a list \<Rightarrow> 'a list \<Rightarrow> bool"
    and fresh :: "'s \<Rightarrow> nat \<Rightarrow> bool"
    and enq :: "nat \<Rightarrow> 'q \<Rightarrow> 'a \<Rightarrow> 's \<Rightarrow> ('q \<times> 's) option"
    and deq :: "'q \<Rightarrow> 's \<Rightarrow> ('a option \<times> 'q \<times> 's) option"
  assumes both_sym: "both s p q xs ys \<Longrightarrow> both s q p ys xs"
    and enq_both: "\<lbrakk>both s p q xs ys; fresh s a\<rbrakk> \<Longrightarrow> \<exists>p' s'. enq a p x s = Some (p', s') \<and> both s' p' q (xs @ [x]) ys"
    and deq_both_none: "both s p q [] ys \<Longrightarrow> deq p s = Some (None, p, s)"
    and deq_both_some: "both s p q (x # xs) ys \<Longrightarrow> \<exists>p' s'. deq p s = Some (Some x, p', s') \<and> both s' p' q xs ys"
begin

lemma enq_left: "\<lbrakk>both s p q xs ys; fresh s a; enq a p x s = Some (p', s')\<rbrakk> \<Longrightarrow> both s' p' q (xs @ [x]) ys"
  using enq_both [of s p q xs ys a x] by auto

lemma enq_right: "\<lbrakk>both s p q xs ys; fresh s a; enq a q y s = Some (q', s')\<rbrakk> \<Longrightarrow> both s' p q' xs (ys @ [y])"
  by (blast intro: both_sym enq_left)

lemma deq_left:
  assumes "both s p q xs ys" "deq p s = Some (r, p', s')"
  shows "case r of None \<Rightarrow> xs = [] \<and> p' = p \<and> s' = s | Some x \<Rightarrow> \<exists>zs. xs = x # zs \<and> both s' p' q zs ys"
proof (cases xs)
  case Nil
  with assms deq_both_none [of s p q ys] show ?thesis by simp
next
  case (Cons x zs)
  with assms deq_both_some [of s p q x zs ys] show ?thesis by auto
qed

lemma deq_right:
  assumes "both s p q xs ys" "deq q s = Some (r, q', s')"
  shows "case r of None \<Rightarrow> ys = [] \<and> q' = q \<and> s' = s | Some y \<Rightarrow> \<exists>zs. ys = y # zs \<and> both s' p q' xs zs"
  using deq_left [OF both_sym [OF assms(1)] assms(2)] by (auto intro: both_sym split: option.splits)

end

definition pool_at :: "'a heap \<Rightarrow> queue_t \<Rightarrow> queue_t \<Rightarrow> 'a list \<Rightarrow> 'a list \<Rightarrow> bool" where
  "pool_at h p q xs ys \<longleftrightarrow> (\<exists>as bs. queue_at h p as xs \<and> queue_at h q bs ys \<and> set as \<inter> set bs = {})"

lemma queue_frame: "\<lbrakk>queue_at h q as xs; \<forall>a \<in> set as. h' a = h a\<rbrakk> \<Longrightarrow> queue_at h' q as xs"
  using fwd_frame [of as h' h None xs] by (simp add: queue_at_def)

lemma queue_alive: "queue_at h q as xs \<Longrightarrow> a \<in> set as \<Longrightarrow> h a \<noteq> None"
  by (auto simp: queue_at_def dest: fwd_alive)

interpretation pool: shared_fifos pool_at "\<lambda>h a. h a = None" enqueue dequeue
proof
  fix h :: "'a heap" and p q xs ys
  show "pool_at h p q xs ys \<Longrightarrow> pool_at h q p ys xs" by (auto simp: pool_at_def)
next
  fix h :: "'a heap" and p q xs ys a x
  assume "pool_at h p q xs ys" and a: "h a = None"
  then obtain as bs where p: "queue_at h p as xs" and q: "queue_at h q bs ys" and d: "set as \<inter> set bs = {}"
    by (auto simp: pool_at_def)
  from enqueue_queue [OF p a, of x] obtain p' h' where e: "enqueue a p x h = Some (p', h')"
    "queue_at h' p' (as @ [a]) (xs @ [x])" "\<forall>b. b \<notin> insert a (set as) \<longrightarrow> h' b = h b" by blast
  from queue_alive [OF q] a have "a \<notin> set bs" by blast
  with d e(3) have "\<forall>b \<in> set bs. h' b = h b" by (metis disjoint_iff insertE)
  with q have "queue_at h' q bs ys" by (rule queue_frame)
  with e(2) \<open>a \<notin> set bs\<close> d have "pool_at h' p' q (xs @ [x]) ys"
    unfolding pool_at_def by (intro exI [of _ "as @ [a]"] exI [of _ bs]) auto
  with e(1) show "\<exists>p' h'. enqueue a p x h = Some (p', h') \<and> pool_at h' p' q (xs @ [x]) ys" by blast
next
  fix h :: "'a heap" and p q ys
  assume "pool_at h p q [] ys"
  then have "\<exists>as. queue_at h p as []" by (auto simp: pool_at_def)
  then show "dequeue p h = Some (None, p, h)" by (rule slots.deq_none)
next
  fix h :: "'a heap" and p q x xs ys
  assume "pool_at h p q (x # xs) ys"
  then obtain as bs where p: "queue_at h p as (x # xs)" and q: "queue_at h q bs ys" and d: "set as \<inter> set bs = {}"
    by (auto simp: pool_at_def)
  from p obtain b cs where as: "as = b # cs"
    using fwd_length [of h as None "x # xs"] by (cases as) (auto simp: queue_at_def)
  from dequeue_queue [OF p [unfolded as]] obtain p' where
    e: "dequeue p h = Some (Some x, p', h(b := None))" "queue_at (h(b := None)) p' cs xs" by blast
  have "queue_at (h(b := None)) q bs ys" using d as by (intro queue_frame [OF q]) auto
  with e d as show "\<exists>p' h'. dequeue p h = Some (Some x, p', h') \<and> pool_at h' p' q xs ys"
    by (auto simp: pool_at_def)
qed

text \<open>What two queues hold is determined by the heap.\<close>

lemma fwd_unique: "\<lbrakk>fwd h as None xs; fwd h bs None ys; first as None = first bs None\<rbrakk> \<Longrightarrow> xs = ys"
proof (induction h as "None :: nat option" xs arbitrary: bs ys rule: fwd.induct)
  case (1 h)
  then show ?case using fwd_length [OF 1(2)] by (cases bs) auto
next
  case (2 h a as x xs)
  then obtain cs where bs: "bs = a # cs" by (cases bs) auto
  with 2 obtain y zs where ys: "ys = y # zs" by (cases ys) auto
  from 2(3)[unfolded bs ys] 2(2) have "x = y" "fwd h cs None zs" "fwd h as None xs" "first as None = first cs None"
    by (auto split: option.splits)
  with 2(1) ys show ?case by blast
qed simp_all

lemma pool_unique: "\<lbrakk>pool_at h p q xs ys; pool_at h p q xs' ys'\<rbrakk> \<Longrightarrow> xs' = xs \<and> ys' = ys"
  unfolding pool_at_def queue_at_def by (metis fwd_unique)

lemma pool_head_empty:
  assumes "pool_at h p q [] ys"
  shows "head p = None"
proof -
  from assms obtain as where "queue_at h p as []" by (auto simp: pool_at_def)
  then show ?thesis using fwd_length [of h as None "[]"] by (simp add: queue_at_def)
qed

subsection \<open>Polling for a slot\<close>

lemma get_slot_loop_Some:
  "get_slot_loop q h = Some r \<Longrightarrow> head q \<noteq> None"
proof (rule get_slot_loop.raw_induct [of "\<lambda>q h r. head q \<noteq> None" q h r])
  fix loop :: "queue_t \<Rightarrow> slot_index_t heap \<Rightarrow> _" and q h r
  assume IH: "\<And>q h r. loop q h = Some r \<Longrightarrow> head q \<noteq> None"
    and step: "Option.bind (dequeue q h) (\<lambda>(got, q, h). case got of None \<Rightarrow> loop q h
      | Some position \<Rightarrow> Some (position, q, h)) = Some r"
  show "head q \<noteq> None"
  proof
    assume n: "head q = None"
    with step have "loop q h = Some r" by (simp add: dequeue_def)
    with IH n show False by blast
  qed
qed

lemma get_slot_loop_pool:
  assumes "pool_at h p q xs ys"
  shows "case xs of [] \<Rightarrow> get_slot_loop p h = None
    | x # zs \<Rightarrow> \<exists>p' h'. get_slot_loop p h = Some (x, p', h') \<and> pool_at h' p' q zs ys"
proof (cases xs)
  case Nil
  with assms have "head p = None" by (simp add: pool_head_empty)
  with get_slot_loop_Some [of p h] Nil show ?thesis by (cases "get_slot_loop p h") auto
next
  case (Cons x zs)
  with assms pool.deq_both_some [of h p q x zs ys] show ?thesis by (auto simp: get_slot_loop.simps [of p h])
qed

subsection \<open>The waiting requests\<close>

definition acks_at :: "('i, 'w) smqtt_mt_client \<Rightarrow> 'w mt_env \<Rightarrow> waiting_t list \<Rightarrow> bool" where
  "acks_at c g ws \<longleftrightarrow> (\<exists>as. dqueue_at (ack_heap g) (ack_queue c) as ws)"

lemma take_waiting_found:
  assumes "acks_at c g ws" "lookup_waiting t i ws = Some (f, m, zs)"
  obtains q h where "take_waiting t i c g = Some (f, m, c\<lparr>ack_queue := q\<rparr>, g\<lparr>ack_heap := h\<rparr>)"
    "acks_at (c\<lparr>ack_queue := q\<rparr>) (g\<lparr>ack_heap := h\<rparr>) zs" "\<And>a. ack_heap g a = None \<Longrightarrow> h a = None"
proof -
  from assms(1) obtain as where as: "dqueue_at (ack_heap g) (ack_queue c) as ws" by (auto simp: acks_at_def)
  from dequeue_by_refines [OF this assms(2)] obtain q h cs where
    d: "dequeue_by_type_and_id (ack_queue c) t i (ack_heap g) = Some (f, m, q, h)" "dqueue_at h q cs zs"
      "\<forall>a. a \<notin> set as \<longrightarrow> h a = ack_heap g a" by blast
  have "h a = None" if "ack_heap g a = None" for a
    using d(3) that queue_alive [OF dqueue_queue [OF as], of a] by metis
  with d show thesis by (intro that [of q h]) (auto simp: take_waiting_def acks_at_def)
qed

lemma take_waiting_undefined:
  "\<lbrakk>acks_at c g ws; lookup_waiting t i ws = None\<rbrakk> \<Longrightarrow> take_waiting t i c g = None"
  by (auto simp: acks_at_def take_waiting_def dequeue_by_undefined)

lemma enqueue_waiting_acks:
  assumes "acks_at c g ws" "ack_heap g a = None"
  obtains q h where "enqueue_waiting a c w g = Some (SMQTT_MT_OK, c\<lparr>ack_queue := q\<rparr>, g\<lparr>ack_heap := h\<rparr>)"
    "acks_at (c\<lparr>ack_queue := q\<rparr>) (g\<lparr>ack_heap := h\<rparr>) (ws @ [w])" "\<And>b. b \<noteq> a \<Longrightarrow> ack_heap g b = None \<Longrightarrow> h b = None"
proof -
  from assms(1) obtain as where as: "dqueue_at (ack_heap g) (ack_queue c) as ws" by (auto simp: acks_at_def)
  from enqueue_dqueue [OF this assms(2), of w] obtain q h where
    "enqueue a (ack_queue c) w (ack_heap g) = Some (q, h)" "dqueue_at h q (as @ [a]) (ws @ [w])"
    "\<forall>b. b \<notin> insert a (set as) \<longrightarrow> h b = ack_heap g b" by blast
  moreover from this(3) have "h b = None" if "b \<noteq> a" "ack_heap g b = None" for b
    using that queue_alive [OF dqueue_queue [OF as], of b] by (metis insertE)
  ultimately show thesis by (intro that [of q h]) (auto simp: enqueue_waiting_def acks_at_def)
qed

subsection \<open>What handling a packet leaves alone\<close>

text \<open>
  Handlers change the receive buffer, the server, the waiting requests and the log, never a slot or a queue
  of slots, and they keep the queue of requests well formed.
\<close>

definition session_frame ::
  "('i, 'w) smqtt_mt_client \<times> 'w mt_env \<Rightarrow> ('i, 'w) smqtt_mt_client \<times> 'w mt_env \<Rightarrow> bool" where
  "session_frame = (\<lambda>(c, g) (c', g').
     buffer_slots c' = buffer_slots c \<and> buffer_count c' = buffer_count c \<and> buffer_size c' = buffer_size c \<and>
     free_queue c' = free_queue c \<and> send_queue c' = send_queue c \<and> slot_heap g' = slot_heap g \<and>
     msg_callback c' = msg_callback c \<and> msg_cb_context c' = msg_cb_context c \<and>
     ((\<exists>ws. acks_at c g ws) \<longrightarrow> (\<exists>ws. acks_at c' g' ws)))"

lemma session_frame_refl [simp]: "session_frame s s"
  by (auto simp: session_frame_def)

lemma session_frame_trans [trans]: "session_frame s t \<Longrightarrow> session_frame t u \<Longrightarrow> session_frame s u"
  by (auto simp: session_frame_def)

lemma acks_update [simp]:
  "acks_at (c\<lparr>receive_buffer := b\<rparr>) g ws = acks_at c g ws" "acks_at (c\<lparr>server := s\<rparr>) g ws = acks_at c g ws"
  "acks_at c (g\<lparr>outside := w\<rparr>) ws = acks_at c g ws" "acks_at c (g\<lparr>calls := l\<rparr>) ws = acks_at c g ws"
  "acks_at c (g\<lparr>slot_heap := h\<rparr>) ws = acks_at c g ws"
  "acks_at (c\<lparr>publish_packet_id := i\<rparr>) g ws = acks_at c g ws" "acks_at (c\<lparr>subscribe_packet_id := i\<rparr>) g ws = acks_at c g ws"
  "acks_at (c\<lparr>ready_to_disconnect := r\<rparr>) g ws = acks_at c g ws" "acks_at (c\<lparr>buffer_slots := sl\<rparr>) g ws = acks_at c g ws"
  "acks_at (c\<lparr>send_queue := q\<rparr>) g ws = acks_at c g ws" "acks_at (c\<lparr>free_queue := q\<rparr>) g ws = acks_at c g ws"
  by (simp_all add: acks_at_def)

text \<open>Handlers also create no entry in the queue of requests.\<close>

definition handler_frame ::
  "('i, 'w) smqtt_mt_client \<times> 'w mt_env \<Rightarrow> ('i, 'w) smqtt_mt_client \<times> 'w mt_env \<Rightarrow> bool" where
  "handler_frame s t \<longleftrightarrow> session_frame s t \<and>
     ((\<exists>ws. acks_at (fst s) (snd s) ws) \<longrightarrow> (\<forall>a. ack_heap (snd s) a = None \<longrightarrow> ack_heap (snd t) a = None))"

lemma handler_frame_refl [simp]: "handler_frame s s"
  by (simp add: handler_frame_def)

lemma handler_frame_trans [trans]: "handler_frame s t \<Longrightarrow> handler_frame t u \<Longrightarrow> handler_frame s u"
  by (auto simp: handler_frame_def session_frame_def)

lemma take_waiting_frame: "take_waiting t i c g = Some (f, m, c', g') \<Longrightarrow> handler_frame (c, g) (c', g')"
proof -
  assume r: "take_waiting t i c g = Some (f, m, c', g')"
  have "(\<exists>zs. acks_at c' g' zs) \<and> (\<forall>a. ack_heap g a = None \<longrightarrow> ack_heap g' a = None)" if a: "acks_at c g ws" for ws
  proof (cases "lookup_waiting t i ws")
    case None
    with r take_waiting_undefined [OF a] show ?thesis by simp
  next
    case (Some x)
    then obtain f' m' zs where "lookup_waiting t i ws = Some (f', m', zs)" by (cases x) auto
    from take_waiting_found [OF a this] r show ?thesis by fastforce
  qed
  with r show ?thesis
    by (auto simp: handler_frame_def session_frame_def take_waiting_def Option.bind_eq_Some_conv)
qed

lemma session_reply_frame: "session_reply mk c g = Some (st, c', g') \<Longrightarrow> handler_frame (c, g) (c', g')"
  by (auto simp: session_reply_def handler_frame_def session_frame_def Option.bind_eq_Some_conv)

lemma callbacks_frame:
  "request_callback w g = Some g' \<Longrightarrow> handler_frame (c, g) (c, g')"
  "handler_frame (c, g) (c, g\<lparr>calls := l\<rparr>)"
  "handler_frame (c, g) (c, message_callback c topic msg qos retain g)"
  "maybe_deliver_message c d g = Some g' \<Longrightarrow> handler_frame (c, g) (c, g')"
  by (auto simp: request_callback_def message_callback_def maybe_deliver_message_def handler_frame_def session_frame_def
      Option.bind_eq_Some_conv split: option.splits if_splits)

definition keeps ::
  "('i, 'w) smqtt_mt_client \<times> 'w mt_env \<Rightarrow>
    (waiting_t option \<times> ('i, 'w) smqtt_mt_client \<times> 'w mt_env) option \<Rightarrow> bool" where
  "keeps s res \<longleftrightarrow> (\<forall>w c g. res = Some (w, c, g) \<longrightarrow> handler_frame s (c, g))"

lemma keeps_end: "handler_frame s (c, g) \<Longrightarrow> keeps s (Some (w, c, g))" "keeps s None"
  by (simp_all add: keeps_def)

lemma keeps_bind: "(\<And>x. m = Some x \<Longrightarrow> keeps s (k x)) \<Longrightarrow> keeps s (Option.bind m k)"
  by (cases m) (simp_all add: keeps_def)

text \<open>The shape all handlers of acknowledgements have: take a request, go on if there is one.\<close>

lemma keeps_found:
  assumes "handler_frame s (c, g)" "\<And>w c g. handler_frame s (c, g) \<Longrightarrow> keeps s (k w c g)"
  shows "keeps s (Option.bind (take_waiting t i c g) (\<lambda>(found, waiting, c, g).
    if found then Option.bind waiting (\<lambda>w. k w c g) else Some (None, c, g)))"
proof (rule keeps_bind)
  fix x
  assume x: "take_waiting t i c g = Some x"
  obtain f m c' g' where "x = (f, m, c', g')" by (cases x)
  moreover from this x have "handler_frame s (c', g')"
    using assms(1) by (blast dest: take_waiting_frame handler_frame_trans)
  ultimately show "keeps s (case x of (found, waiting, c, g) \<Rightarrow>
      if found then Option.bind waiting (\<lambda>w. k w c g) else Some (None, c, g))"
    by (auto intro!: keeps_end keeps_bind assms(2))
qed

lemma keeps_reply:
  "\<lbrakk>handler_frame s (c, g); \<And>st c g. handler_frame s (c, g) \<Longrightarrow> keeps s (k st c g)\<rbrakk> \<Longrightarrow>
    keeps s (Option.bind (session_reply mk c g) (\<lambda>(st, c, g). k st c g))"
  by (rule keeps_bind) (auto dest!: session_reply_frame dest: handler_frame_trans)

lemma keeps_call:
  "handler_frame s (c, g) \<Longrightarrow> handler_frame s (c, g\<lparr>calls := l\<rparr>)"
  "handler_frame s (c, g) \<Longrightarrow> handler_frame s (c, message_callback c topic msg qos retain g)"
  "\<lbrakk>handler_frame s (c, g); request_callback w g = Some g'\<rbrakk> \<Longrightarrow> handler_frame s (c, g')"
  "\<lbrakk>handler_frame s (c, g); maybe_deliver_message c d g = Some g'\<rbrakk> \<Longrightarrow> handler_frame s (c, g')"
  by (blast intro: handler_frame_trans callbacks_frame)+

lemma complete_waiting_keeps: "handler_frame s (c, g) \<Longrightarrow> keeps s (complete_waiting t i c g)"
  unfolding complete_waiting_def
  by (erule keeps_found) (auto intro!: keeps_bind keeps_end intro: keeps_call)

lemma handle_pubrec_keeps: "handler_frame s (c, g) \<Longrightarrow> keeps s (handle_pubrec i c g)"
  unfolding handle_pubrec_def
  by (erule keeps_found) (erule keeps_reply, simp add: keeps_end)

lemma handle_suback_keeps: "handler_frame s (c, g) \<Longrightarrow> keeps s (handle_suback d c g)"
  unfolding handle_suback_def
  by (erule keeps_found) (simp add: keeps_end keeps_call(1,2) split: waiting_data.split option.split)

lemma handle_unsuback_keeps: "handler_frame s (c, g) \<Longrightarrow> keeps s (handle_unsuback i c g)"
  unfolding handle_unsuback_def
  by (erule keeps_found) (auto intro!: keeps_bind keeps_end intro: keeps_call split: if_split_asm)

lemma handle_pubrel_keeps: "handler_frame s (c, g) \<Longrightarrow> keeps s (handle_pubrel i c g)"
  unfolding handle_pubrel_def
  by (erule keeps_found) (erule keeps_reply, simp add: keeps_end keeps_call(1,2) split: waiting_data.split)

lemma handle_publish_keeps:
  assumes "handler_frame s (c, g)"
  shows "keeps s (handle_publish d c g)"
proof -
  have deliver: "keeps s (Option.bind (maybe_deliver_message c d g) (\<lambda>g. Some (None, c, g)))"
    if "handler_frame s (c, g)" for c g
    by (rule keeps_bind) (rule keeps_end, rule keeps_call [OF that])
  have store: "keeps s (Option.bind m (\<lambda>x. Option.bind n (\<lambda>y. Some (f x y, c, g))))"
    if "handler_frame s (c, g)" for m n :: "bytes option" and f c g
    by (intro keeps_bind keeps_end that)
  note reply = keeps_reply [OF assms]
  consider "p_qos d = QoS0" | "p_qos d = QoS1" | "p_qos d = QoS2" | "p_qos d \<notin> {QoS0, QoS1, QoS2}" by blast
  then show ?thesis
  proof cases
    case 2
    then show ?thesis by (simp add: handle_publish_def) (rule reply, simp add: deliver keeps_end)
  next
    case 3
    then show ?thesis by (simp add: handle_publish_def Let_def) (rule reply, simp add: store keeps_end)
  qed (simp_all add: handle_publish_def deliver keeps_end assms)
qed

lemma handle_response_keeps: "handler_frame s (c, g) \<Longrightarrow> keeps s (handle_response r c g)"
  by (cases r) (simp_all add: keeps_end complete_waiting_keeps handle_pubrec_keeps handle_suback_keeps
      handle_unsuback_keeps handle_publish_keeps handle_pubrel_keeps)

lemma session_receive_frame:
  assumes "session_receive c g = Some (w, c', g')"
  shows "handler_frame (c, g) (c', g')"
proof -
  have start: "handler_frame (c, g) (c\<lparr>receive_buffer := b, server := s\<rparr>, g\<lparr>outside := x\<rparr>)" for b s x
    by (simp add: handler_frame_def session_frame_def acks_at_def)
  have "keeps (c, g) (session_receive c g)"
    unfolding session_receive_def
    by (auto simp: Let_def intro!: keeps_bind keeps_end handle_response_keeps start)
  with assms show ?thesis by (simp add: keeps_def)
qed

subsection \<open>The system\<close>

text \<open>
  Where the session thread is in its loop: at the top, about to send a slot, about to return it, about to
  receive, about to enqueue a request for the next packet of a handshake, or out of the loop.
\<close>

datatype session_pc = At_top | Sending slot_index_t | Returning slot_index_t | Receiving | Requeueing waiting_t | Ended

text \<open>
  \<open>held\<close> lists the slots callers have taken and not yet submitted. \<open>spinning\<close> says that a caller polls an
  empty free queue and so keeps the mutex. \<open>submitted\<close> and \<open>transmitted\<close> are histories: the packets callers
  submitted and those the session thread handed to the transport from slots.
\<close>

record ('i, 'w) mt_system =
  cl :: "('i, 'w) smqtt_mt_client"
  env :: "'w mt_env"
  pc :: session_pc
  held :: "slot_index_t list"
  spinning :: bool
  submitted :: "bytes list"
  transmitted :: "bytes list"

definition slot_packet :: "('i, 'w) smqtt_mt_client \<Rightarrow> slot_index_t \<Rightarrow> bytes" where
  "slot_packet c position =
     (let slot = buffer_slots c ! unat position in take (unat (message_length slot)) (buffer slot))"

text \<open>The requests callers register; those of type PUBREL and PUBCOMP come from the session thread.\<close>

definition caller_request :: "waiting_t \<Rightarrow> bool" where
  "caller_request w \<longleftrightarrow> wtype w \<in> {PINGRESP, PUBACK, PUBREC, SUBACK}"

inductive mt_step :: "('i, 'w) mt_system \<Rightarrow> ('i, 'w) mt_system \<Rightarrow> bool" where
  acquire: "\<lbrakk>\<not> spinning s; get_buffer_slot (cl s) (env s) = Some (p, c, g)\<rbrakk> \<Longrightarrow>
    mt_step s (s\<lparr>cl := c, env := g, held := p # held s\<rparr>)"
| spin: "\<lbrakk>\<not> spinning s; head (free_queue (cl s)) = None\<rbrakk> \<Longrightarrow> mt_step s (s\<lparr>spinning := True\<rparr>)"
| fill: "\<lbrakk>p \<in> set (held s); slot = buffer_slots (cl s) ! unat p; length b = length (buffer slot)\<rbrakk> \<Longrightarrow>
    mt_step s (s\<lparr>cl := (cl s)\<lparr>buffer_slots := (buffer_slots (cl s))[unat p := slot\<lparr>buffer := b\<rparr>]\<rparr>\<rparr>)"
| number: "mt_step s (s\<lparr>cl := (cl s)\<lparr>publish_packet_id := i, subscribe_packet_id := j\<rparr>\<rparr>)"
| register: "\<lbrakk>\<not> spinning s; ack_heap (env s) a = None; enqueue_waiting a (cl s) w (env s) = Some (st, c, g);
      caller_request w\<rbrakk> \<Longrightarrow>
    mt_step s (s\<lparr>cl := c, env := g\<rparr>)"
| submit: "\<lbrakk>\<not> spinning s; p \<in> set (held s); slot_heap (env s) a = None;
      enqueue_slot_for_send a (cl s) p len (env s) = Some (st, c, g)\<rbrakk> \<Longrightarrow>
    mt_step s (s\<lparr>cl := c, env := g, held := remove1 p (held s), submitted := submitted s @ [slot_packet c p]\<rparr>)"
| signal: "\<not> spinning s \<Longrightarrow> mt_step s (s\<lparr>cl := signal_disconnect (cl s)\<rparr>)"
| take_end: "\<lbrakk>\<not> spinning s; pc s = At_top; session_take (cl s) (env s) = Some (True, r, c, g)\<rbrakk> \<Longrightarrow>
    mt_step s (s\<lparr>cl := c, env := g, pc := Ended\<rparr>)"
| take_none: "\<lbrakk>\<not> spinning s; pc s = At_top; session_take (cl s) (env s) = Some (False, None, c, g)\<rbrakk> \<Longrightarrow>
    mt_step s (s\<lparr>cl := c, env := g, pc := Receiving\<rparr>)"
| take_slot: "\<lbrakk>\<not> spinning s; pc s = At_top; session_take (cl s) (env s) = Some (False, Some p, c, g)\<rbrakk> \<Longrightarrow>
    mt_step s (s\<lparr>cl := c, env := g, pc := Sending p\<rparr>)"
| send: "\<lbrakk>pc s = Sending p; session_send p (cl s) (env s) = Some (c, g)\<rbrakk> \<Longrightarrow>
    mt_step s (s\<lparr>cl := c, env := g, pc := Returning p, transmitted := transmitted s @ [slot_packet (cl s) p]\<rparr>)"
| return: "\<lbrakk>\<not> spinning s; pc s = Returning p; slot_heap (env s) a = None;
      session_return a p (cl s) (env s) = Some (c, g)\<rbrakk> \<Longrightarrow>
    mt_step s (s\<lparr>cl := c, env := g, pc := Receiving\<rparr>)"
| receive: "\<lbrakk>pc s = Receiving; session_receive (cl s) (env s) = Some (r, c, g)\<rbrakk> \<Longrightarrow>
    mt_step s (s\<lparr>cl := c, env := g, pc := (case r of None \<Rightarrow> At_top | Some w \<Rightarrow> Requeueing w)\<rparr>)"
| requeue: "\<lbrakk>\<not> spinning s; pc s = Requeueing w; ack_heap (env s) a = None;
      enqueue_waiting a (cl s) w (env s) = Some (st, c, g)\<rbrakk> \<Longrightarrow>
    mt_step s (s\<lparr>cl := c, env := g, pc := At_top\<rparr>)"

abbreviation mt_steps :: "('i, 'w) mt_system \<Rightarrow> ('i, 'w) mt_system \<Rightarrow> bool" where
  "mt_steps \<equiv> mt_step\<^sup>*\<^sup>*"

subsection \<open>The invariant\<close>

text \<open>The slot the session thread owns, and the packet in it that is not yet sent.\<close>

fun owned :: "session_pc \<Rightarrow> slot_index_t list" where
  "owned (Sending p) = [p]"
| "owned (Returning p) = [p]"
| "owned _ = []"

fun unsent :: "session_pc \<Rightarrow> slot_index_t list" where
  "unsent (Sending p) = [p]"
| "unsent _ = []"

definition all_slots :: "('i, 'w) smqtt_mt_client \<Rightarrow> slot_index_t list" where
  "all_slots c = map of_nat [0..<length (buffer_slots c)]"

definition slots_inv :: "slot_index_t list \<Rightarrow> slot_index_t list \<Rightarrow> ('i, 'w) mt_system \<Rightarrow> bool" where
  "slots_inv fs ss s \<longleftrightarrow>
     pool_at (slot_heap (env s)) (free_queue (cl s)) (send_queue (cl s)) fs ss \<and>
     (\<exists>ws. acks_at (cl s) (env s) ws) \<and>
     length (buffer_slots (cl s)) = unat (buffer_count (cl s)) \<and>
     mset (fs @ ss @ held s @ owned (pc s)) = mset (all_slots (cl s)) \<and>
     submitted s = transmitted s @ map (slot_packet (cl s)) (unsent (pc s) @ ss) \<and>
     (spinning s \<longrightarrow> fs = [])"

lemma slots_numbers:
  assumes "slots_inv fs ss s"
  shows "distinct (fs @ ss @ held s @ owned (pc s))"
    and "p \<in> set (fs @ ss @ held s @ owned (pc s)) \<Longrightarrow> unat p < length (buffer_slots (cl s))"
proof -
  let ?n = "length (buffer_slots (cl s))"
  from assms have n: "?n < 2 ^ 16" and m: "mset (fs @ ss @ held s @ owned (pc s)) = mset (all_slots (cl s))"
    using unat_u16_lt [of "buffer_count (cl s)"] by (simp_all add: slots_inv_def)
  have u: "unat (of_nat i :: slot_index_t) = i" if "i < ?n" for i
    using that n by (intro unat_of_nat_small) simp
  have "inj_on (of_nat :: nat \<Rightarrow> slot_index_t) {0..<?n}" by (rule inj_on_inverseI [of _ unat]) (simp add: u)
  then have "distinct (all_slots (cl s))" by (simp add: all_slots_def distinct_map)
  with m show "distinct (fs @ ss @ held s @ owned (pc s))" by (metis mset_eq_imp_distinct_iff)
  assume "p \<in> set (fs @ ss @ held s @ owned (pc s))"
  with m have "p \<in> set (all_slots (cl s))" by (metis mset_eq_setD)
  with u show "unat p < ?n" by (auto simp: all_slots_def)
qed

lemma slots_inv_length:
  assumes "slots_inv fs ss s"
  shows "length (fs @ ss @ held s @ owned (pc s)) = unat (buffer_count (cl s))"
proof -
  from assms have "size (mset (fs @ ss @ held s @ owned (pc s))) = size (mset (all_slots (cl s)))"
    by (simp only: slots_inv_def)
  with assms show ?thesis by (simp only: size_mset) (simp add: all_slots_def slots_inv_def)
qed

lemma slot_packet_slots: "buffer_slots c' = buffer_slots c \<Longrightarrow> slot_packet c' = slot_packet c"
  by (simp add: slot_packet_def fun_eq_iff)

lemma slot_packets_other:
  "p \<notin> set qs \<Longrightarrow>
    map (slot_packet (c\<lparr>buffer_slots := (buffer_slots c)[unat p := x]\<rparr>)) qs = map (slot_packet c) qs"
  by (auto simp: slot_packet_def Let_def) (metis nth_list_update_neq unsigned_word_eqI)+

lemma all_slots_length: "length (buffer_slots c') = length (buffer_slots c) \<Longrightarrow> all_slots c' = all_slots c"
  by (simp add: all_slots_def)

text \<open>The steps that move a slot or change one.\<close>

lemma acquire_inv:
  assumes "slots_inv fs ss s" "\<not> spinning s" "get_buffer_slot (cl s) (env s) = Some (p, c, g)"
  shows "\<exists>gs. fs = p # gs \<and> slots_inv gs ss (s\<lparr>cl := c, env := g, held := p # held s\<rparr>)"
proof -
  from assms(3) obtain q h where l: "get_slot_loop (free_queue (cl s)) (slot_heap (env s)) = Some (p, q, h)"
    "c = (cl s)\<lparr>free_queue := q\<rparr>" "g = (env s)\<lparr>slot_heap := h\<rparr>"
    by (auto simp: get_buffer_slot_def Option.bind_eq_Some_conv)
  from assms(1) have "pool_at (slot_heap (env s)) (free_queue (cl s)) (send_queue (cl s)) fs ss"
    by (simp add: slots_inv_def)
  from get_slot_loop_pool [OF this] l(1) obtain gs where
    gs: "fs = p # gs" "pool_at h q (send_queue (cl s)) gs ss" by (cases fs) auto
  have "slot_packet c = slot_packet (cl s)" "all_slots c = all_slots (cl s)"
    by (rule slot_packet_slots all_slots_length, simp add: l(2))+
  with gs assms(1,2) l(2,3) show ?thesis by (auto simp: slots_inv_def acks_at_def)
qed

lemma fill_inv:
  assumes "slots_inv fs ss s" "p \<in> set (held s)"
  shows "slots_inv fs ss (s\<lparr>cl := (cl s)\<lparr>buffer_slots := (buffer_slots (cl s))[unat p := x]\<rparr>\<rparr>)"
proof -
  let ?c = "(cl s)\<lparr>buffer_slots := (buffer_slots (cl s))[unat p := x]\<rparr>"
  from slots_numbers(1) [OF assms(1)] assms(2) have "p \<notin> set (unsent (pc s) @ ss)" by (cases "pc s") auto
  from slot_packets_other [OF this] have "map (slot_packet ?c) (unsent (pc s) @ ss) =
    map (slot_packet (cl s)) (unsent (pc s) @ ss)" .
  moreover have "all_slots ?c = all_slots (cl s)" by (rule all_slots_length) simp
  ultimately show ?thesis using assms(1) by (simp add: slots_inv_def acks_at_def)
qed

lemma submit_inv:
  assumes "slots_inv fs ss s" "p \<in> set (held s)" "slot_heap (env s) a = None"
    "enqueue_slot_for_send a (cl s) p len (env s) = Some (st, c, g)"
  shows "slots_inv fs (ss @ [p])
    (s\<lparr>cl := c, env := g, held := remove1 p (held s), submitted := submitted s @ [slot_packet c p]\<rparr>)"
proof -
  from assms(4) obtain slot q h where
    e: "enqueue a (send_queue (cl s)) p (slot_heap (env s)) = Some (q, h)"
    "c = (cl s)\<lparr>buffer_slots := (buffer_slots (cl s))[unat p := slot\<lparr>message_length := len\<rparr>], send_queue := q\<rparr>"
    "g = (env s)\<lparr>slot_heap := h\<rparr>"
    by (auto simp: enqueue_slot_for_send_def Let_def Option.bind_eq_Some_conv)
  let ?s = "s\<lparr>cl := (cl s)\<lparr>buffer_slots := (buffer_slots (cl s))[unat p := slot\<lparr>message_length := len\<rparr>]\<rparr>\<rparr>"
  from fill_inv [OF assms(1,2)] have i: "slots_inv fs ss ?s" .
  then have "pool_at (slot_heap (env s)) (free_queue (cl s)) (send_queue (cl s)) fs ss" by (simp add: slots_inv_def)
  from pool.enq_right [OF this assms(3) e(1)] have "pool_at h (free_queue (cl s)) q fs (ss @ [p])" .
  moreover have "slot_packet c = slot_packet (cl ?s)" "all_slots c = all_slots (cl ?s)"
    by (rule slot_packet_slots all_slots_length, simp add: e(2))+
  moreover from assms(2) obtain H where "mset (held s) = add_mset p H" by (metis multi_member_split set_mset_mset)
  ultimately show ?thesis using i e(2,3) by (simp add: slots_inv_def acks_at_def)
qed

lemma take_inv:
  assumes "slots_inv fs ss s" "pc s = At_top" "session_take (cl s) (env s) = Some (False, r, c, g)"
  shows "\<exists>ts. slots_inv fs ts (s\<lparr>cl := c, env := g, pc := (case r of None \<Rightarrow> Receiving | Some p \<Rightarrow> Sending p)\<rparr>)"
proof -
  from assms(3) obtain q h where d: "dequeue (send_queue (cl s)) (slot_heap (env s)) = Some (r, q, h)"
    "c = (cl s)\<lparr>send_queue := q\<rparr>" "g = (env s)\<lparr>slot_heap := h\<rparr>"
    by (auto simp: session_take_def Let_def Option.bind_eq_Some_conv split: if_splits)
  from assms(1) have "pool_at (slot_heap (env s)) (free_queue (cl s)) (send_queue (cl s)) fs ss"
    by (simp add: slots_inv_def)
  note deq = pool.deq_right [OF this d(1)]
  have "slot_packet c = slot_packet (cl s)" "all_slots c = all_slots (cl s)"
    by (rule slot_packet_slots all_slots_length, simp add: d(2))+
  with deq assms(1,2) d(2,3) show ?thesis by (auto simp: slots_inv_def acks_at_def split: option.splits)
qed

lemma return_inv:
  assumes "slots_inv fs ss s" "\<not> spinning s" "pc s = Returning p" "slot_heap (env s) a = None"
    "session_return a p (cl s) (env s) = Some (c, g)"
  shows "slots_inv (fs @ [p]) ss (s\<lparr>cl := c, env := g, pc := Receiving\<rparr>)"
proof -
  from assms(5) obtain q h where e: "enqueue a (free_queue (cl s)) p (slot_heap (env s)) = Some (q, h)"
    "c = (cl s)\<lparr>free_queue := q\<rparr>" "g = (env s)\<lparr>slot_heap := h\<rparr>"
    by (auto simp: session_return_def Option.bind_eq_Some_conv)
  from assms(1) have "pool_at (slot_heap (env s)) (free_queue (cl s)) (send_queue (cl s)) fs ss"
    by (simp add: slots_inv_def)
  from pool.enq_left [OF this assms(4) e(1)] have "pool_at h q (send_queue (cl s)) (fs @ [p]) ss" .
  moreover have "slot_packet c = slot_packet (cl s)" "all_slots c = all_slots (cl s)"
    by (rule slot_packet_slots all_slots_length, simp add: e(2))+
  ultimately show ?thesis using assms(1-3) e(2,3) by (simp add: slots_inv_def acks_at_def)
qed

text \<open>Steps that leave the slots alone.\<close>

lemma frame_inv:
  assumes "slots_inv fs ss s" "session_frame (cl s, env s) (c, g)" "owned k = owned (pc s)" "unsent k = unsent (pc s)"
  shows "slots_inv fs ss (s\<lparr>cl := c, env := g, pc := k\<rparr>)"
proof -
  have "slot_packet c = slot_packet (cl s)" "all_slots c = all_slots (cl s)"
    by (rule slot_packet_slots all_slots_length, use assms(2) in \<open>simp add: session_frame_def\<close>)+
  with assms show ?thesis by (simp add: slots_inv_def session_frame_def)
qed

lemma enqueue_waiting_frame:
  assumes "enqueue_waiting a c w g = Some (st, c', g')" "ack_heap g a = None"
  shows "session_frame (c, g) (c', g')"
proof -
  have "\<exists>zs. acks_at c' g' zs" if "acks_at c g ws" for ws
    using enqueue_waiting_acks [OF that assms(2), of w] assms(1) by (metis Pair_inject option.inject)
  with assms(1) show ?thesis by (auto simp: session_frame_def enqueue_waiting_def Option.bind_eq_Some_conv)
qed

lemma env_frame_inv:
  "\<lbrakk>slots_inv fs ss s; session_frame (cl s, env s) (c, g)\<rbrakk> \<Longrightarrow> slots_inv fs ss (s\<lparr>cl := c, env := g\<rparr>)"
  using frame_inv [of fs ss s c g "pc s"] by simp

lemma client_frame_inv:
  "\<lbrakk>slots_inv fs ss s; session_frame (cl s, env s) (c, env s)\<rbrakk> \<Longrightarrow> slots_inv fs ss (s\<lparr>cl := c\<rparr>)"
  using frame_inv [of fs ss s c "env s" "pc s"] by simp

lemma update_frames:
  "session_frame (c, g) (c\<lparr>publish_packet_id := i, subscribe_packet_id := j\<rparr>, g)"
  "session_frame (c, g) (signal_disconnect c, g)"
  "session_send p c g = Some (c', g') \<Longrightarrow> session_frame (c, g) (c', g')"
  by (auto simp: session_frame_def signal_disconnect_def session_send_def Option.bind_eq_Some_conv)

lemma pool_empty_head: "\<lbrakk>pool_at h p q xs ys; head p = None\<rbrakk> \<Longrightarrow> xs = []"
proof -
  assume "pool_at h p q xs ys" "head p = None"
  then obtain as where "queue_at h p as xs" "head p = None" by (auto simp: pool_at_def)
  then show "xs = []" using fwd_length [of h as None xs] by (cases as) (auto simp: queue_at_def)
qed

lemma spin_inv: "\<lbrakk>slots_inv fs ss s; head (free_queue (cl s)) = None\<rbrakk> \<Longrightarrow> slots_inv fs ss (s\<lparr>spinning := True\<rparr>)"
  using pool_empty_head by (fastforce simp: slots_inv_def)

lemma take_end_inv:
  assumes "slots_inv fs ss s" "pc s = At_top" "session_take (cl s) (env s) = Some (True, r, c, g)"
  shows "slots_inv fs ss (s\<lparr>cl := c, env := g, pc := Ended\<rparr>)"
proof -
  from assms(3) have "c = cl s" "g = env s"
    by (auto simp: session_take_def Let_def Option.bind_eq_Some_conv split: if_splits)
  with frame_inv [OF assms(1), of c g Ended] assms(2) show ?thesis by simp
qed

lemma send_inv:
  assumes "slots_inv fs ss s" "pc s = Sending p" "session_send p (cl s) (env s) = Some (c, g)"
  shows "slots_inv fs ss
    (s\<lparr>cl := c, env := g, pc := Returning p, transmitted := transmitted s @ [slot_packet (cl s) p]\<rparr>)"
proof -
  from update_frames(3) [OF assms(3)] have f: "session_frame (cl s, env s) (c, g)" .
  then have "slot_packet c = slot_packet (cl s)" by (intro slot_packet_slots) (simp add: session_frame_def)
  with f assms(1,2) show ?thesis by (simp add: slots_inv_def session_frame_def all_slots_def)
qed

lemma receive_inv:
  assumes "slots_inv fs ss s" "pc s = Receiving" "session_receive (cl s) (env s) = Some (r, c, g)"
  shows "slots_inv fs ss (s\<lparr>cl := c, env := g, pc := (case r of None \<Rightarrow> At_top | Some w \<Rightarrow> Requeueing w)\<rparr>)"
  by (rule frame_inv [OF assms(1) session_receive_frame [OF assms(3), unfolded handler_frame_def, THEN conjunct1]]) (simp_all add: assms(2) split: option.split)

lemma mt_step_inv: "\<lbrakk>mt_step s t; slots_inv fs ss s\<rbrakk> \<Longrightarrow> \<exists>fs' ss'. slots_inv fs' ss' t"
proof (induction rule: mt_step.induct)
  case acquire
  from acquire_inv [OF acquire(3,1,2)] show ?case by blast
next
  case spin
  from spin_inv [OF spin(3,2)] show ?case by blast
next
  case fill
  from fill_inv [OF fill(4,1)] show ?case by blast
next
  case number
  from client_frame_inv [OF number update_frames(1)] show ?case by blast
next
  case register
  from env_frame_inv [OF register(5) enqueue_waiting_frame [OF register(3,2)]] show ?case by blast
next
  case submit
  from submit_inv [OF submit(5,2-4)] show ?case by blast
next
  case signal
  from client_frame_inv [OF signal(2) update_frames(2)] show ?case by blast
next
  case take_end
  from take_end_inv [OF take_end(4,2,3)] show ?case by blast
next
  case take_none
  from take_inv [OF take_none(4,2,3)] show ?case by auto
next
  case take_slot
  from take_inv [OF take_slot(4,2,3)] show ?case by auto
next
  case send
  from send_inv [OF send(3,1,2)] show ?case by blast
next
  case return
  from return_inv [OF return(5,1-4)] show ?case by blast
next
  case receive
  from receive_inv [OF receive(3,1,2)] show ?case by blast
next
  case requeue
  from frame_inv [OF requeue(5) enqueue_waiting_frame [OF requeue(4,3)], of At_top] requeue(2) show ?case by auto
qed

lemma mt_steps_inv: "mt_steps s t \<Longrightarrow> slots_inv fs ss s \<Longrightarrow> \<exists>fs' ss'. slots_inv fs' ss' t"
proof (induction rule: rtranclp_induct)
  case (step t u)
  then obtain fs' ss' where "slots_inv fs' ss' t" by blast
  with step(2) show ?case by (rule mt_step_inv)
qed blast

lemma mt_step_count: "mt_step s t \<Longrightarrow> buffer_count (cl t) = buffer_count (cl s)"
proof (induction rule: mt_step.induct)
  case (receive s r c g)
  from session_receive_frame [OF receive(2)] show ?case by (simp add: handler_frame_def session_frame_def)
qed (auto simp: get_buffer_slot_def enqueue_waiting_def enqueue_slot_for_send_def signal_disconnect_def session_take_def
    session_send_def session_return_def Let_def Option.bind_eq_Some_conv split: if_splits)

lemma mt_steps_count: "mt_steps s t \<Longrightarrow> buffer_count (cl t) = buffer_count (cl s)"
  by (induction rule: rtranclp_induct) (simp_all add: mt_step_count)

subsection \<open>A caller that finds no slot\<close>

text \<open>
  While a caller polls the empty free queue it keeps the mutex: what can still happen is a send that had started,
  the handling of one packet, and callers filling the slots they hold.
\<close>

lemma spinning_step:
  assumes "mt_step s t" "spinning s"
  shows "spinning t \<and> held t = held s \<and> submitted t = submitted s \<and> slot_heap (env t) = slot_heap (env s) \<and>
    length (transmitted t) + length (unsent (pc t)) = length (transmitted s) + length (unsent (pc s))"
  using assms
proof (induction rule: mt_step.induct)
  case (receive s r c g)
  from session_receive_frame [OF receive(2)] receive(1,3) show ?case
    by (simp add: handler_frame_def session_frame_def split: option.split)
qed (auto simp: session_send_def Option.bind_eq_Some_conv)

lemma spinning_steps:
  assumes "mt_steps s t" "spinning s"
  shows "spinning t \<and> held t = held s \<and> submitted t = submitted s \<and> slot_heap (env t) = slot_heap (env s) \<and>
    length (transmitted t) + length (unsent (pc t)) = length (transmitted s) + length (unsent (pc s))"
  using assms
proof (induction rule: rtranclp_induct)
  case (step t u)
  with spinning_step [OF step(2)] show ?case by simp
qed simp

subsection \<open>The first state\<close>

definition initial_system :: "('i, 'w) smqtt_mt_client \<Rightarrow> 'w mt_env \<Rightarrow> ('i, 'w) mt_system" where
  "initial_system c g = \<lparr>cl = c, env = g, pc = At_top, held = [], spinning = False, submitted = [], transmitted = []\<rparr>"

text \<open>Memory as \<^verbatim>\<open>malloc\<close> hands it out for \<open>n\<close> slots of \<open>k\<close> bytes: entries not in use, one for each slot.\<close>

definition memory_ok :: "fresh_memory \<Rightarrow> nat \<Rightarrow> nat \<Rightarrow> 'a heap \<Rightarrow> bool" where
  "memory_ok m n k h \<longleftrightarrow> inj_on (raw_entry m) {..<n} \<and> (\<forall>i < n. h (raw_entry m i) = None) \<and>
     length (raw_receive m) = k \<and> (\<forall>i < n. length (raw_slot m i) = k)"

lemma start_session:
  assumes "memory_ok m (unat n) k (slot_heap g)"
  obtains c' g' where "start_session_thread m c n sz s g = Some (True, c', g')"
    "slots_inv (all_slots c') [] (initial_system c' g')" "acks_at c' g' []" "ack_heap g' = ack_heap g"
    "all_slots c' = map of_nat [0..<unat n]"
    "server c' = s" "buffer_size c' = sz" "buffer_count c' = n" "\<not> ready_to_disconnect c'"
    "receive_buffer c' = raw_receive m" "\<And>i. i < unat n \<Longrightarrow> buffer (buffer_slots c' ! i) = raw_slot m i"
    "connected c' = connected c" "outside g' = outside g" "calls g' = calls g"
    "publish_packet_id c' = publish_packet_id c" "subscribe_packet_id c' = subscribe_packet_id c"
    "msg_callback c' = msg_callback c"
    "\<And>a. a \<notin> raw_entry m ` {..<unat n} \<Longrightarrow> slot_heap g a = None \<Longrightarrow> slot_heap g' a = None"
proof -
  let ?ps = "map (\<lambda>i. (raw_entry m i, of_nat i :: slot_index_t)) [0..<unat n]"
  from assms have "distinct (map fst ?ps)" "\<forall>a \<in> fst ` set ?ps. slot_heap g a = None"
    by (auto simp: memory_ok_def distinct_map comp_def atLeast0LessThan)
  from slots.enq_all_holds [OF slots.holds_empty this] obtain q h as where
    q: "enq_all enqueue ?ps init_queue (slot_heap g) = Some (q, h)" "queue_at h q as (map snd ?ps)"
      "\<forall>b. b \<notin> fst ` set ?ps \<longrightarrow> slot_heap g b = None \<longrightarrow> h b = None" by auto
  have "fst ` set ?ps = raw_entry m ` {..<unat n}" by (auto simp: image_image atLeast0LessThan)
  with q(3) have fresh: "\<And>a. a \<notin> raw_entry m ` {..<unat n} \<Longrightarrow> slot_heap g a = None \<Longrightarrow> h a = None" by simp
  define c' where "c' = c\<lparr>buffer_count := n, buffer_size := sz, ready_to_disconnect := False, server := s,
    receive_buffer := raw_receive m, free_queue := q, send_queue := init_queue, ack_queue := init_queue,
    buffer_slots := map (\<lambda>i. \<lparr>message_length = 0, buffer = raw_slot m i\<rparr>) [0..<unat n]\<rparr>"
  let ?g = "g\<lparr>slot_heap := h\<rparr>"
  have a: "all_slots c' = map snd ?ps" by (simp add: all_slots_def c'_def comp_def)
  have e: "queue_at h init_queue [] []" "dqueue_at (ack_heap g) init_queue [] []"
    by (simp_all add: queue_at_def dqueue_at_def init_queue_def)
  from q(2) e(1) have "pool_at h q init_queue (all_slots c') []"
    unfolding pool_at_def a by (intro exI [of _ as] exI [of _ "[]"]) simp
  with e(2) have "slots_inv (all_slots c') [] (initial_system c' ?g)" "acks_at c' ?g []"
    by (auto simp: slots_inv_def initial_system_def acks_at_def c'_def)
  moreover have "start_session_thread m c n sz s g = Some (True, c', ?g)"
    using q(1) by (simp add: start_session_thread_def c'_def Let_def)
  ultimately show thesis
    by (intro that [of c' ?g]) (simp_all add: c'_def a [unfolded c'_def] fresh)
qed

subsection \<open>An iteration of the session loop is a run\<close>

lemma steps2: "\<lbrakk>mt_step s t; mt_step t u\<rbrakk> \<Longrightarrow> mt_steps s u"
  by (rule converse_rtranclp_into_rtranclp [OF _ r_into_rtranclp])

lemma steps3: "\<lbrakk>mt_step s t; mt_step t u; mt_step u v\<rbrakk> \<Longrightarrow> mt_steps s v"
  by (rule converse_rtranclp_into_rtranclp [OF _ steps2])

lemma dequeue_fresh: "dequeue q h = Some (r, q', h') \<Longrightarrow> h a = None \<Longrightarrow> h' a = None"
  by (auto simp: dequeue_def Option.bind_eq_Some_conv split: option.splits if_splits)

lemma send_half_steps:
  assumes s: "\<not> spinning s" "pc s = At_top" "slot_heap (env s) a = None" "\<exists>ws. acks_at (cl s) (env s) ws"
    and t: "session_take (cl s) (env s) = Some (False, r, c, g)"
    and u: "(case r of None \<Rightarrow> Some (c, g)
      | Some p \<Rightarrow> Option.bind (session_send p c g) (\<lambda>(c, g). session_return a p c g)) = Some (c', g')"
  shows "\<exists>tr. mt_steps s (s\<lparr>cl := c', env := g', pc := Receiving, transmitted := transmitted s @ tr\<rparr>)"
    and "(\<exists>ws. acks_at c' g' ws) \<and> ack_heap g' = ack_heap (env s)"
proof -
  from t obtain q h where d: "dequeue (send_queue (cl s)) (slot_heap (env s)) = Some (r, q, h)"
    "c = (cl s)\<lparr>send_queue := q\<rparr>" "g = (env s)\<lparr>slot_heap := h\<rparr>"
    by (auto simp: session_take_def Let_def Option.bind_eq_Some_conv split: if_splits)
  show "\<exists>tr. mt_steps s (s\<lparr>cl := c', env := g', pc := Receiving, transmitted := transmitted s @ tr\<rparr>)"
  proof (cases r)
    case None
    with u mt_step.take_none [OF s(1,2)] t have "mt_step s (s\<lparr>cl := c', env := g', pc := Receiving\<rparr>)" by simp
    then show ?thesis by (intro exI [of _ "[]"] r_into_rtranclp) (cases s, simp)
  next
    case (Some p)
    with u obtain c1 g1 where e: "session_send p c g = Some (c1, g1)" "session_return a p c1 g1 = Some (c', g')"
      by (auto simp: Option.bind_eq_Some_conv)
    have h: "slot_heap g1 a = None"
      using e(1) d dequeue_fresh [OF d(1) s(3)] by (auto simp: session_send_def Option.bind_eq_Some_conv)
    let ?s1 = "s\<lparr>cl := c, env := g, pc := Sending p\<rparr>"
    let ?s2 = "?s1\<lparr>cl := c1, env := g1, pc := Returning p, transmitted := transmitted ?s1 @ [slot_packet (cl ?s1) p]\<rparr>"
    have "mt_step s ?s1" using mt_step.take_slot [OF s(1,2)] t Some by blast
    moreover have "mt_step ?s1 ?s2" by (rule mt_step.send) (use e(1) in simp_all)
    moreover have "mt_step ?s2 (?s2\<lparr>cl := c', env := g', pc := Receiving\<rparr>)"
      by (rule mt_step.return) (use s(1) e(2) h in simp_all)
    ultimately have "mt_steps s (?s2\<lparr>cl := c', env := g', pc := Receiving\<rparr>)" by (rule steps3)
    then show ?thesis by (intro exI [of _ "[slot_packet c p]"]) (cases s, simp)
  qed
  show "(\<exists>ws. acks_at c' g' ws) \<and> ack_heap g' = ack_heap (env s)"
    using u d s(4) by (cases r) (auto simp: session_send_def session_return_def Option.bind_eq_Some_conv)
qed

lemma receive_half_steps:
  assumes s: "\<not> spinning s" "pc s = Receiving" "ack_heap (env s) b = None" "\<exists>ws. acks_at (cl s) (env s) ws"
    and r: "session_receive (cl s) (env s) = Some (w, c, g)"
    and u: "(case w of None \<Rightarrow> Some (c, g)
      | Some w \<Rightarrow> Option.bind (enqueue_waiting b c w g) (\<lambda>(st, c, g). Some (c, g))) = Some (c', g')"
  shows "mt_steps s (s\<lparr>cl := c', env := g', pc := At_top\<rparr>)"
proof -
  note step = mt_step.receive [OF s(2) r]
  show ?thesis
  proof (cases w)
    case None
    with step u show ?thesis by auto
  next
    case (Some v)
    let ?t = "s\<lparr>cl := c, env := g, pc := Requeueing v\<rparr>"
    from u Some obtain st where e: "enqueue_waiting b c v g = Some (st, c', g')"
      by (auto simp: Option.bind_eq_Some_conv)
    have "ack_heap g b = None"
      using session_receive_frame [OF r] s(3,4) by (auto simp: handler_frame_def)
    with s(1) e have "mt_step ?t (?t\<lparr>cl := c', env := g', pc := At_top\<rparr>)"
      by (intro mt_step.requeue) auto
    moreover have "mt_step s ?t" using step Some by simp
    ultimately have "mt_steps s (?t\<lparr>cl := c', env := g', pc := At_top\<rparr>)" using steps2 by blast
    then show ?thesis by (cases s) simp
  qed
qed

lemma iteration_steps:
  assumes s: "\<not> spinning s" "pc s = At_top" "slot_heap (env s) a = None" "ack_heap (env s) b = None"
    "\<exists>ws. acks_at (cl s) (env s) ws"
    and r: "session_iteration a b (cl s) (env s) = Some (ended, c', g')"
  shows "\<exists>tr. mt_steps s (s\<lparr>cl := c', env := g', pc := (if ended then Ended else At_top),
    transmitted := transmitted s @ tr\<rparr>)"
proof -
  from r obtain ready p c g where t: "session_take (cl s) (env s) = Some (ready, p, c, g)"
    by (auto simp: session_iteration_def Option.bind_eq_Some_conv)
  show ?thesis
  proof (cases ready)
    case True
    with r t have "ended" "c' = c" "g' = g" by (auto simp: session_iteration_def)
    with mt_step.take_end [OF s(1,2)] t True have "mt_step s (s\<lparr>cl := c', env := g', pc := Ended\<rparr>)" by simp
    with \<open>ended\<close> show ?thesis by (intro exI [of _ "[]"] r_into_rtranclp) (cases s, simp)
  next
    case False
    with r t obtain c1 g1 w c2 g2 where u: "\<not> ended" "(case p of None \<Rightarrow> Some (c, g)
        | Some p \<Rightarrow> Option.bind (session_send p c g) (\<lambda>(c, g). session_return a p c g)) = Some (c1, g1)"
      "session_receive c1 g1 = Some (w, c2, g2)" "(case w of None \<Rightarrow> Some (c2, g2)
        | Some w \<Rightarrow> Option.bind (enqueue_waiting b c2 w g2) (\<lambda>(st, c, g). Some (c, g))) = Some (c', g')"
      by (auto simp: session_iteration_def Option.bind_eq_Some_conv)
    note h = send_half_steps [OF s(1-3,5) _ u(2)]
    from h t False obtain tr where
      m: "mt_steps s (s\<lparr>cl := c1, env := g1, pc := Receiving, transmitted := transmitted s @ tr\<rparr>)"
      and k: "\<exists>ws. acks_at c1 g1 ws" "ack_heap g1 = ack_heap (env s)" by auto
    let ?t = "s\<lparr>cl := c1, env := g1, pc := Receiving, transmitted := transmitted s @ tr\<rparr>"
    have "mt_steps ?t (?t\<lparr>cl := c', env := g', pc := At_top\<rparr>)"
      by (rule receive_half_steps [of _ b]) (use s k u in simp_all)
    with m have "mt_steps s (?t\<lparr>cl := c', env := g', pc := At_top\<rparr>)" by (rule rtranclp_trans)
    with u(1) show ?thesis by (intro exI [of _ tr]) (cases s, simp)
  qed
qed

end
