(* ===== verification/MT_Client.thy ===== *)
theory MT_Client
  imports Session_Steps
begin

section \<open>The multithreaded client (\<^verbatim>\<open>smqttc_mt.c\<close>)\<close>

text \<open>
  The functions of \<^verbatim>\<open>libsmqttclient_mt/smqttc_mt.c\<close>. A call takes a buffer slot, builds its packet there,
  registers the request that waits for the reply and submits the slot; it never waits for the broker.
  Each is modelled as it runs without interference, from the state in which it starts; that every
  call is a sequence of the steps of \<^verbatim>\<open>Session_Steps\<close>, which may interleave with others, is shown below.
  The arguments \<open>a\<close> and \<open>b\<close> are the addresses of the queue entries the call creates.
\<close>

subsection \<open>Connecting\<close>

text \<open>The parameters of \<^verbatim>\<open>smqtt_mt_connect\<close> are those of \<^verbatim>\<open>smqtt_connect\<close> and the message callback.\<close>

fun mt_status_of_refusal :: "connack_msg_t \<Rightarrow> smqtt_mt_status_t" where
  "mt_status_of_refusal Connection_Refused_unacceptable_protocol_version = SMQTT_MT_PROTOCOL"
| "mt_status_of_refusal Connection_Refused_identifier_rejected = SMQTT_MT_IDENTIFIER"
| "mt_status_of_refusal Connection_Refused_server_unavailable = SMQTT_MT_SERVER"
| "mt_status_of_refusal Connection_Refused_bad_username_or_password = SMQTT_MT_NOT_AUTHENTICATED"
| "mt_status_of_refusal Connection_Refused_not_authorized = SMQTT_MT_NOT_AUTHORIZED"
| "mt_status_of_refusal _ = SMQTT_MT_NOACK"

text \<open>What the call leaves in \<^verbatim>\<open>*client\<close>: nothing, or the client, whose session thread is running.\<close>

datatype ('i, 'w) mt_client_out = Mt_unset | Mt_client "('i, 'w) smqtt_mt_client"

text \<open>What follows the receive.\<close>

definition mt_connect_reply ::
  "fresh_memory \<Rightarrow> int \<Rightarrow> ('i, 'w) smqtt_mt_client \<Rightarrow> ('i, 'w) server_t \<Rightarrow> 'w mt_env \<Rightarrow>
    (smqtt_mt_status_t \<times> ('i, 'w) mt_client_out \<times> 'w mt_env) option" where
  "mt_connect_reply m sz connection srv g =
     do {
       let accepted = do {
         (_, connection, g) \<leftarrow>
           start_session_thread m (connection\<lparr>connected := True\<rparr>) 10 1024 srv g;
         Some (SMQTT_MT_OK, Mt_client connection, g)
       };
       if sz > 0 then do {
         resp \<leftarrow> deserialize_response (static_receive g) (unat (word_of_int sz :: size_t));
         case resp of
           None \<Rightarrow> Some (SMQTT_MT_other 99, Mt_unset, g)
         | Some r \<Rightarrow>
             (case r of
                Connack_body t \<Rightarrow>
                  if t \<noteq> Connection_Accepted then do {
                    (_, s, w) \<leftarrow> server_disconnect srv (outside g);
                    Some (mt_status_of_refusal t, Mt_unset, g\<lparr>outside := w\<rparr>)
                  }
                  else accepted
              | _ \<Rightarrow> accepted)
       }
       else do {
         (_, s, w) \<leftarrow> server_disconnect srv (outside g);
         Some (SMQTT_MT_NOMESSAGE, Mt_unset, g\<lparr>outside := w\<rparr>)
       }
     }"

text \<open>
  \<open>connection\<close> is what \<^verbatim>\<open>malloc\<close> returned, a client of indeterminate content or \<^verbatim>\<open>NULL\<close>. In the local mode
  the \<^verbatim>\<open>server\<close> pointer stays \<^verbatim>\<open>NULL\<close>, so the first call through it is undefined.
\<close>

definition smqtt_mt_connect_internal ::
  "('i, 'w) server_t \<Rightarrow> ('i, 'w) smqtt_mt_client option \<Rightarrow> fresh_memory \<Rightarrow> server_mode_t \<Rightarrow> connect_params \<Rightarrow>
    nat option \<Rightarrow> nat \<Rightarrow> 'w mt_env \<Rightarrow> (smqtt_mt_status_t \<times> ('i, 'w) mt_client_out \<times> 'w mt_env) option" where
  "smqtt_mt_connect_internal network_server connection m mode a cb ctx g =
     (case connection of
        None \<Rightarrow> Some (SMQTT_MT_NOMEM, Mt_unset, g)
      | Some connection \<Rightarrow>
          if strlen (cp_client_id a) + 1 > MAX_CLIENT_ID_CHARS \<or>
             strlen (cp_server_ip a) + 1 > MAX_HOSTNAME_CHARS
          then Some (SMQTT_MT_OK, Mt_unset, g)
          else do {
            let connection = connection\<lparr>port := ucast (cp_port a), publish_packet_id := 1,
              subscribe_packet_id := 1, hostname := cstr (cp_server_ip a), clientid := cstr (cp_client_id a),
              msg_callback := cb, msg_cb_context := ctx, connected := False\<rparr>;
            srv \<leftarrow> (if mode = REMOTE_SERVER then Some network_server else None);
            (st, srv, w) \<leftarrow> server_connect srv (hostname connection) (port connection) 100 (outside g);
            let g = g\<lparr>outside := w\<rparr>;
            let stat = status_from_net_mt st;
            if stat \<noteq> SMQTT_MT_OK then Some (stat, Mt_unset, g)
            else do {
              (b, send_len) \<leftarrow> make_connect_message (static_send g) (of_nat BUFFER_SIZE)
                (connect_args_of (clientid connection) a);
              (st, srv, w) \<leftarrow> server_send srv b (of_nat send_len) (outside g);
              let g = g\<lparr>static_send := b, outside := w\<rparr>;
              let stat = status_from_net_mt st;
              if stat \<noteq> SMQTT_MT_OK then Some (stat, Mt_unset, g)
              else do {
                (sz, b, srv, w) \<leftarrow>
                  server_receive srv (static_receive g) (of_nat BUFFER_SIZE) (outside g);
                mt_connect_reply m sz connection srv (g\<lparr>static_receive := b, outside := w\<rparr>)
              }
            }
          })"

definition smqtt_mt_connect ::
  "'w sockets_api \<Rightarrow> server_impl_t \<Rightarrow> (server_impl_t, 'w) smqtt_mt_client option \<Rightarrow> fresh_memory \<Rightarrow>
    connect_params \<Rightarrow> nat option \<Rightarrow> nat \<Rightarrow> 'w mt_env \<Rightarrow>
    (smqtt_mt_status_t \<times> (server_impl_t, 'w) mt_client_out \<times> 'w mt_env) option" where
  "smqtt_mt_connect api raw connection m a cb ctx g =
     smqtt_mt_connect_internal (create_network_server api raw) connection m REMOTE_SERVER a cb ctx g"

subsection \<open>Requests\<close>

text \<open>\<^verbatim>\<open>make_\<dots>_message(buffer, BUFFER_SIZE, \<dots>)\<close> on the buffer of a slot, which returns the packet's length.\<close>

definition fill_slot ::
  "(bytes \<Rightarrow> (bytes \<times> nat) option) \<Rightarrow> slot_index_t \<Rightarrow> ('i, 'w) smqtt_mt_client \<Rightarrow>
    (nat \<times> ('i, 'w) smqtt_mt_client) option" where
  "fill_slot mk slot client =
     do {
       sl \<leftarrow> list_get (buffer_slots client) (unat slot);
       (b, actual_len) \<leftarrow> mk (buffer sl);
       Some (actual_len, client\<lparr>buffer_slots := (buffer_slots client)[unat slot := sl\<lparr>buffer := b\<rparr>]\<rparr>)
     }"

definition smqtt_mt_ping ::
  "nat \<Rightarrow> nat \<Rightarrow> ('i, 'w) smqtt_mt_client \<Rightarrow> u16 \<Rightarrow> nat option \<Rightarrow> nat \<Rightarrow> 'w mt_env \<Rightarrow>
    (smqtt_mt_status_t \<times> ('i, 'w) smqtt_mt_client \<times> 'w mt_env) option" where
  "smqtt_mt_ping a b client timeout_msec cb ctx g =
     (if \<not> connected client then Some (SMQTT_MT_NOT_CONNECTED, client, g)
      else do {
        (slot, client, g) \<leftarrow> get_buffer_slot client g;
        (actual_len, client) \<leftarrow> fill_slot (\<lambda>b. make_pingreq_message b (of_nat BUFFER_SIZE)) slot client;
        (_, client, g) \<leftarrow> enqueue_waiting a client
          \<lparr>wtype = PINGRESP, callback = cb, cb_context = ctx, wdata = No_data\<rparr> g;
        (stat, client, g) \<leftarrow> enqueue_slot_for_send b client slot (of_nat actual_len) g;
        if stat \<noteq> SMQTT_MT_OK then Some (stat, client, g)
        else Some (SMQTT_MT_OK, client, g)
      })"

definition smqtt_mt_publish ::
  "nat \<Rightarrow> nat \<Rightarrow> ('i, 'w) smqtt_mt_client \<Rightarrow> bytes \<Rightarrow> bytes option \<Rightarrow> QoS \<Rightarrow> bool \<Rightarrow> nat option \<Rightarrow> nat \<Rightarrow> 'w mt_env \<Rightarrow>
    (smqtt_mt_status_t \<times> ('i, 'w) smqtt_mt_client \<times> 'w mt_env) option" where
  "smqtt_mt_publish a b client topic msg qos retain cb ctx g =
     (if \<not> connected client then Some (SMQTT_MT_NOT_CONNECTED, client, g)
      else if qos > QoS2 then Some (SMQTT_MT_INVALID, client, g)
      else do {
        (slot, client, g) \<leftarrow> get_buffer_slot client g;
        (actual_len, client) \<leftarrow> fill_slot (\<lambda>b. make_publish_message b (of_nat BUFFER_SIZE) topic
          (publish_packet_id client) qos retain msg) slot client;
        (client, g) \<leftarrow>
          (if qos = QoS1 then do {
             (_, client, g) \<leftarrow> enqueue_waiting a client
               \<lparr>wtype = PUBACK, callback = cb, cb_context = ctx,
                wdata = Id_data (publish_packet_id client)\<rparr> g;
             Some (client\<lparr>publish_packet_id := publish_packet_id client + 1\<rparr>, g)
           }
           else if qos = QoS2 then do {
             (_, client, g) \<leftarrow> enqueue_waiting a client
               \<lparr>wtype = PUBREC, callback = cb, cb_context = ctx,
                wdata = Id_data (publish_packet_id client)\<rparr> g;
             Some (client\<lparr>publish_packet_id := publish_packet_id client + 1\<rparr>, g)
           }
           else Some (client, g));
        (stat, client, g) \<leftarrow> enqueue_slot_for_send b client slot (of_nat actual_len) g;
        if stat \<noteq> SMQTT_MT_OK then Some (stat, client, g)
        else Some (SMQTT_MT_OK, client, g)
      })"

text \<open>The waiting request carries the publish identifier, the packet the subscribe identifier.\<close>

definition smqtt_mt_subscribe ::
  "nat \<Rightarrow> nat \<Rightarrow> ('i, 'w) smqtt_mt_client \<Rightarrow> u8 \<Rightarrow> bytes list \<Rightarrow> QoS list \<Rightarrow> nat option \<Rightarrow> nat \<Rightarrow> 'w mt_env \<Rightarrow>
    (smqtt_mt_status_t \<times> ('i, 'w) smqtt_mt_client \<times> 'w mt_env) option" where
  "smqtt_mt_subscribe a b client topic_count topics qoss sub_callback sub_cb_context g =
     (if \<not> connected client then Some (SMQTT_MT_NOT_CONNECTED, client, g)
      else do {
        (slot, client, g) \<leftarrow> get_buffer_slot client g;
        (actual_len, client) \<leftarrow> fill_slot (\<lambda>b. make_subscribe_message b (of_nat BUFFER_SIZE)
          (subscribe_packet_id client) (ucast topic_count) topics qoss) slot client;
        let client = client\<lparr>subscribe_packet_id := subscribe_packet_id client + 1\<rparr>;
        (_, client, g) \<leftarrow> enqueue_waiting a client
          \<lparr>wtype = SUBACK, callback = None, cb_context = sub_cb_context,
           wdata = Suback_data sub_callback (publish_packet_id client)\<rparr> g;
        (stat, client, g) \<leftarrow> enqueue_slot_for_send b client slot (of_nat actual_len) g;
        if stat \<noteq> SMQTT_MT_OK then Some (stat, client, g)
        else Some (SMQTT_MT_OK, client, g)
      })"

definition smqtt_mt_unsubscribe ::
  "nat \<Rightarrow> nat \<Rightarrow> ('i, 'w) smqtt_mt_client \<Rightarrow> u8 \<Rightarrow> bytes list \<Rightarrow> nat option \<Rightarrow> nat \<Rightarrow> 'w mt_env \<Rightarrow>
    (smqtt_mt_status_t \<times> ('i, 'w) smqtt_mt_client \<times> 'w mt_env) option" where
  "smqtt_mt_unsubscribe a b client topic_count topics cb ctx g =
     (if \<not> connected client then Some (SMQTT_MT_NOT_CONNECTED, client, g)
      else do {
        (slot, client, g) \<leftarrow> get_buffer_slot client g;
        (actual_len, client) \<leftarrow> fill_slot (\<lambda>b. make_unsubscribe_message b (of_nat BUFFER_SIZE)
          (subscribe_packet_id client) (ucast topic_count) topics) slot client;
        let client = client\<lparr>subscribe_packet_id := subscribe_packet_id client + 1\<rparr>;
        (_, client, g) \<leftarrow> enqueue_waiting a client
          \<lparr>wtype = SUBACK, callback = cb, cb_context = ctx,
           wdata = Id_data (publish_packet_id client)\<rparr> g;
        (stat, client, g) \<leftarrow> enqueue_slot_for_send b client slot (of_nat actual_len) g;
        if stat \<noteq> SMQTT_MT_OK then Some (stat, client, g)
        else Some (SMQTT_MT_OK, client, g)
      })"

subsection \<open>Disconnecting\<close>

text \<open>
  \<open>ms\<close> are the addresses for the iterations the session thread still makes, \<open>raw\<close> the indeterminate
  value of a function that ends without \<^verbatim>\<open>return\<close>. The join waits for the end of the thread. After it the
  client is gone, and \<^verbatim>\<open>client->server\<close> is a read of freed memory.
\<close>

definition smqtt_mt_disconnect ::
  "(nat \<times> nat) list \<Rightarrow> smqtt_mt_status_t \<Rightarrow> ('i, 'w) smqtt_mt_client \<Rightarrow> 'w mt_env \<Rightarrow>
    (smqtt_mt_status_t \<times> 'w mt_env) option" where
  "smqtt_mt_disconnect ms raw client g =
     do {
       let client = signal_disconnect client;
       (ended, client, g) \<leftarrow> session_thread_loop ms client g;
       if \<not> ended then None
       else case join_session_thread raw client of (stat, freed) \<Rightarrow>
         if stat \<noteq> SMQTT_MT_OK then Some (stat, g)
         else do {
           (b, actual_len) \<leftarrow> make_disconnect_message (static_send g) (of_nat BUFFER_SIZE);
           client \<leftarrow> freed;
           (st, s, w) \<leftarrow> server_send (server client) b (of_nat actual_len) (outside g);
           (_, s, w) \<leftarrow> server_disconnect s w;
           let stat = status_from_net_mt st;
           if stat \<noteq> SMQTT_MT_OK then Some (stat, g\<lparr>static_send := b, outside := w\<rparr>)
           else Some (SMQTT_MT_OK, g\<lparr>static_send := b, outside := w\<rparr>)
         }
     }"

end
