(* ===== verification/MT_Requests.thy ===== *)
theory MT_Requests
  imports MT_Client
begin

section \<open>What the calls of the multithreaded client do\<close>

text \<open>
  \<open>session_at c g fs ss ws\<close> is the state of a client as lists: the free slots, the slots submitted, and the
  waiting requests. Every call takes the first free slot, leaves exactly its packet in it, appends its request and
  submits the slot (\<open>request_done\<close>), and every call and every iteration of the session thread is a run of
  \<open>mt_step\<close>.
\<close>

declare publish_wire.simps [simp del] subscribe_wire.simps [simp del] unsubscribe_wire.simps [simp del]

subsection \<open>The state as lists\<close>

definition session_at ::
  "('i, 'w) smqtt_mt_client \<Rightarrow> 'w mt_env \<Rightarrow> slot_index_t list \<Rightarrow> slot_index_t list \<Rightarrow> waiting_t list \<Rightarrow> bool" where
  "session_at c g fs ss ws \<longleftrightarrow>
     pool_at (slot_heap g) (free_queue c) (send_queue c) fs ss \<and> acks_at c g ws \<and>
     (\<forall>p \<in> set fs. unat p < length (buffer_slots c)) \<and>
     (\<forall>slot \<in> set (buffer_slots c). length (buffer slot) = BUFFER_SIZE)"

text \<open>The part of a client no request changes.\<close>

definition same_session ::
  "('i, 'w) smqtt_mt_client \<times> 'w mt_env \<Rightarrow> ('i, 'w) smqtt_mt_client \<times> 'w mt_env \<Rightarrow> bool" where
  "same_session = (\<lambda>(c, g) (c', g').
     server c' = server c \<and> receive_buffer c' = receive_buffer c \<and> buffer_size c' = buffer_size c \<and>
     buffer_count c' = buffer_count c \<and> length (buffer_slots c') = length (buffer_slots c) \<and>
     connected c' = connected c \<and> ready_to_disconnect c' = ready_to_disconnect c \<and>
     msg_callback c' = msg_callback c \<and> msg_cb_context c' = msg_cb_context c \<and>
     outside g' = outside g \<and> calls g' = calls g)"

lemma get_slot_loop_fresh: "get_slot_loop q h = Some (p, q', h') \<Longrightarrow> h a = None \<Longrightarrow> h' a = None"
proof -
  have "(case r of (p, q', h') \<Rightarrow> h a = None \<longrightarrow> h' a = None)" if "get_slot_loop q h = Some r" for r
  proof (rule get_slot_loop.raw_induct [OF _ that, of "\<lambda>q h r. case r of (p, q', h') \<Rightarrow> h a = None \<longrightarrow> h' a = None"])
    fix loop :: "queue_t \<Rightarrow> slot_index_t heap \<Rightarrow> _" and q h r
    assume IH: "\<And>q h r. loop q h = Some r \<Longrightarrow> case r of (p, q', h') \<Rightarrow> h a = None \<longrightarrow> h' a = None"
      and step: "Option.bind (dequeue q h) (\<lambda>(got, q, h). case got of None \<Rightarrow> loop q h
        | Some position \<Rightarrow> Some (position, q, h)) = Some r"
    from step show "case r of (p, q', h') \<Rightarrow> h a = None \<longrightarrow> h' a = None"
      by (auto simp: Option.bind_eq_Some_conv split: option.splits dest!: IH dest: dequeue_fresh)
  qed
  then show "get_slot_loop q h = Some (p, q', h') \<Longrightarrow> h a = None \<Longrightarrow> h' a = None" by fastforce
qed

lemma get_buffer_slot_takes:
  assumes "session_at c g (p # fs) ss ws"
  obtains q h where "get_buffer_slot c g = Some (p, c\<lparr>free_queue := q\<rparr>, g\<lparr>slot_heap := h\<rparr>)"
    "session_at (c\<lparr>free_queue := q\<rparr>) (g\<lparr>slot_heap := h\<rparr>) fs ss ws" "\<And>a. slot_heap g a = None \<Longrightarrow> h a = None"
proof -
  from assms have "pool_at (slot_heap g) (free_queue c) (send_queue c) (p # fs) ss"
    and p: "unat p < length (buffer_slots c)" by (simp_all add: session_at_def)
  from get_slot_loop_pool [OF this(1)] obtain q h where
    l: "get_slot_loop (free_queue c) (slot_heap g) = Some (p, q, h)" "pool_at h q (send_queue c) fs ss" by auto
  show thesis
    by (rule that [of q h])
      (use l p assms get_slot_loop_fresh [OF l(1)] in \<open>auto simp: get_buffer_slot_def session_at_def list_get_in\<close>)
qed

lemma fill_slot_stores:
  assumes "\<forall>slot \<in> set (buffer_slots c). length (buffer slot) = BUFFER_SIZE" "unat p < length (buffer_slots c)" "builds mk w"
  obtains b where "fill_slot mk p c =
      Some (length w, c\<lparr>buffer_slots := (buffer_slots c)[unat p := (buffer_slots c ! unat p)\<lparr>buffer := b\<rparr>]\<rparr>)"
    "length b = BUFFER_SIZE" "take (length w) b = w"
proof -
  from assms(1,2) have "length (buffer (buffer_slots c ! unat p)) = BUFFER_SIZE" by simp
  from builds_result [OF assms(3) this] obtain b where
    b: "mk (buffer (buffer_slots c ! unat p)) = Some (b, length w)" "length b = BUFFER_SIZE" "take (length w) b = w" .
  with assms(2) show thesis by (intro that [of b]) (simp_all add: fill_slot_def list_get_in)
qed

text \<open>
  The end of every call, once its slot is taken: build, register the request if there is one, submit. \<open>i\<close> and \<open>j\<close>
  are the packet identifiers the call leaves.
\<close>

lemma submit_takes:
  assumes "session_at c g fs ss ws" "unat p < length (buffer_slots c)" "slot_heap g b = None"
  obtains q h where "enqueue_slot_for_send b c p len g = Some (SMQTT_MT_OK,
      c\<lparr>buffer_slots := (buffer_slots c)[unat p := (buffer_slots c ! unat p)\<lparr>message_length := len\<rparr>], send_queue := q\<rparr>,
      g\<lparr>slot_heap := h\<rparr>)"
    "session_at (c\<lparr>buffer_slots := (buffer_slots c)[unat p := (buffer_slots c ! unat p)\<lparr>message_length := len\<rparr>], send_queue := q\<rparr>)
      (g\<lparr>slot_heap := h\<rparr>) fs (ss @ [p]) ws"
proof -
  from assms(1) have "pool_at (slot_heap g) (free_queue c) (send_queue c) fs ss" by (simp add: session_at_def)
  from pool.enq_both [OF pool.both_sym [OF this] assms(3), of p] obtain q h where
    e: "enqueue b (send_queue c) p (slot_heap g) = Some (q, h)" "pool_at h q (free_queue c) (ss @ [p]) fs" by blast
  have "pool_at h (free_queue c) q fs (ss @ [p])" using e(2) by (rule pool.both_sym)
  with e(1) assms(1,2) show thesis
    by (intro that [of q h])
      (auto simp: enqueue_slot_for_send_def session_at_def list_get_in dest!: set_update_subset_insert [THEN subsetD])
qed

text \<open>
  The effect of a call: the first free slot \<open>p\<close> now holds the packet \<open>w\<close> and is the last of the submitted ones, the
  request, if any, is the last of the waiting ones, and nothing else changed.
\<close>

definition request_done ::
  "('i, 'w) smqtt_mt_client \<times> 'w mt_env \<Rightarrow> slot_index_t list \<Rightarrow> slot_index_t list \<Rightarrow> waiting_t list \<Rightarrow>
    slot_index_t \<Rightarrow> bytes \<Rightarrow> waiting_t list \<Rightarrow> ('i, 'w) smqtt_mt_client \<Rightarrow> 'w mt_env \<Rightarrow> bool" where
  "request_done s fs ss ws p w requests c' g' \<longleftrightarrow>
     session_at c' g' fs (ss @ [p]) (ws @ requests) \<and> same_session s (c', g') \<and> slot_packet c' p = w \<and>
     (\<forall>q. q \<noteq> p \<longrightarrow> slot_packet c' q = slot_packet (fst s) q)"

lemma session_at_numbers [simp]:
  "session_at (c\<lparr>publish_packet_id := i\<rparr>) g fs ss ws = session_at c g fs ss ws"
  "session_at (c\<lparr>subscribe_packet_id := j\<rparr>) g fs ss ws = session_at c g fs ss ws"
  by (simp_all add: session_at_def)

lemma register_takes:
  assumes "session_at c g fs ss ws" "ack_heap g a = None"
  obtains q h where "enqueue_waiting a c r g = Some (SMQTT_MT_OK, c\<lparr>ack_queue := q\<rparr>, g\<lparr>ack_heap := h\<rparr>)"
    "session_at (c\<lparr>ack_queue := q\<rparr>) (g\<lparr>ack_heap := h\<rparr>) fs ss (ws @ [r])"
proof -
  from assms(1) have "acks_at c g ws" by (simp add: session_at_def)
  from enqueue_waiting_acks [OF this assms(2), of r] obtain q h where
    "enqueue_waiting a c r g = Some (SMQTT_MT_OK, c\<lparr>ack_queue := q\<rparr>, g\<lparr>ack_heap := h\<rparr>)"
    "acks_at (c\<lparr>ack_queue := q\<rparr>) (g\<lparr>ack_heap := h\<rparr>) (ws @ [r])" by blast
  with assms(1) show thesis by (intro that [of q h]) (simp_all add: session_at_def)
qed

text \<open>A slot filled with a packet and submitted with its length holds the packet.\<close>

lemma submitted_packet:
  assumes "unat p < length sl" "take (length w) b = w" "length w \<le> BUFFER_SIZE"
    "buffer_slots c = sl[unat p := (sl ! unat p)\<lparr>buffer := b, message_length := of_nat (length w)\<rparr>]"
  shows "slot_packet c p = w"
proof -
  have "unat (of_nat (length w) :: u16) = length w"
    using assms(3) by (intro unat_of_nat_small) (simp add: BUFFER_SIZE_def)
  with assms show ?thesis by (simp add: slot_packet_def Let_def)
qed

lemma fill_session_at:
  assumes "session_at c g fs ss ws" "length (buffer x) = BUFFER_SIZE"
  shows "session_at (c\<lparr>buffer_slots := (buffer_slots c)[k := x]\<rparr>) g fs ss ws"
  using assms by (auto simp: session_at_def dest!: set_update_subset_insert [THEN subsetD])

text \<open>Half way through a call: slot \<open>p\<close> is taken and holds the packet \<open>w\<close>.\<close>

definition slot_filled ::
  "('i, 'w) smqtt_mt_client \<times> 'w mt_env \<Rightarrow> slot_index_t list \<Rightarrow> slot_index_t list \<Rightarrow> waiting_t list \<Rightarrow>
    slot_index_t \<Rightarrow> bytes \<Rightarrow> ('i, 'w) smqtt_mt_client \<Rightarrow> 'w mt_env \<Rightarrow> bool" where
  "slot_filled s fs ss ws p w c g \<longleftrightarrow>
     session_at c g fs ss ws \<and> same_session s (c, g) \<and> unat p < length (buffer_slots c) \<and>
     take (length w) (buffer (buffer_slots c ! unat p)) = w \<and> length w \<le> BUFFER_SIZE \<and>
     (\<forall>q. q \<noteq> p \<longrightarrow> slot_packet c q = slot_packet (fst s) q) \<and>
     (\<forall>a. slot_heap (snd s) a = None \<longrightarrow> slot_heap g a = None)"

lemma slot_packet_other:
  "q \<noteq> p \<Longrightarrow> slot_packet (c\<lparr>buffer_slots := (buffer_slots c)[unat p := x]\<rparr>) q = slot_packet c q"
  using slot_packets_other [of p "[q]" c x] by simp

lemma slot_packet_updates [simp]:
  "slot_packet (c\<lparr>free_queue := q\<rparr>) = slot_packet c" "slot_packet (c\<lparr>send_queue := q\<rparr>) = slot_packet c"
  "slot_packet (c\<lparr>ack_queue := q\<rparr>) = slot_packet c" "slot_packet (c\<lparr>publish_packet_id := i\<rparr>) = slot_packet c"
  "slot_packet (c\<lparr>subscribe_packet_id := i\<rparr>) = slot_packet c"
  by (rule slot_packet_slots, simp)+

lemma take_and_fill:
  assumes "session_at c g (p # fs) ss ws" "builds mk w"
  obtains c0 c1 g1 where "get_buffer_slot c g = Some (p, c0, g1)" "fill_slot mk p c0 = Some (length w, c1)"
    "slot_filled (c, g) fs ss ws p w c1 g1" "ack_heap g1 = ack_heap g"
    "publish_packet_id c0 = publish_packet_id c" "subscribe_packet_id c0 = subscribe_packet_id c"
    "publish_packet_id c1 = publish_packet_id c" "subscribe_packet_id c1 = subscribe_packet_id c"
proof -
  from get_buffer_slot_takes [OF assms(1)] obtain q h where
    t: "get_buffer_slot c g = Some (p, c\<lparr>free_queue := q\<rparr>, g\<lparr>slot_heap := h\<rparr>)"
    "session_at (c\<lparr>free_queue := q\<rparr>) (g\<lparr>slot_heap := h\<rparr>) fs ss ws" "\<And>a. slot_heap g a = None \<Longrightarrow> h a = None" by metis
  from assms(1) have p: "unat p < length (buffer_slots c)" by (simp add: session_at_def)
  let ?c = "c\<lparr>free_queue := q\<rparr>"
  obtain b where b: "fill_slot mk p ?c =
      Some (length w, ?c\<lparr>buffer_slots := (buffer_slots ?c)[unat p := (buffer_slots ?c ! unat p)\<lparr>buffer := b\<rparr>]\<rparr>)"
    "length b = BUFFER_SIZE" "take (length w) b = w"
    by (rule fill_slot_stores [of ?c p mk w]) (use t(2) p assms(2) in \<open>auto simp: session_at_def\<close>)
  let ?d = "?c\<lparr>buffer_slots := (buffer_slots ?c)[unat p := (buffer_slots ?c ! unat p)\<lparr>buffer := b\<rparr>]\<rparr>"
  have "session_at ?d (g\<lparr>slot_heap := h\<rparr>) fs ss ws" by (rule fill_session_at [OF t(2)]) (simp add: b(2))
  moreover have "\<forall>r. r \<noteq> p \<longrightarrow> slot_packet ?d r = slot_packet c r"
    using slot_packet_other [of _ p ?c] by simp
  moreover have "length w \<le> BUFFER_SIZE" using assms(2) by (simp add: builds_def)
  ultimately have "slot_filled (c, g) fs ss ws p w ?d (g\<lparr>slot_heap := h\<rparr>)"
    using p b(3) t(3) by (simp add: slot_filled_def same_session_def)
  with t(1) b(1) show thesis by (intro that [OF t(1) b(1)]) simp_all
qed

lemma register_filled:
  assumes "slot_filled s fs ss ws p w c g" "ack_heap g a = None"
  obtains c' g' where "enqueue_waiting a c r g = Some (SMQTT_MT_OK, c', g')" "slot_filled s fs ss (ws @ [r]) p w c' g'"
    "publish_packet_id c' = publish_packet_id c" "subscribe_packet_id c' = subscribe_packet_id c"
proof -
  from assms(1) have "session_at c g fs ss ws" by (simp add: slot_filled_def)
  from register_takes [OF this assms(2), of r] obtain q h where
    e: "enqueue_waiting a c r g = Some (SMQTT_MT_OK, c\<lparr>ack_queue := q\<rparr>, g\<lparr>ack_heap := h\<rparr>)"
    "session_at (c\<lparr>ack_queue := q\<rparr>) (g\<lparr>ack_heap := h\<rparr>) fs ss (ws @ [r])" .
  with assms(1) show thesis
    by (intro that [OF e(1)]) (auto simp: slot_filled_def same_session_def)
qed

lemma filled_numbers [simp]:
  "slot_filled s fs ss ws p w (c\<lparr>publish_packet_id := i\<rparr>) g = slot_filled s fs ss ws p w c g"
  "slot_filled s fs ss ws p w (c\<lparr>subscribe_packet_id := i\<rparr>) g = slot_filled s fs ss ws p w c g"
  by (auto simp: slot_filled_def same_session_def)

lemma submit_filled:
  assumes "slot_filled s fs ss ws p w c g" "slot_heap (snd s) b = None"
  obtains c' g' where "enqueue_slot_for_send b c p (of_nat (length w)) g = Some (SMQTT_MT_OK, c', g')"
    "request_done s fs ss ws p w [] c' g'"
    "publish_packet_id c' = publish_packet_id c" "subscribe_packet_id c' = subscribe_packet_id c"
proof -
  from assms have f: "session_at c g fs ss ws" "unat p < length (buffer_slots c)" "slot_heap g b = None"
    "take (length w) (buffer (buffer_slots c ! unat p)) = w" "length w \<le> BUFFER_SIZE"
    by (auto simp: slot_filled_def)
  let ?d = "c\<lparr>buffer_slots := (buffer_slots c)[unat p := (buffer_slots c ! unat p)\<lparr>message_length := of_nat (length w)\<rparr>]\<rparr>"
  from submit_takes [OF f(1-3), of "of_nat (length w)"] obtain q h where
    e: "enqueue_slot_for_send b c p (of_nat (length w)) g = Some (SMQTT_MT_OK, ?d\<lparr>send_queue := q\<rparr>, g\<lparr>slot_heap := h\<rparr>)"
    "session_at (?d\<lparr>send_queue := q\<rparr>) (g\<lparr>slot_heap := h\<rparr>) fs (ss @ [p]) ws" .
  have "slot_packet ?d p = w"
    by (rule submitted_packet [OF f(2,4,5)]) simp
  moreover have "\<forall>r. r \<noteq> p \<longrightarrow> slot_packet ?d r = slot_packet (fst s) r"
    using slot_packet_other [of _ p c] assms(1) by (simp add: slot_filled_def)
  ultimately have "request_done s fs ss ws p w [] (?d\<lparr>send_queue := q\<rparr>) (g\<lparr>slot_heap := h\<rparr>)"
    using e(2) assms(1) by (auto simp: request_done_def slot_filled_def same_session_def)
  with e(1) show thesis by (intro that [OF e(1)]) simp_all
qed

lemma request_done_requests:
  "request_done s fs ss (ws @ rs) p w [] c g = request_done s fs ss ws p w rs c g"
  by (simp add: request_done_def)

subsection \<open>Calls are runs of the step relation\<close>

definition renumbers :: "(('i, 'w) smqtt_mt_client \<Rightarrow> ('i, 'w) smqtt_mt_client) \<Rightarrow> bool" where
  "renumbers f \<longleftrightarrow> (\<forall>c. \<exists>i j. f c = c\<lparr>publish_packet_id := i, subscribe_packet_id := j\<rparr>)"

lemma renumbersI:
  "renumbers (\<lambda>c. c)"
  "renumbers (\<lambda>c. c\<lparr>publish_packet_id := publish_packet_id c + 1\<rparr>)"
  "renumbers (\<lambda>c. c\<lparr>subscribe_packet_id := subscribe_packet_id c + 1\<rparr>)"
proof -
  have e: "c = c\<lparr>publish_packet_id := publish_packet_id c, subscribe_packet_id := subscribe_packet_id c\<rparr>"
    "c\<lparr>publish_packet_id := k\<rparr> = c\<lparr>publish_packet_id := k, subscribe_packet_id := subscribe_packet_id c\<rparr>"
    "c\<lparr>subscribe_packet_id := k\<rparr> = c\<lparr>publish_packet_id := publish_packet_id c, subscribe_packet_id := k\<rparr>"
    for c :: "('i, 'w) smqtt_mt_client" and k by simp_all
  show "renumbers (\<lambda>c :: ('i, 'w) smqtt_mt_client. c)"
    "renumbers (\<lambda>c :: ('i, 'w) smqtt_mt_client. c\<lparr>publish_packet_id := publish_packet_id c + 1\<rparr>)"
    "renumbers (\<lambda>c :: ('i, 'w) smqtt_mt_client. c\<lparr>subscribe_packet_id := subscribe_packet_id c + 1\<rparr>)"
    unfolding renumbers_def using e by blast+
qed

lemma renumber_step: "renumbers f \<Longrightarrow> mt_steps s (s\<lparr>cl := f (cl s)\<rparr>)"
  using mt_step.number [of s] unfolding renumbers_def by (metis r_into_rtranclp)

text \<open>A taken slot is filled: from here the caller holds it.\<close>

lemma fill_steps:
  assumes "\<not> spinning s" "get_buffer_slot (cl s) (env s) = Some (p, c0, g1)" "fill_slot mk p c0 = Some (n, c1)"
    "\<forall>b b' n. mk b = Some (b', n) \<longrightarrow> length b' = length b"
  shows "mt_steps s (s\<lparr>cl := c1, env := g1, held := p # held s\<rparr>)"
proof -
  let ?t = "s\<lparr>cl := c0, env := g1, held := p # held s\<rparr>"
  from assms(3) obtain slot b where b: "slot = buffer_slots c0 ! unat p" "mk (buffer slot) = Some (b, n)"
    "c1 = c0\<lparr>buffer_slots := (buffer_slots c0)[unat p := slot\<lparr>buffer := b\<rparr>]\<rparr>"
    by (auto simp: fill_slot_def list_get_eq_Some Option.bind_eq_Some_conv)
  with assms(4) have l: "length b = length (buffer slot)" by blast
  have "mt_step ?t (?t\<lparr>cl := (cl ?t)\<lparr>buffer_slots := (buffer_slots (cl ?t))[unat p := slot\<lparr>buffer := b\<rparr>]\<rparr>\<rparr>)"
    by (rule mt_step.fill) (simp_all add: b(1) l [unfolded b(1)])
  then have "mt_step ?t (s\<lparr>cl := c1, env := g1, held := p # held s\<rparr>)" by (cases s) (simp add: b(3))
  with mt_step.acquire [OF assms(1,2)] show ?thesis by (meson r_into_rtranclp rtranclp.rtrancl_into_rtrancl)
qed

lemma submit_steps:
  assumes "\<not> spinning s" "held s = p # ps" "slot_heap (env s) b = None"
    "enqueue_slot_for_send b (cl s) p len (env s) = Some (st, c, g)"
  shows "mt_steps s (s\<lparr>cl := c, env := g, held := ps, submitted := submitted s @ [slot_packet c p]\<rparr>)"
  using mt_step.submit [OF assms(1) _ assms(3,4)] assms(2) by (intro r_into_rtranclp) simp

lemma register_steps:
  "\<lbrakk>\<not> spinning s; ack_heap (env s) a = None; enqueue_waiting a (cl s) r (env s) = Some (st, c, g); caller_request r\<rbrakk> \<Longrightarrow>
    mt_steps s (s\<lparr>cl := c, env := g\<rparr>)"
  by (blast intro: mt_step.register)

lemma enqueue_waiting_slots: "enqueue_waiting a c r g = Some (st, c', g') \<Longrightarrow> slot_heap g' = slot_heap g"
  by (auto simp: enqueue_waiting_def Option.bind_eq_Some_conv)

lemma get_buffer_slot_heaps:
  "get_buffer_slot c g = Some (p, c', g') \<Longrightarrow>
    ack_heap g' = ack_heap g \<and> (slot_heap g a = None \<longrightarrow> slot_heap g' a = None)"
  by (auto simp: get_buffer_slot_def Option.bind_eq_Some_conv dest: get_slot_loop_fresh)

lemma request_steps:
  assumes s: "\<not> spinning s" "ack_heap (env s) a = None" "slot_heap (env s) b = None" "caller_request r"
    and r: "renumbers before" "renumbers after"
    and mk: "\<forall>b b' n. mk b = Some (b', n) \<longrightarrow> length b' = length b"
    and run: "get_buffer_slot (cl s) (env s) = Some (p, c0, g1)" "fill_slot mk p c0 = Some (n, c1)"
      "enqueue_waiting a (before c1) r g1 = Some (st, c2, g2)"
      "enqueue_slot_for_send b (after c2) p len g2 = Some (st', c3, g3)"
  shows "mt_steps s (s\<lparr>cl := c3, env := g3, submitted := submitted s @ [slot_packet c3 p]\<rparr>)"
proof -
  let ?t = "s\<lparr>cl := c1, env := g1, held := p # held s\<rparr>"
  let ?u = "s\<lparr>held := p # held s, cl := c2, env := g2\<rparr>"
  note h = get_buffer_slot_heaps [OF run(1), of b]
  have "mt_steps s ?t" using fill_steps [OF s(1) run(1,2) mk] .
  also have "mt_steps ?t (?t\<lparr>cl := before c1\<rparr>)" using renumber_step [OF r(1), of ?t] by simp
  also have "mt_steps (?t\<lparr>cl := before c1\<rparr>) ?u"
    using register_steps [of "?t\<lparr>cl := before c1\<rparr>" a r st c2 g2] s run(3) h by simp
  also have "mt_steps ?u (?u\<lparr>cl := after c2\<rparr>)" using renumber_step [OF r(2), of ?u] by simp
  also have "mt_steps (?u\<lparr>cl := after c2\<rparr>) (s\<lparr>cl := c3, env := g3, submitted := submitted s @ [slot_packet c3 p]\<rparr>)"
    using submit_steps [of "?u\<lparr>cl := after c2\<rparr>" p "held s" b len st' c3 g3] s run(4) h
      enqueue_waiting_slots [OF run(3)] by (cases s) simp
  finally show ?thesis .
qed

text \<open>A call that, started in any system, is a run that submits the packet \<open>w\<close>.\<close>

definition submits ::
  "('i, 'w) smqtt_mt_client \<times> 'w mt_env \<Rightarrow> bytes \<Rightarrow> ('i, 'w) smqtt_mt_client \<Rightarrow> 'w mt_env \<Rightarrow> bool" where
  "submits = (\<lambda>(c, g) w c' g'. \<forall>s. cl s = c \<longrightarrow> env s = g \<longrightarrow> \<not> spinning s \<longrightarrow>
     mt_steps s (s\<lparr>cl := c', env := g', submitted := submitted s @ [w]\<rparr>))"

lemma submits_run:
  "\<lbrakk>submits (cl s, env s) w c' g'; \<not> spinning s\<rbrakk> \<Longrightarrow>
    mt_steps s (s\<lparr>cl := c', env := g', submitted := submitted s @ [w]\<rparr>)"
  by (simp add: submits_def)

lemma builds_length: "builds mk w \<Longrightarrow> \<forall>b b' n. mk b = Some (b', n) \<longrightarrow> length b' = length b"
  by (auto simp: builds_def stored_def split: if_splits)

lemma renumbers_filled:
  "renumbers f \<Longrightarrow> slot_filled s fs ss ws p w (f c) g = slot_filled s fs ss ws p w c g"
  unfolding renumbers_def by (metis filled_numbers)

lemma submits_plain:
  assumes "builds mk w" "get_buffer_slot c g = Some (p, c0, g1)" "fill_slot mk p c0 = Some (n, c1)"
    "enqueue_slot_for_send b c1 p len g1 = Some (st, c', g')" "slot_heap g b = None"
  shows "submits (c, g) (slot_packet c' p) c' g'"
proof -
  have "mt_steps s (s\<lparr>cl := c', env := g', submitted := submitted s @ [slot_packet c' p]\<rparr>)"
    if s: "cl s = c" "env s = g" "\<not> spinning s" for s
  proof -
    let ?t = "s\<lparr>cl := c1, env := g1, held := p # held s\<rparr>"
    have "mt_steps s ?t" using fill_steps [OF s(3) _ assms(3) builds_length [OF assms(1)]] s assms(2) by simp
    also have "mt_steps ?t (s\<lparr>cl := c', env := g', submitted := submitted s @ [slot_packet c' p]\<rparr>)"
      using submit_steps [of ?t p "held s" b len st c' g'] s(3) assms(4,5) get_buffer_slot_heaps [OF assms(2), of b]
      by (cases s) simp
    finally show ?thesis .
  qed
  then show ?thesis by (simp add: submits_def)
qed

text \<open>
  A whole call with a request \<open>r\<close>. \<open>before\<close> and \<open>after\<close> are what it does to the packet identifiers before and after
  it registers the request.
\<close>

lemma request_chain:
  assumes "session_at c g (p # fs) ss ws" "builds mk w" "ack_heap g a = None" "slot_heap g b = None"
    and f: "renumbers before" "renumbers after" and "caller_request r"
  obtains c0 c1 g1 c2 g2 c3 g3 where "get_buffer_slot c g = Some (p, c0, g1)" "fill_slot mk p c0 = Some (length w, c1)"
    "enqueue_waiting a (before c1) r g1 = Some (SMQTT_MT_OK, c2, g2)"
    "enqueue_slot_for_send b (after c2) p (of_nat (length w)) g2 = Some (SMQTT_MT_OK, c3, g3)"
    "request_done (c, g) fs ss ws p w [r] c3 g3" "submits (c, g) w c3 g3"
    "publish_packet_id c0 = publish_packet_id c" "subscribe_packet_id c0 = subscribe_packet_id c"
    "publish_packet_id c1 = publish_packet_id c" "subscribe_packet_id c1 = subscribe_packet_id c"
    "publish_packet_id c2 = publish_packet_id (before c1)" "subscribe_packet_id c2 = subscribe_packet_id (before c1)"
    "publish_packet_id c3 = publish_packet_id (after c2)" "subscribe_packet_id c3 = subscribe_packet_id (after c2)"
proof (rule take_and_fill [OF assms(1,2)])
  fix c0 c1 g1
  assume t: "get_buffer_slot c g = Some (p, c0, g1)" "fill_slot mk p c0 = Some (length w, c1)"
    "slot_filled (c, g) fs ss ws p w c1 g1" "ack_heap g1 = ack_heap g"
    "publish_packet_id c0 = publish_packet_id c" "subscribe_packet_id c0 = subscribe_packet_id c"
    "publish_packet_id c1 = publish_packet_id c" "subscribe_packet_id c1 = subscribe_packet_id c"
  from t(3) have "slot_filled (c, g) fs ss ws p w (before c1) g1" by (simp only: f [THEN renumbers_filled])
  moreover have "ack_heap g1 a = None" using assms(3) t(4) by simp
  ultimately obtain c2 g2 where e: "enqueue_waiting a (before c1) r g1 = Some (SMQTT_MT_OK, c2, g2)"
    "slot_filled (c, g) fs ss (ws @ [r]) p w c2 g2"
    "publish_packet_id c2 = publish_packet_id (before c1)" "subscribe_packet_id c2 = subscribe_packet_id (before c1)"
    by (rule register_filled)
  from e(2) have "slot_filled (c, g) fs ss (ws @ [r]) p w (after c2) g2" by (simp only: f [THEN renumbers_filled])
  moreover have "slot_heap (snd (c, g)) b = None" using assms(4) by simp
  ultimately obtain c3 g3 where
    d: "enqueue_slot_for_send b (after c2) p (of_nat (length w)) g2 = Some (SMQTT_MT_OK, c3, g3)"
    "request_done (c, g) fs ss (ws @ [r]) p w [] c3 g3"
    "publish_packet_id c3 = publish_packet_id (after c2)" "subscribe_packet_id c3 = subscribe_packet_id (after c2)"
    by (rule submit_filled)
  have "slot_packet c3 p = w" using d(2) by (simp add: request_done_def)
  then have "submits (c, g) w c3 g3"
    using request_steps [OF _ _ _ assms(7) f builds_length [OF assms(2)] _ t(2) e(1) d(1)] t(1) assms(3,4)
    by (auto simp: submits_def)
  with d t e show thesis by (intro that [of c0 g1 c1 c2 g2 c3 g3]) (simp_all add: request_done_requests)
qed

subsection \<open>The calls\<close>

definition publish_request :: "QoS \<Rightarrow> nat option \<Rightarrow> nat \<Rightarrow> u16 \<Rightarrow> waiting_t list" where
  "publish_request qos cb ctx i =
     (if qos = QoS1 then [\<lparr>wtype = PUBACK, callback = cb, cb_context = ctx, wdata = Id_data i\<rparr>]
      else if qos = QoS2 then [\<lparr>wtype = PUBREC, callback = cb, cb_context = ctx, wdata = Id_data i\<rparr>]
      else [])"

lemma mt_publish_request:
  assumes "session_at c g (p # fs) ss ws" "connected c" "qos \<le> QoS2" "ack_heap g a = None" "slot_heap g b = None"
    "length (publish_wire (topic, publish_packet_id c, qos, retain, msg)) \<le> BUFFER_SIZE"
  shows "\<exists>c' g'. smqtt_mt_publish a b c topic msg qos retain cb ctx g = Some (SMQTT_MT_OK, c', g') \<and>
    request_done (c, g) fs ss ws p (publish_wire (topic, publish_packet_id c, qos, retain, msg))
      (publish_request qos cb ctx (publish_packet_id c)) c' g' \<and>
    submits (c, g) (publish_wire (topic, publish_packet_id c, qos, retain, msg)) c' g' \<and>
    publish_packet_id c' = publish_packet_id c + (if qos = QoS0 then 0 else 1) \<and>
    subscribe_packet_id c' = subscribe_packet_id c"
proof -
  let ?i = "publish_packet_id c"
  note w = builds_publish [OF assms(6), of "of_nat BUFFER_SIZE"]
  from qos_cases [OF assms(3)] consider "qos = QoS0" | "qos = QoS1" | "qos = QoS2" by blast
  then show ?thesis
  proof cases
    case 1
    show ?thesis
    proof (rule take_and_fill [OF assms(1) w])
      fix c0 c1 g1
      assume f: "get_buffer_slot c g = Some (p, c0, g1)" "slot_filled (c, g) fs ss ws p
          (publish_wire (topic, ?i, qos, retain, msg)) c1 g1" "publish_packet_id c0 = ?i"
        "fill_slot (\<lambda>b. make_publish_message b (of_nat BUFFER_SIZE) topic ?i qos retain msg) p c0 =
          Some (length (publish_wire (topic, ?i, qos, retain, msg)), c1)"
        "publish_packet_id c1 = ?i" "subscribe_packet_id c1 = subscribe_packet_id c"
      show ?thesis
      proof (rule submit_filled [OF f(2), of b])
        fix c' g'
        assume d: "enqueue_slot_for_send b c1 p (of_nat (length (publish_wire (topic, ?i, qos, retain, msg)))) g1 =
            Some (SMQTT_MT_OK, c', g')"
          "request_done (c, g) fs ss ws p (publish_wire (topic, ?i, qos, retain, msg)) [] c' g'"
          "publish_packet_id c' = publish_packet_id c1" "subscribe_packet_id c' = subscribe_packet_id c1"
        from submits_plain [OF w f(1,4) d(1) assms(5)] d(2)
        have "submits (c, g) (publish_wire (topic, ?i, qos, retain, msg)) c' g'" by (simp add: request_done_def)
        with 1 f d assms(2) show ?thesis by (auto simp: smqtt_mt_publish_def publish_request_def)
      qed (use assms(5) in simp)
    qed
  next
    case 2
    show ?thesis
      by (rule request_chain [OF assms(1) w assms(4,5), where before = "\<lambda>c. c" and
            after = "\<lambda>c. c\<lparr>publish_packet_id := publish_packet_id c + 1\<rparr>" and
            r = "\<lparr>wtype = PUBACK, callback = cb, cb_context = ctx, wdata = Id_data ?i\<rparr>"])
        (use 2 assms(2) in \<open>auto simp: smqtt_mt_publish_def publish_request_def caller_request_def renumbersI\<close>)
  next
    case 3
    show ?thesis
      by (rule request_chain [OF assms(1) w assms(4,5), where before = "\<lambda>c. c" and
            after = "\<lambda>c. c\<lparr>publish_packet_id := publish_packet_id c + 1\<rparr>" and
            r = "\<lparr>wtype = PUBREC, callback = cb, cb_context = ctx, wdata = Id_data ?i\<rparr>"])
        (use 3 assms(2) in \<open>auto simp: smqtt_mt_publish_def publish_request_def caller_request_def renumbersI\<close>)
  qed
qed

lemma mt_ping_request:
  assumes "session_at c g (p # fs) ss ws" "connected c" "ack_heap g a = None" "slot_heap g b = None"
  shows "\<exists>c' g'. smqtt_mt_ping a b c timeout cb ctx g = Some (SMQTT_MT_OK, c', g') \<and>
    request_done (c, g) fs ss ws p [PACK_MESSAGE_TYPE PINGREQ, 0]
      [\<lparr>wtype = PINGRESP, callback = cb, cb_context = ctx, wdata = No_data\<rparr>] c' g' \<and>
    submits (c, g) [PACK_MESSAGE_TYPE PINGREQ, 0] c' g'"
  by (rule request_chain [OF assms(1) builds_fixed(5) [of "of_nat BUFFER_SIZE"] assms(3,4), where before = "\<lambda>c. c" and after = "\<lambda>c. c" and
        r = "\<lparr>wtype = PINGRESP, callback = cb, cb_context = ctx, wdata = No_data\<rparr>"])
    (use assms(2) in \<open>auto simp: smqtt_mt_ping_def caller_request_def renumbersI\<close>)

lemma mt_subscribe_request:
  assumes "session_at c g (p # fs) ss ws" "connected c" "ack_heap g a = None" "slot_heap g b = None"
    "subscribe_args_ok (subscribe_packet_id c, ucast n, topics, qoss)"
    "length (subscribe_wire (subscribe_packet_id c, ucast n, topics, qoss)) \<le> BUFFER_SIZE"
  shows "\<exists>c' g'. smqtt_mt_subscribe a b c n topics qoss cb ctx g = Some (SMQTT_MT_OK, c', g') \<and>
    request_done (c, g) fs ss ws p (subscribe_wire (subscribe_packet_id c, ucast n, topics, qoss))
      [\<lparr>wtype = SUBACK, callback = None, cb_context = ctx, wdata = Suback_data cb (publish_packet_id c)\<rparr>] c' g' \<and>
    submits (c, g) (subscribe_wire (subscribe_packet_id c, ucast n, topics, qoss)) c' g' \<and>
    publish_packet_id c' = publish_packet_id c \<and> subscribe_packet_id c' = subscribe_packet_id c + 1"
  by (rule request_chain [OF assms(1) builds_subscribe [OF assms(5,6), of "of_nat BUFFER_SIZE"] assms(3,4), where
        before = "\<lambda>c. c\<lparr>subscribe_packet_id := subscribe_packet_id c + 1\<rparr>" and after = "\<lambda>c. c" and
        r = "\<lparr>wtype = SUBACK, callback = None, cb_context = ctx, wdata = Suback_data cb (publish_packet_id c)\<rparr>"])
    (use assms(2) in \<open>auto simp: smqtt_mt_subscribe_def Let_def caller_request_def renumbersI\<close>)

lemma mt_unsubscribe_request:
  assumes "session_at c g (p # fs) ss ws" "connected c" "ack_heap g a = None" "slot_heap g b = None"
    "unsubscribe_args_ok (subscribe_packet_id c, ucast n, topics)"
    "length (unsubscribe_wire (subscribe_packet_id c, ucast n, topics)) \<le> BUFFER_SIZE"
  shows "\<exists>c' g'. smqtt_mt_unsubscribe a b c n topics cb ctx g = Some (SMQTT_MT_OK, c', g') \<and>
    request_done (c, g) fs ss ws p (unsubscribe_wire (subscribe_packet_id c, ucast n, topics))
      [\<lparr>wtype = SUBACK, callback = cb, cb_context = ctx, wdata = Id_data (publish_packet_id c)\<rparr>] c' g' \<and>
    submits (c, g) (unsubscribe_wire (subscribe_packet_id c, ucast n, topics)) c' g' \<and>
    publish_packet_id c' = publish_packet_id c \<and> subscribe_packet_id c' = subscribe_packet_id c + 1"
  by (rule request_chain [OF assms(1) builds_unsubscribe [OF assms(5,6), of "of_nat BUFFER_SIZE"] assms(3,4), where
        before = "\<lambda>c. c\<lparr>subscribe_packet_id := subscribe_packet_id c + 1\<rparr>" and after = "\<lambda>c. c" and
        r = "\<lparr>wtype = SUBACK, callback = cb, cb_context = ctx, wdata = Id_data (publish_packet_id c)\<rparr>"])
    (use assms(2) in \<open>auto simp: smqtt_mt_unsubscribe_def Let_def caller_request_def renumbersI\<close>)

text \<open>Addresses that stay free.\<close>

lemma enqueue_fresh: "\<lbrakk>enqueue a q x h = Some (q', h'); b \<noteq> a; h b = None\<rbrakk> \<Longrightarrow> h' b = None"
  by (auto simp: enqueue_def Let_def Option.bind_eq_Some_conv split: option.splits if_splits)

lemma enqueue_waiting_fresh:
  "\<lbrakk>enqueue_waiting a c r g = Some (st, c', g'); b \<noteq> a; ack_heap g b = None\<rbrakk> \<Longrightarrow> ack_heap g' b = None"
  by (auto simp: enqueue_waiting_def Option.bind_eq_Some_conv dest: enqueue_fresh)

lemma enqueue_slot_acks: "enqueue_slot_for_send a c p n g = Some (st, c', g') \<Longrightarrow> ack_heap g' = ack_heap g"
  by (auto simp: enqueue_slot_for_send_def Option.bind_eq_Some_conv Let_def)

lemma mt_publish_fresh:
  "\<lbrakk>smqtt_mt_publish a a' c topic msg qos retain cb ctx g = Some (st, c', g'); b \<noteq> a; ack_heap g b = None\<rbrakk> \<Longrightarrow>
    ack_heap g' b = None"
  by (auto simp: smqtt_mt_publish_def Option.bind_eq_Some_conv split: if_splits
      dest!: get_buffer_slot_heaps enqueue_slot_acks dest: enqueue_waiting_fresh)

lemma mt_subscribe_fresh:
  "\<lbrakk>smqtt_mt_subscribe a a' c n topics qoss cb ctx g = Some (st, c', g'); b \<noteq> a; ack_heap g b = None\<rbrakk> \<Longrightarrow>
    ack_heap g' b = None"
  by (auto simp: smqtt_mt_subscribe_def Let_def Option.bind_eq_Some_conv split: if_splits
      dest!: get_buffer_slot_heaps enqueue_slot_acks dest: enqueue_waiting_fresh)

lemma mt_unsubscribe_fresh:
  "\<lbrakk>smqtt_mt_unsubscribe a a' c n topics cb ctx g = Some (st, c', g'); b \<noteq> a; ack_heap g b = None\<rbrakk> \<Longrightarrow>
    ack_heap g' b = None"
  by (auto simp: smqtt_mt_unsubscribe_def Let_def Option.bind_eq_Some_conv split: if_splits
      dest!: get_buffer_slot_heaps enqueue_slot_acks dest: enqueue_waiting_fresh)

end
