(* ===== verification/MT_Handlers.thy ===== *)
theory MT_Handlers
  imports MT_Requests Client_Protocol
begin

section \<open>What the session thread does with a packet\<close>

text \<open>
  The handlers of \<^verbatim>\<open>session_thread_loop\<close> on the list of waiting requests. \<open>session_ok\<close> describes a client over a
  transport that records its events (\<open>traced\<close>) and whose sends succeed; each handler is then described by the
  packets it sends, the callbacks it makes and the requests it leaves. The second part shows, over the contract
  \<open>transport\<close> and with sends that may fail, when handling a packet is defined at all.
\<close>

declare publish_wire.simps [simp del]

subsection \<open>Handlers as transitions\<close>

definition reliable :: "('i, 'w) server_t \<Rightarrow> bool" where
  "reliable s \<longleftrightarrow> (\<forall>b n w. 2 \<le> length b \<longrightarrow> unat n \<le> length b \<longrightarrow>
     (\<exists>w'. server_send s b n w = Some (SMQTT_NET_OK, s, w')))"

text \<open>Every server value of a steady transport is one: a network server over blocking sockets, for instance.\<close>

context steady_transport
begin

lemma up_reliable:
  assumes "up s"
  shows "reliable s"
  unfolding reliable_def
proof (intro allI impI)
  fix b :: bytes and n :: size_t and w
  assume b: "2 \<le> length b" "unat n \<le> length b"
  from up_send [OF assms b] obtain st s' w' where "server_send s b n w = Some (st, s', w')" by blast
  with up_send_steady [OF assms b(1)] show "\<exists>w'. server_send s b n w = Some (SMQTT_NET_OK, s, w')" by blast
qed

end

definition session_ok ::
  "('i, 'w) server_t \<Rightarrow> ('i, 'w \<times> event list) smqtt_mt_client \<Rightarrow> ('w \<times> event list) mt_env \<Rightarrow> event list \<Rightarrow>
    waiting_t list \<Rightarrow> bool" where
  "session_ok s c g l ws \<longleftrightarrow> server c = traced s \<and> snd (outside g) = l \<and>
     length (receive_buffer c) = BUFFER_SIZE \<and> acks_at c g ws"

lemma reply_sent:
  assumes "reliable s" "session_ok s c g l ws" "builds mk w"
  obtains x where "session_reply mk c g = Some (SMQTT_MT_OK,
      c\<lparr>receive_buffer := w @ drop (length w) (receive_buffer c)\<rparr>, g\<lparr>outside := (x, l @ [Tx w SMQTT_NET_OK])\<rparr>)"
    "session_ok s (c\<lparr>receive_buffer := w @ drop (length w) (receive_buffer c)\<rparr>)
      (g\<lparr>outside := (x, l @ [Tx w SMQTT_NET_OK])\<rparr>) (l @ [Tx w SMQTT_NET_OK]) ws"
proof -
  let ?b = "w @ drop (length w) (receive_buffer c)"
  from assms(2) have o: "outside g = (fst (outside g), l)" "server c = traced s" "c\<lparr>server := traced s\<rparr> = c"
    by (auto simp: session_ok_def prod_eq_iff)
  from assms(2,3) have b: "mk (receive_buffer c) = Some (?b, length w)" "length w \<le> BUFFER_SIZE"
    "length (receive_buffer c) = BUFFER_SIZE"
    by (simp_all add: builds_def stored_def session_ok_def)
  then have u: "unat (of_nat (length w) :: size_t) = length w"
    by (intro unat_of_nat_small) (simp add: BUFFER_SIZE_def)
  have "2 \<le> length ?b" "unat (of_nat (length w) :: size_t) \<le> length ?b"
    using b(2,3) u by (simp_all add: BUFFER_SIZE_def)
  with assms(1) obtain x where
    x: "server_send s ?b (of_nat (length w)) (fst (outside g)) = Some (SMQTT_NET_OK, s, x)"
    unfolding reliable_def by blast
  have "server_send (traced s) ?b (of_nat (length w)) (outside g) =
      Some (SMQTT_NET_OK, traced s, x, l @ [Tx w SMQTT_NET_OK])"
    using x u by (subst o(1)) (simp add: traced_send)
  then show thesis
    using b o assms(2) by (intro that [of x]) (cases c, auto simp: session_reply_def session_ok_def)
qed

text \<open>The fields of a client that delivering depends on.\<close>

definition same_delivery :: "('i, 'w) smqtt_mt_client \<Rightarrow> ('i, 'w) smqtt_mt_client \<Rightarrow> bool" where
  "same_delivery c c' \<longleftrightarrow> msg_callback c' = msg_callback c \<and> msg_cb_context c' = msg_cb_context c"

subsection \<open>What a packet means\<close>

text \<open>
  The specification of the handlers on the list of waiting requests: from the message callback and its context, the
  bytes received and the parsed packet, the requests that remain, the packets sent and the callbacks made.
  \<^const>\<open>None\<close> is what the code leaves undefined.
\<close>

type_synonym effect = "waiting_t list \<times> bytes list \<times> call list"

definition on_match ::
  "message_type_t \<Rightarrow> u16 \<Rightarrow> waiting_t list \<Rightarrow> (waiting_t \<Rightarrow> waiting_t list \<Rightarrow> effect option) \<Rightarrow> effect option" where
  "on_match t i ws k =
     do { (found, m, zs) \<leftarrow> lookup_waiting t i ws; if found then do { r \<leftarrow> m; k r zs } else Some (zs, [], []) }"

definition completed :: "waiting_t \<Rightarrow> waiting_t list \<Rightarrow> effect option" where
  "completed r zs = do { f \<leftarrow> callback r; Some (zs, [], [Request_call f True (cb_context r)]) }"

definition message_calls :: "nat option \<Rightarrow> nat \<Rightarrow> bytes \<Rightarrow> bytes \<Rightarrow> QoS \<Rightarrow> bool \<Rightarrow> call list" where
  "message_calls cb ctx topic msg qos retain =
     (case cb of None \<Rightarrow> [] | Some f \<Rightarrow> [Message_call f topic msg qos retain ctx])"

text \<open>The topic and the message of a PUBLISH, as the C strings that are passed on.\<close>

definition publish_strings :: "bytes \<Rightarrow> publish_data \<Rightarrow> (bytes \<times> bytes) option" where
  "publish_strings b d =
     do {
       topic \<leftarrow> strncpy_mem b (p_topic d) (unat (p_topic_size d));
       msg \<leftarrow> strncpy_mem b (p_message d) (unat (p_message_size d));
       Some (topic @ [0], msg @ [0])
     }"

definition delivered :: "nat option \<Rightarrow> nat \<Rightarrow> bytes \<Rightarrow> publish_data \<Rightarrow> call list option" where
  "delivered cb ctx b d =
     (if cb = None then Some []
      else do {
        (topic, msg) \<leftarrow> publish_strings b d;
        Some (message_calls cb ctx topic msg (p_qos d) (p_retain d))
      })"

definition held_message :: "bytes \<Rightarrow> publish_data \<Rightarrow> waiting_t option" where
  "held_message b d =
     do {
       (topic, msg) \<leftarrow> publish_strings b d;
       Some \<lparr>wtype = PUBREL, callback = None, cb_context = 0, wdata = Pubrel_data topic msg (p_retain d) (p_packet_id d)\<rparr>
     }"

definition publish_spec :: "nat option \<Rightarrow> nat \<Rightarrow> bytes \<Rightarrow> publish_data \<Rightarrow> waiting_t list \<Rightarrow> effect option" where
  "publish_spec cb ctx b d ws =
     (if p_qos d = QoS0 then do { ks \<leftarrow> delivered cb ctx b d; Some (ws, [], ks) }
      else if p_qos d = QoS1 then do {
        ks \<leftarrow> delivered cb ctx b d;
        Some (ws, [ack_wire (PACK_MESSAGE_TYPE PUBACK) (p_packet_id d)], ks)
      }
      else if p_qos d = QoS2 then do {
        w \<leftarrow> held_message b d;
        Some (ws @ [w], [ack_wire (PACK_MESSAGE_TYPE PUBREC) (p_packet_id d)], [])
      }
      else Some (ws, [], []))"

fun session_spec :: "nat option \<Rightarrow> nat \<Rightarrow> bytes \<Rightarrow> response_t \<Rightarrow> waiting_t list \<Rightarrow> effect option" where
  "session_spec cb ctx b Pingresp_body ws = on_match PINGRESP 0 ws completed"
| "session_spec cb ctx b (Puback_body i) ws = on_match PUBACK i ws completed"
| "session_spec cb ctx b (Pubrec_body i) ws = on_match PUBREC i ws (\<lambda>r zs.
     Some (zs @ [r\<lparr>wtype := PUBCOMP, wdata := Id_data i\<rparr>], [ack_wire (PACK_MESSAGE_TYPE PUBREL OR 2) i], []))"
| "session_spec cb ctx b (Pubcomp_body i) ws = on_match PUBCOMP i ws completed"
| "session_spec cb ctx b (Suback_body d) ws = on_match SUBACK (sa_packet_id d) ws (\<lambda>r zs.
     case wdata r of
       Suback_data None _ \<Rightarrow> Some (zs, [], [])
     | Suback_data (Some f) _ \<Rightarrow> Some (zs, [], [Suback_call f True (sa_packet_id d) (sa_topic_count d)
         (sa_success d) (sa_qoss d) (cb_context r)])
     | _ \<Rightarrow> None)"
| "session_spec cb ctx b (Unsuback_body i) ws = on_match UNSUBACK i ws (\<lambda>r zs.
     if callback r = None then Some (zs, [], []) else completed r zs)"
| "session_spec cb ctx b (Publish_body d) ws = publish_spec cb ctx b d ws"
| "session_spec cb ctx b (Pubrel_body i) ws = on_match PUBREL i ws (\<lambda>r zs.
     if cb = None then Some (zs, [ack_wire (PACK_MESSAGE_TYPE PUBCOMP) i], [])
     else case wdata r of
       Pubrel_data topic msg retain _ \<Rightarrow>
         Some (zs, [ack_wire (PACK_MESSAGE_TYPE PUBCOMP) i], message_calls cb ctx topic msg QoS2 retain)
     | _ \<Rightarrow> None)"
| "session_spec cb ctx b _ ws = Some (ws, [], [])"

subsection \<open>The handlers meet it\<close>

definition sent_ok :: "bytes list \<Rightarrow> event list" where
  "sent_ok ps = map (\<lambda>p. Tx p SMQTT_NET_OK) ps"

lemma sent_ok_simps [simp]: "sent_ok [] = []" "sent_ok (p # ps) = Tx p SMQTT_NET_OK # sent_ok ps"
  by (simp_all add: sent_ok_def)

definition requeued :: "waiting_t option \<Rightarrow> waiting_t list" where
  "requeued r = (case r of None \<Rightarrow> [] | Some w \<Rightarrow> [w])"

lemma requeued_simps [simp]: "requeued None = []" "requeued (Some w) = [w]"
  by (simp_all add: requeued_def)

text \<open>A result has an effect: what it still has to enqueue counts as waiting.\<close>

definition has_effect ::
  "('i, 'w) server_t \<Rightarrow> ('i, 'w \<times> event list) smqtt_mt_client \<times> ('w \<times> event list) mt_env \<Rightarrow> event list \<Rightarrow>
    (waiting_t option \<times> ('i, 'w \<times> event list) smqtt_mt_client \<times> ('w \<times> event list) mt_env) option \<Rightarrow>
    effect option \<Rightarrow> bool" where
  "has_effect s st l res e \<longleftrightarrow>
     (case e of
        None \<Rightarrow> res = None
      | Some (ws, ps, ks) \<Rightarrow> \<exists>r c g zs. res = Some (r, c, g) \<and> ws = zs @ requeued r \<and>
          session_ok s c g (l @ sent_ok ps) zs \<and> calls g = calls (snd st) @ ks \<and> same_delivery (fst st) c \<and>
          (\<forall>a. ack_heap (snd st) a = None \<longrightarrow> ack_heap g a = None))"

text \<open>States that agree on what an effect is measured from.\<close>

definition same_base :: "('i, 'w) smqtt_mt_client \<times> 'w mt_env \<Rightarrow> ('i, 'w) smqtt_mt_client \<times> 'w mt_env \<Rightarrow> bool" where
  "same_base s t \<longleftrightarrow> calls (snd t) = calls (snd s) \<and> same_delivery (fst s) (fst t) \<and>
     (\<forall>a. ack_heap (snd s) a = None \<longrightarrow> ack_heap (snd t) a = None)"

lemma has_effect_base: "has_effect s t l res e \<Longrightarrow> same_base st t \<Longrightarrow> has_effect s st l res e"
  by (cases e) (force simp: has_effect_def same_base_def same_delivery_def)+

lemma effect_done:
  "session_ok s c g l zs \<Longrightarrow> has_effect s (c, g) l (Some (r, c, g)) (Some (zs @ requeued r, [], []))"
  by (auto simp: has_effect_def same_delivery_def)

lemma effect_none: "session_ok s c g l zs \<Longrightarrow> has_effect s (c, g) l (Some (None, c, g)) (Some (zs, [], []))"
  using effect_done [where r = None] by simp

lemma effect_call:
  "session_ok s c g l zs \<Longrightarrow> has_effect s (c, g) l (Some (None, c, g\<lparr>calls := calls g @ ks\<rparr>)) (Some (zs, [], ks))"
  by (auto simp: has_effect_def same_delivery_def session_ok_def)

lemma take_effect:
  assumes "session_ok s c g l ws"
    and "\<And>r c' g' zs. \<lbrakk>session_ok s c' g' l zs; same_delivery c c'; receive_buffer c' = receive_buffer c\<rbrakk> \<Longrightarrow>
      has_effect s (c', g') l (k r c' g') (k' r zs)"
  shows "has_effect s (c, g) l (Option.bind (take_waiting t i c g) (\<lambda>(found, waiting, c, g).
    if found then Option.bind waiting (\<lambda>w. k w c g) else Some (None, c, g))) (on_match t i ws k')"
proof -
  from assms(1) have a: "acks_at c g ws" by (simp add: session_ok_def)
  show ?thesis
  proof (cases "lookup_waiting t i ws")
    case None
    with take_waiting_undefined [OF a] show ?thesis by (simp add: on_match_def has_effect_def)
  next
    case (Some res)
    obtain f m zs where res: "res = (f, m, zs)" by (metis prod_cases3)
    from take_waiting_found [OF a Some [unfolded res]] obtain q h where
      t: "take_waiting t i c g = Some (f, m, c\<lparr>ack_queue := q\<rparr>, g\<lparr>ack_heap := h\<rparr>)"
        "acks_at (c\<lparr>ack_queue := q\<rparr>) (g\<lparr>ack_heap := h\<rparr>) zs" "\<And>a. ack_heap g a = None \<Longrightarrow> h a = None" by metis
    let ?c = "c\<lparr>ack_queue := q\<rparr>" and ?g = "g\<lparr>ack_heap := h\<rparr>"
    have ok: "session_ok s ?c ?g l zs" using assms(1) t(2) by (simp add: session_ok_def)
    have base: "same_base (c, g) (?c, ?g)" using t(3) by (simp add: same_base_def same_delivery_def)
    have "has_effect s (?c, ?g) l (if f then Option.bind m (\<lambda>w. k w ?c ?g) else Some (None, ?c, ?g))
        (if f then Option.bind m (\<lambda>r. k' r zs) else Some (zs, [], []))"
    proof (cases "f \<and> m \<noteq> None")
      case True
      with assms(2) [OF ok] show ?thesis by (auto simp: same_delivery_def)
    next
      case False
      with effect_none [OF ok] show ?thesis by (auto simp: has_effect_def)
    qed
    from has_effect_base [OF this base] show ?thesis by (simp add: t(1) Some res on_match_def)
  qed
qed

lemma reply_effect:
  assumes "reliable s" "session_ok s c g l ws" "builds mk w"
    and "\<And>c' g'. \<lbrakk>session_ok s c' g' (l @ [Tx w SMQTT_NET_OK]) ws; same_delivery c c';
        receive_buffer c' = w @ drop (length w) (receive_buffer c)\<rbrakk> \<Longrightarrow>
      has_effect s (c', g') (l @ [Tx w SMQTT_NET_OK]) (k c' g') e"
  shows "has_effect s (c, g) l (Option.bind (session_reply mk c g) (\<lambda>(st, c, g).
    if st = SMQTT_MT_OK then k c g else Some (None, c, g))) (map_option (\<lambda>(ws, ps, ks). (ws, w # ps, ks)) e)"
proof (rule reply_sent [OF assms(1-3)])
  fix x
  let ?c = "c\<lparr>receive_buffer := w @ drop (length w) (receive_buffer c)\<rparr>"
    and ?g = "g\<lparr>outside := (x, l @ [Tx w SMQTT_NET_OK])\<rparr>"
  assume r: "session_reply mk c g = Some (SMQTT_MT_OK, ?c, ?g)" "session_ok s ?c ?g (l @ [Tx w SMQTT_NET_OK]) ws"
  have "has_effect s (?c, ?g) (l @ [Tx w SMQTT_NET_OK]) (k ?c ?g) e"
    by (rule assms(4) [OF r(2)]) (simp_all add: same_delivery_def)
  then have "has_effect s (c, g) (l @ [Tx w SMQTT_NET_OK]) (k ?c ?g) e"
    by (rule has_effect_base) (simp add: same_base_def same_delivery_def)
  then show ?thesis by (cases e) (auto simp: has_effect_def r(1))
qed

lemma complete_effect:
  "session_ok s c g l ws \<Longrightarrow> has_effect s (c, g) l (complete_waiting t i c g) (on_match t i ws completed)"
  unfolding complete_waiting_def
proof (erule take_effect)
  fix r c' g' zs
  assume "session_ok s c' g' l zs"
  from effect_call [OF this] show "has_effect s (c', g') l
      (Option.bind (request_callback r g') (\<lambda>g. Some (None, c', g))) (completed r zs)"
    by (cases "callback r") (simp_all add: completed_def request_callback_def has_effect_def [where e = None])
qed

subsection \<open>Messages\<close>

text \<open>
  The acknowledgement is built over the first four bytes of the packet just received; the topic and the message
  start behind them, so both are still there to be copied.
\<close>

lemma buf_get_drop: "buf_get b i = (case drop i b of [] \<Rightarrow> None | x # _ \<Rightarrow> Some x)"
  by (cases "i < length b") (simp_all add: buf_get_def Cons_nth_drop_Suc [symmetric])

lemma strncpy_mem_drop: "drop i b = drop i b' \<Longrightarrow> strncpy_mem b i n = strncpy_mem b' i n"
proof (induction n arbitrary: i)
  case (Suc n)
  then have "drop 1 (drop i b) = drop 1 (drop i b')" by simp
  then have "drop (Suc i) b = drop (Suc i) b'" by simp
  from Suc.IH [OF this] show ?case using Suc.prems by (simp add: buf_get_drop cong: if_cong)
qed simp

lemma strings_after_reply:
  assumes "length w = 4" "4 \<le> p_topic d" "4 \<le> p_message d"
  shows "publish_strings (w @ drop (length w) b) d = publish_strings b d"
proof -
  have "drop n (w @ drop (length w) b) = drop n b" if "4 \<le> n" for n using that assms(1) by simp
  from this [THEN strncpy_mem_drop] assms(2,3) show ?thesis by (simp add: publish_strings_def)
qed

lemma deliver_effect:
  assumes "session_ok s c g l ws"
  shows "has_effect s (c, g) l (Option.bind (maybe_deliver_message c d g) (\<lambda>g. Some (None, c, g)))
    (Option.bind (delivered (msg_callback c) (msg_cb_context c) (receive_buffer c) d) (\<lambda>ks. Some (ws, [], ks)))"
proof (cases "msg_callback c = None \<or> publish_strings (receive_buffer c) d = None")
  case True
  with effect_none [OF assms] show ?thesis
    by (auto simp: maybe_deliver_message_def delivered_def publish_strings_def Option.bind_eq_None_conv
        has_effect_def [where e = None])
next
  case False
  then obtain f topic msg where "msg_callback c = Some f"
    "strncpy_mem (receive_buffer c) (p_topic d) (unat (p_topic_size d)) = Some topic"
    "strncpy_mem (receive_buffer c) (p_message d) (unat (p_message_size d)) = Some msg"
    by (auto simp: publish_strings_def Option.bind_eq_Some_conv)
  with effect_call [OF assms] show ?thesis
    by (simp add: maybe_deliver_message_def delivered_def publish_strings_def message_callback_def message_calls_def)
qed

lemma store_effect:
  assumes "session_ok s c g l ws"
  shows "has_effect s (c, g) l (Option.bind (copy_publish_topic c d) (\<lambda>topic. Option.bind (copy_publish_msg c d) (\<lambda>msg.
      Some (Some \<lparr>wtype = PUBREL, callback = None, cb_context = 0,
        wdata = Pubrel_data topic msg (p_retain d) (p_packet_id d)\<rparr>, c, g))))
    (Option.bind (held_message (receive_buffer c) d) (\<lambda>w. Some (ws @ [w], [], [])))"
proof (cases "publish_strings (receive_buffer c) d")
  case None
  then show ?thesis
    by (auto simp: copy_publish_topic_def copy_publish_msg_def held_message_def publish_strings_def
        Option.bind_eq_None_conv has_effect_def)
next
  case (Some st)
  then obtain topic msg where
    "strncpy_mem (receive_buffer c) (p_topic d) (unat (p_topic_size d)) = Some topic"
    "strncpy_mem (receive_buffer c) (p_message d) (unat (p_message_size d)) = Some msg"
    by (auto simp: publish_strings_def Option.bind_eq_Some_conv)
  with effect_done [OF assms, of "Some x" for x] show ?thesis
    by (simp add: copy_publish_topic_def copy_publish_msg_def held_message_def publish_strings_def)
qed

lemma publish1_effect:
  assumes "reliable s" "session_ok s c g l ws" "4 \<le> p_topic d" "4 \<le> p_message d" "p_qos d = QoS1"
  shows "has_effect s (c, g) l (handle_publish d c g)
    (publish_spec (msg_callback c) (msg_cb_context c) (receive_buffer c) d ws)"
proof -
  let ?p = "ack_wire (PACK_MESSAGE_TYPE PUBACK) (p_packet_id d)"
  let ?e = "Option.bind (delivered (msg_callback c) (msg_cb_context c) (receive_buffer c) d) (\<lambda>ks. Some (ws, [], ks))"
  have "has_effect s (c, g) l (handle_publish d c g) (map_option (\<lambda>(ws, ps, ks). (ws, ?p # ps, ks)) ?e)"
    unfolding handle_publish_def
  proof (simp add: assms(5), rule reply_effect [OF assms(1,2) builds_fixed(1)])
    fix c' g'
    let ?l = "l @ [Tx ?p SMQTT_NET_OK]"
    assume a: "session_ok s c' g' ?l ws" "same_delivery c c'"
      "receive_buffer c' = ?p @ drop (length ?p) (receive_buffer c)"
    have "delivered (msg_callback c') (msg_cb_context c') (receive_buffer c') d =
        delivered (msg_callback c) (msg_cb_context c) (receive_buffer c) d"
      using a(2) strings_after_reply [OF _ assms(3,4), of ?p "receive_buffer c"]
      by (simp add: a(3) delivered_def same_delivery_def)
    with deliver_effect [OF a(1), of d] show "has_effect s (c', g') ?l
        (Option.bind (maybe_deliver_message c' d g') (\<lambda>g. Some (None, c', g))) ?e" by simp
  qed
  then show ?thesis using assms(5)
    by (cases "delivered (msg_callback c) (msg_cb_context c) (receive_buffer c) d") (simp_all add: publish_spec_def)
qed

lemma publish2_effect:
  assumes "reliable s" "session_ok s c g l ws" "4 \<le> p_topic d" "4 \<le> p_message d" "p_qos d = QoS2"
  shows "has_effect s (c, g) l (handle_publish d c g)
    (publish_spec (msg_callback c) (msg_cb_context c) (receive_buffer c) d ws)"
proof -
  let ?p = "ack_wire (PACK_MESSAGE_TYPE PUBREC) (p_packet_id d)"
  let ?e = "Option.bind (held_message (receive_buffer c) d) (\<lambda>w. Some (ws @ [w], [], []))"
  have "has_effect s (c, g) l (handle_publish d c g) (map_option (\<lambda>(ws, ps, ks). (ws, ?p # ps, ks)) ?e)"
    unfolding handle_publish_def
  proof (simp add: assms(5) Let_def, rule reply_effect [OF assms(1,2) builds_fixed(2)])
    fix c' g'
    let ?l = "l @ [Tx ?p SMQTT_NET_OK]"
    assume a: "session_ok s c' g' ?l ws" "receive_buffer c' = ?p @ drop (length ?p) (receive_buffer c)"
    have "held_message (receive_buffer c') d = held_message (receive_buffer c) d"
      using strings_after_reply [OF _ assms(3,4), of ?p "receive_buffer c"] by (simp add: a(2) held_message_def)
    with store_effect [OF a(1), of d] show "has_effect s (c', g') ?l (Option.bind (copy_publish_topic c' d) (\<lambda>topic.
        Option.bind (copy_publish_msg c' d) (\<lambda>msg. Some (Some \<lparr>wtype = PUBREL, callback = None, cb_context = 0,
          wdata = Pubrel_data topic msg (p_retain d) (p_packet_id d)\<rparr>, c', g')))) ?e" by simp
  qed
  then show ?thesis
    using assms(5) by (cases "held_message (receive_buffer c) d") (simp_all add: publish_spec_def)
qed

lemma publish_effect:
  assumes "reliable s" "session_ok s c g l ws" "4 \<le> p_topic d" "4 \<le> p_message d"
  shows "has_effect s (c, g) l (handle_publish d c g)
    (publish_spec (msg_callback c) (msg_cb_context c) (receive_buffer c) d ws)"
proof -
  consider "p_qos d = QoS0" | "p_qos d = QoS1" | "p_qos d = QoS2" | "p_qos d \<notin> {QoS0, QoS1, QoS2}" by blast
  then show ?thesis
  proof cases
    case 1
    with deliver_effect [OF assms(2), of d] show ?thesis by (simp add: handle_publish_def publish_spec_def)
  next
    case 2
    show ?thesis by (rule publish1_effect [OF assms 2])
  next
    case 3
    show ?thesis by (rule publish2_effect [OF assms 3])
  next
    case 4
    with effect_none [OF assms(2)] show ?thesis by (simp add: handle_publish_def publish_spec_def)
  qed
qed

lemma if_conj: "(if P \<and> Q then x else y) = (if P then if Q then x else y else y)"
  by simp

lemma pubrec_effect:
  assumes "reliable s" "session_ok s c g l ws"
  shows "has_effect s (c, g) l (handle_pubrec i c g) (on_match PUBREC i ws (\<lambda>r zs.
     Some (zs @ [r\<lparr>wtype := PUBCOMP, wdata := Id_data i\<rparr>], [ack_wire (PACK_MESSAGE_TYPE PUBREL OR 2) i], [])))"
  unfolding handle_pubrec_def
proof (rule take_effect [OF assms(2)])
  fix r :: waiting_t and c' g' and zs :: "waiting_t list"
  let ?w = "r\<lparr>wtype := PUBCOMP, wdata := Id_data i\<rparr>"
  assume ok: "session_ok s c' g' l zs"
  have "has_effect s (c', g') l (Option.bind (session_reply (\<lambda>b. make_pubrel_message b (buffer_size c') i) c' g')
      (\<lambda>(st, c, g). if st = SMQTT_MT_OK then Some (Some ?w, c, g) else Some (None, c, g)))
    (map_option (\<lambda>(ws, ps, ks). (ws, ack_wire (PACK_MESSAGE_TYPE PUBREL OR 2) i # ps, ks)) (Some (zs @ [?w], [], [])))"
    by (rule reply_effect [OF assms(1) ok builds_fixed(3)]) (use effect_done [where r = "Some ?w"] in simp)
  then show "has_effect s (c', g') l (Option.bind (session_reply (\<lambda>b. make_pubrel_message b (buffer_size c') i) c' g')
      (\<lambda>(st, c, g). if st = SMQTT_MT_OK then Some (Some ?w, c, g) else Some (None, c, g)))
    (Some (zs @ [?w], [ack_wire (PACK_MESSAGE_TYPE PUBREL OR 2) i], []))"
    by simp
qed

lemma pubrel_effect:
  assumes "reliable s" "session_ok s c g l ws"
  shows "has_effect s (c, g) l (handle_pubrel i c g)
    (session_spec (msg_callback c) (msg_cb_context c) b (Pubrel_body i) ws)"
  unfolding handle_pubrel_def session_spec.simps
proof (rule take_effect [OF assms(2)])
  fix r :: waiting_t and c' g' and zs :: "waiting_t list"
  let ?k = "\<lambda>c g. if msg_callback c \<noteq> None then (case wdata r of Pubrel_data topic msg retain x \<Rightarrow>
        Some (None, c, message_callback c topic msg QoS2 retain g) | _ \<Rightarrow> None) else Some (None, c, g)"
  let ?e = "if msg_callback c = None then Some (zs, [], []) else (case wdata r of Pubrel_data topic msg retain x \<Rightarrow>
        Some (zs, [], message_calls (msg_callback c) (msg_cb_context c) topic msg QoS2 retain) | _ \<Rightarrow> None)"
  assume ok: "session_ok s c' g' l zs" and same: "same_delivery c c'"
  have "has_effect s (c', g') l (Option.bind (session_reply (\<lambda>b. make_pubcomp_message b (buffer_size c') i) c' g')
      (\<lambda>(st, c, g). if st = SMQTT_MT_OK then ?k c g else Some (None, c, g)))
    (map_option (\<lambda>(ws, ps, ks). (ws, ack_wire (PACK_MESSAGE_TYPE PUBCOMP) i # ps, ks)) ?e)"
  proof (rule reply_effect [OF assms(1) ok builds_fixed(4)])
    fix d h
    let ?l = "l @ [Tx (ack_wire (PACK_MESSAGE_TYPE PUBCOMP) i) SMQTT_NET_OK]"
    assume a: "session_ok s d h ?l zs" "same_delivery c' d"
    with same effect_none [OF a(1)] effect_call [OF a(1)] show "has_effect s (d, h) ?l (?k d h) ?e"
      by (auto simp: same_delivery_def message_callback_def message_calls_def has_effect_def [where e = None]
          split: waiting_data.split)
  qed
  moreover have "map_option (\<lambda>(ws, ps, ks). (ws, ack_wire (PACK_MESSAGE_TYPE PUBCOMP) i # ps, ks)) ?e =
      (if msg_callback c = None then Some (zs, [ack_wire (PACK_MESSAGE_TYPE PUBCOMP) i], [])
       else case wdata r of Pubrel_data topic msg retain x \<Rightarrow> Some (zs, [ack_wire (PACK_MESSAGE_TYPE PUBCOMP) i],
           message_calls (msg_callback c) (msg_cb_context c) topic msg QoS2 retain) | _ \<Rightarrow> None)"
    by (simp split: waiting_data.split)
  ultimately show "has_effect s (c', g') l (Option.bind (session_reply (\<lambda>b. make_pubcomp_message b (buffer_size c') i) c' g')
      (\<lambda>(st, c, g). if st = SMQTT_MT_OK \<and> msg_callback c \<noteq> None then
          (case wdata r of Pubrel_data topic msg retain x \<Rightarrow>
              Some (None, c, message_callback c topic msg QoS2 retain g) | _ \<Rightarrow> None)
        else Some (None, c, g)))
    (if msg_callback c = None then Some (zs, [ack_wire (PACK_MESSAGE_TYPE PUBCOMP) i], [])
     else case wdata r of Pubrel_data topic msg retain x \<Rightarrow> Some (zs, [ack_wire (PACK_MESSAGE_TYPE PUBCOMP) i],
         message_calls (msg_callback c) (msg_cb_context c) topic msg QoS2 retain) | _ \<Rightarrow> None)"
    by (simp only: if_conj)
qed

lemma suback_effect:
  "session_ok s c g l ws \<Longrightarrow> has_effect s (c, g) l (handle_suback d c g) (session_spec cb ctx b (Suback_body d) ws)"
  unfolding handle_suback_def session_spec.simps
  by (erule take_effect)
    (auto intro: effect_none effect_call simp: has_effect_def [where e = None] split: waiting_data.split option.split)

lemma unsuback_effect:
  "session_ok s c g l ws \<Longrightarrow> has_effect s (c, g) l (handle_unsuback i c g) (session_spec cb ctx b (Unsuback_body i) ws)"
  unfolding handle_unsuback_def session_spec.simps
  by (erule take_effect) (auto intro: effect_none effect_call simp: completed_def request_callback_def)

text \<open>Every packet has exactly the effect specified for it, undefined where that is.\<close>

lemma response_effect:
  assumes "reliable s" "session_ok s c g l ws" "\<And>d. r = Publish_body d \<Longrightarrow> 4 \<le> p_topic d \<and> 4 \<le> p_message d"
  shows "has_effect s (c, g) l (handle_response r c g)
    (session_spec (msg_callback c) (msg_cb_context c) (receive_buffer c) r ws)"
proof (cases r)
  case (Publish_body d)
  with publish_effect [OF assms(1,2), of d] assms(3) show ?thesis by simp
next
  case (Pubrel_body i)
  with pubrel_effect [OF assms(1,2)] show ?thesis by simp
next
  case (Suback_body d)
  with suback_effect [OF assms(2)] show ?thesis by simp
next
  case (Unsuback_body i)
  with unsuback_effect [OF assms(2)] show ?thesis by simp
qed (use complete_effect [OF assms(2)] pubrec_effect [OF assms(1,2)] effect_none [OF assms(2)] in simp_all)

lemma parsed_publish:
  assumes "session_ok s c g l ws" "publish_decodable (topic, i, qos, retain, Some m)"
    "bytes_at (receive_buffer c) 0 (publish_wire (topic, i, qos, retain, Some m))"
  obtains d where "deserialize_response (receive_buffer c) (length (publish_wire (topic, i, qos, retain, Some m))) =
      Some (Some (Publish_body d))" "p_qos d = qos" "p_retain d = retain"
    "p_packet_id d = (if QoS1 \<le> qos then i else 0)"
    "shows_string (receive_buffer c) (p_topic_size d, p_topic d) topic" "4 \<le> p_topic d"
    "shows_string (receive_buffer c) (p_message_size d, p_message d) m" "4 \<le> p_message d"
proof -
  let ?w = "publish_wire (topic, i, qos, retain, Some m)"
  from publish.parse_wire [OF TrueI assms(2,3)] obtain d where
    d: "deserialize_response (receive_buffer c) (length ?w) = Some (Some (Publish_body d))" "p_qos d = qos"
      "p_retain d = retain" "p_packet_id d = (if QoS1 \<le> qos then i else 0)"
      "shows_string (receive_buffer c) (p_topic_size d, p_topic d) topic"
      "shows_string (receive_buffer c) (p_message_size d, p_message d) m"
    by (auto simp: no_packet_id_def)
  have "265 \<le> length (receive_buffer c)" using assms(1) by (simp add: session_ok_def BUFFER_SIZE_def)
  note layout = deserialize_publish_layout [OF this d(1)]
  have "1 \<le> length ?w" by (simp add: publish_wire.simps Let_def)
  with layout have "4 \<le> p_topic d" "4 \<le> p_message d" by auto
  with d show thesis by (intro that)
qed

subsection \<open>When handling a packet is defined\<close>

text \<open>
  A request the handlers can work with: it carries the identifier its type needs, and the callback that the
  handlers of PINGRESP, PUBACK and PUBCOMP call without a test.
\<close>

definition request_ok :: "waiting_t \<Rightarrow> bool" where
  "request_ok w \<longleftrightarrow>
     (wtype w \<in> {PINGRESP, PUBACK, PUBREC, PUBCOMP} \<longrightarrow> callback w \<noteq> None) \<and>
     (wtype w \<in> {PUBACK, PUBREC, PUBCOMP, PUBREL, SUBACK, UNSUBACK} \<longrightarrow> waiting_id (wtype w) (wdata w) \<noteq> None)"

definition requests_ok :: "('i, 'w) smqtt_mt_client \<Rightarrow> 'w mt_env \<Rightarrow> bool" where
  "requests_ok c g \<longleftrightarrow> (\<exists>ws. acks_at c g ws \<and> (\<forall>w \<in> set ws. request_ok w))"

lemma entry_test_ok:
  assumes "request_ok w" "t = SUBACK \<Longrightarrow> wtype w = SUBACK \<Longrightarrow> waiting_id SUBACK (wdata w) = Some i"
  shows "\<exists>r. entry_test t i w = Some r \<and> r \<noteq> Stop \<and> (r = Matched \<longrightarrow> wtype w = t)"
proof (cases "wtype w = t")
  case True
  with assms show ?thesis by (cases t) (auto simp: entry_test_def request_ok_def)
qed (simp add: entry_test_def)

lemma lookup_ok:
  assumes "\<forall>w \<in> set ws. request_ok w"
    and "t = SUBACK \<Longrightarrow> \<forall>w \<in> set ws. wtype w = SUBACK \<longrightarrow> waiting_id SUBACK (wdata w) = Some i"
  shows "\<exists>m zs. lookup_waiting t i ws = Some (m \<noteq> None, m, zs) \<and> set zs \<subseteq> set ws \<and>
    (\<forall>r. m = Some r \<longrightarrow> r \<in> set ws \<and> wtype r = t)"
  using assms
proof (induction ws)
  case (Cons w ws)
  then obtain m zs where IH: "lookup_waiting t i ws = Some (m \<noteq> None, m, zs)" "set zs \<subseteq> set ws"
    "\<forall>r. m = Some r \<longrightarrow> r \<in> set ws \<and> wtype r = t" by auto
  from entry_test_ok [of w t i] Cons.prems obtain r where
    r: "entry_test t i w = Some r" "r \<noteq> Stop" "r = Matched \<longrightarrow> wtype w = t" by auto
  show ?case
  proof (cases r)
    case Matched
    with r show ?thesis by (auto intro!: exI [of _ "Some w"])
  next
    case Continue
    with r IH show ?thesis by (auto intro!: exI [of _ m])
  qed (use r in simp)
qed simp

lemma take_requests_ok:
  assumes "requests_ok c g"
    and "t = SUBACK \<Longrightarrow> \<forall>ws. acks_at c g ws \<longrightarrow> (\<forall>w \<in> set ws. wtype w = SUBACK \<longrightarrow> waiting_id SUBACK (wdata w) = Some i)"
  obtains m q h where "take_waiting t i c g = Some (m \<noteq> None, m, c\<lparr>ack_queue := q\<rparr>, g\<lparr>ack_heap := h\<rparr>)"
    "requests_ok (c\<lparr>ack_queue := q\<rparr>) (g\<lparr>ack_heap := h\<rparr>)" "\<And>r. m = Some r \<Longrightarrow> request_ok r \<and> wtype r = t"
proof -
  from assms(1) obtain ws where ws: "acks_at c g ws" "\<forall>w \<in> set ws. request_ok w" by (auto simp: requests_ok_def)
  from lookup_ok [OF ws(2), of t i] assms(2) ws(1) obtain m zs where
    m: "lookup_waiting t i ws = Some (m \<noteq> None, m, zs)" "set zs \<subseteq> set ws"
      "\<forall>r. m = Some r \<longrightarrow> r \<in> set ws \<and> wtype r = t" by blast
  from take_waiting_found [OF ws(1) m(1)] obtain q h where
    "take_waiting t i c g = Some (m \<noteq> None, m, c\<lparr>ack_queue := q\<rparr>, g\<lparr>ack_heap := h\<rparr>)"
    "acks_at (c\<lparr>ack_queue := q\<rparr>) (g\<lparr>ack_heap := h\<rparr>) zs" by metis
  with m(2,3) ws(2) show thesis by (intro that [of m q h]) (auto simp: requests_ok_def)
qed

lemma requests_ok_update [simp]:
  "requests_ok (c\<lparr>receive_buffer := b\<rparr>) g = requests_ok c g" "requests_ok (c\<lparr>server := s\<rparr>) g = requests_ok c g"
  "requests_ok c (g\<lparr>outside := w\<rparr>) = requests_ok c g" "requests_ok c (g\<lparr>calls := l\<rparr>) = requests_ok c g"
  by (simp_all add: requests_ok_def)

text \<open>No waiting SUBSCRIBE has an identifier other than the one a SUBACK carries.\<close>

definition suback_matches :: "('i, 'w) smqtt_mt_client \<Rightarrow> 'w mt_env \<Rightarrow> response_t \<Rightarrow> bool" where
  "suback_matches c g r \<longleftrightarrow> (\<forall>d ws. r = Suback_body d \<longrightarrow> acks_at c g ws \<longrightarrow>
     (\<forall>w \<in> set ws. wtype w = SUBACK \<longrightarrow> waiting_id SUBACK (wdata w) = Some (sa_packet_id d)))"

context transport
begin

text \<open>A client whose session thread can go on: the transport is up, and the receive buffer has its size.\<close>

definition session_ready :: "('i, 'w) smqtt_mt_client \<Rightarrow> 'w mt_env \<Rightarrow> bool" where
  "session_ready c g \<longleftrightarrow> up (smqtt_mt_client.server c) \<and> length (smqtt_mt_client.receive_buffer c) = BUFFER_SIZE \<and> requests_ok c g"

text \<open>The result of a handler: defined, the buffer and the requests kept, and a request to enqueue is a good one.\<close>

definition handled :: "(waiting_t option \<times> ('i, 'w) smqtt_mt_client \<times> 'w mt_env) option \<Rightarrow> bool" where
  "handled res \<longleftrightarrow> (\<exists>r c g. res = Some (r, c, g) \<and> length (smqtt_mt_client.receive_buffer c) = BUFFER_SIZE \<and>
     requests_ok c g \<and> (\<forall>w. r = Some w \<longrightarrow> request_ok w))"

lemma handledI: "session_ready c g \<Longrightarrow> handled (Some (None, c, g))"
  by (simp add: handled_def session_ready_def)

lemma reply_handled:
  assumes "session_ready c g" "builds mk w" "length w = 4"
    and "\<And>c' g'. \<lbrakk>length (smqtt_mt_client.receive_buffer c') = BUFFER_SIZE;
      drop 4 (smqtt_mt_client.receive_buffer c') = drop 4 (smqtt_mt_client.receive_buffer c); requests_ok c' g'\<rbrakk> \<Longrightarrow>
      handled (k c' g')"
  shows "handled (Option.bind (session_reply mk c g) (\<lambda>(st, c, g).
    if st = SMQTT_MT_OK then k c g else Some (None, c, g)))"
proof -
  let ?b = "w @ drop (length w) (smqtt_mt_client.receive_buffer c)"
  from assms(1) have c: "up (smqtt_mt_client.server c)" "length (smqtt_mt_client.receive_buffer c) = BUFFER_SIZE"
    "requests_ok c g"
    by (simp_all add: session_ready_def)
  then have l: "length ?b = BUFFER_SIZE" "mk (smqtt_mt_client.receive_buffer c) = Some (?b, length w)"
    "unat (of_nat (length w) :: size_t) = length w"
    using assms(2,3) by (simp_all add: BUFFER_SIZE_def builds_def stored_def unat_of_nat_small)
  have "2 \<le> length ?b" "unat (of_nat (length w) :: size_t) \<le> length ?b" using l assms(3) by (simp_all add: BUFFER_SIZE_def)
  from up_send [OF c(1) this, of "mt_env.outside g"] obtain st s x where
    s: "server_send (smqtt_mt_client.server c) ?b (of_nat (length w)) (mt_env.outside g) = Some (st, s, x)" .
  let ?c = "c\<lparr>smqtt_mt_client.receive_buffer := ?b, smqtt_mt_client.server := s\<rparr>"
  let ?g = "g\<lparr>mt_env.outside := x\<rparr>"
  have r: "session_reply mk c g = Some (status_from_net_mt st, ?c, ?g)" using s l(2) by (simp add: session_reply_def)
  show ?thesis
  proof (cases st)
    case SMQTT_NET_OK
    have "handled (k ?c ?g)" by (rule assms(4)) (use l(1) assms(3) c(3) in simp_all)
    with r SMQTT_NET_OK show ?thesis by simp
  next
    case SMQTT_NET_SOCKET
    have "handled (Some (None, ?c, ?g))" using l(1) c(3) by (simp add: handled_def)
    with r SMQTT_NET_SOCKET show ?thesis by simp
  qed
qed

lemma found_handled:
  assumes "session_ready c g"
    and "t = SUBACK \<Longrightarrow> \<forall>ws. acks_at c g ws \<longrightarrow> (\<forall>w \<in> set ws. wtype w = SUBACK \<longrightarrow> waiting_id SUBACK (wdata w) = Some i)"
    and "\<And>r c' g'. \<lbrakk>session_ready c' g'; request_ok r; wtype r = t\<rbrakk> \<Longrightarrow> handled (k r c' g')"
  shows "handled (Option.bind (take_waiting t i c g) (\<lambda>(found, waiting, c, g).
    if found then Option.bind waiting (\<lambda>w. k w c g) else Some (None, c, g)))"
proof (rule take_requests_ok [OF _ assms(2)])
  show "requests_ok c g" using assms(1) by (simp add: session_ready_def)
  fix m q h
  let ?c = "c\<lparr>ack_queue := q\<rparr>" and ?g = "g\<lparr>ack_heap := h\<rparr>"
  assume t: "take_waiting t i c g = Some (m \<noteq> None, m, ?c, ?g)" "requests_ok ?c ?g"
    "\<And>r. m = Some r \<Longrightarrow> request_ok r \<and> wtype r = t"
  have s: "session_ready ?c ?g" using assms(1) t(2) by (simp add: session_ready_def)
  show ?thesis
  proof (cases m)
    case None
    with t(1) handledI [OF s] show ?thesis by simp
  next
    case (Some r)
    with t(3) have "handled (k r ?c ?g)" by (intro assms(3) [OF s]) simp_all
    with t(1) Some show ?thesis by simp
  qed
qed

lemma request_callback_handled:
  assumes "session_ready c g" "callback r \<noteq> None"
  shows "handled (Option.bind (request_callback r g) (\<lambda>g. Some (None, c, g)))"
  using assms by (auto simp: request_callback_def handled_def session_ready_def)

lemma complete_handled:
  "\<lbrakk>session_ready c g; t \<in> {PINGRESP, PUBACK, PUBCOMP}\<rbrakk> \<Longrightarrow> handled (complete_waiting t i c g)"
  unfolding complete_waiting_def
  by (erule found_handled) (auto simp: request_ok_def intro!: request_callback_handled)

lemma unsuback_handled: "session_ready c g \<Longrightarrow> handled (handle_unsuback i c g)"
  unfolding handle_unsuback_def
  by (erule found_handled) (auto simp: handledI intro!: request_callback_handled)

lemma suback_handled:
  assumes "session_ready c g"
    "\<forall>ws. acks_at c g ws \<longrightarrow> (\<forall>w \<in> set ws. wtype w = SUBACK \<longrightarrow> waiting_id SUBACK (wdata w) = Some (sa_packet_id d))"
  shows "handled (handle_suback d c g)"
  unfolding handle_suback_def
proof (rule found_handled [OF assms(1)])
  fix r c' g'
  assume s: "session_ready c' g'" "request_ok r" "wtype r = SUBACK"
  then obtain cb j where "wdata r = Suback_data cb j" by (cases "wdata r") (auto simp: request_ok_def)
  with s(1) show "handled (case wdata r of Suback_data (Some f) x \<Rightarrow>
       Some (None, c', g'\<lparr>calls := calls g' @ [Suback_call f True (sa_packet_id d) (sa_topic_count d)
         (sa_success d) (sa_qoss d) (cb_context r)]\<rparr>)
     | Suback_data None x \<Rightarrow> Some (None, c', g') | _ \<Rightarrow> None)"
    by (cases cb) (simp_all add: handled_def session_ready_def)
qed (use assms(2) in simp)

lemma pubrec_handled:
  assumes "session_ready c g"
  shows "handled (handle_pubrec i c g)"
  unfolding handle_pubrec_def
proof (rule found_handled [OF assms])
  fix r c' g'
  assume s: "session_ready c' g'" "request_ok r" "wtype r = PUBREC"
  have "request_ok (r\<lparr>wtype := PUBCOMP, wdata := Id_data i\<rparr>)" using s(2,3) by (simp add: request_ok_def)
  then show "handled (Option.bind (session_reply (\<lambda>b. make_pubrel_message b (buffer_size c') i) c' g')
      (\<lambda>(st, c, g). if st = SMQTT_MT_OK then Some (Some (r\<lparr>wtype := PUBCOMP, wdata := Id_data i\<rparr>), c, g)
        else Some (None, c, g)))"
    by (intro reply_handled [OF s(1) builds_fixed(3)]) (simp_all add: handled_def)
qed simp

lemma message_callback_requests [simp]:
  "requests_ok c (message_callback c' topic msg qos retain g) = requests_ok c g"
  by (simp add: message_callback_def split: option.split)

lemma pubrel_handled:
  assumes "session_ready c g"
  shows "handled (handle_pubrel i c g)"
  unfolding handle_pubrel_def
proof (rule found_handled [OF assms])
  fix r c' g'
  assume s: "session_ready c' g'" "request_ok r" "wtype r = PUBREL"
  then obtain topic msg retain j where "wdata r = Pubrel_data topic msg retain j"
    by (cases "wdata r") (auto simp: request_ok_def)
  then have k: "handled (if msg_callback d \<noteq> None then (case wdata r of Pubrel_data topic msg retain x \<Rightarrow>
        Some (None, d, message_callback d topic msg QoS2 retain h) | _ \<Rightarrow> None) else Some (None, d, h))"
    if "length (smqtt_mt_client.receive_buffer d) = BUFFER_SIZE" "requests_ok d h" for d h
    using that by (simp add: handled_def)
  show "handled (Option.bind (session_reply (\<lambda>b. make_pubcomp_message b (buffer_size c') i) c' g')
      (\<lambda>(st, c, g). if st = SMQTT_MT_OK \<and> msg_callback c \<noteq> None then
          (case wdata r of Pubrel_data topic msg retain x \<Rightarrow>
              Some (None, c, message_callback c topic msg QoS2 retain g) | _ \<Rightarrow> None)
        else Some (None, c, g)))"
    unfolding if_conj by (rule reply_handled [OF s(1) builds_fixed(4)]) (simp, rule k)
qed simp

lemma publish_handled:
  assumes "session_ready c g" "p_topic d \<le> 264" "p_message d \<le> 264" "unat (p_topic_size d) \<le> 255"
    "copy_ends (smqtt_mt_client.receive_buffer c) d"
  shows "handled (handle_publish d c g)"
proof -
  have copies: "\<exists>cs. strncpy_mem (smqtt_mt_client.receive_buffer c') (p_topic d) (unat (p_topic_size d)) = Some cs"
    "\<exists>cs. strncpy_mem (smqtt_mt_client.receive_buffer c') (p_message d) (unat (p_message_size d)) = Some cs"
    if "length (smqtt_mt_client.receive_buffer c') = BUFFER_SIZE"
      "drop 4 (smqtt_mt_client.receive_buffer c') = drop 4 (smqtt_mt_client.receive_buffer c)" for c' :: "('i, 'w) smqtt_mt_client"
  proof -
    have "drop 264 (smqtt_mt_client.receive_buffer c') = drop 264 (smqtt_mt_client.receive_buffer c)"
      using arg_cong [OF that(2), of "drop 260"] by simp
    with assms(5) have "copy_ends (smqtt_mt_client.receive_buffer c') d" by (simp add: copy_ends_def)
    with that(1) assms(2-4) show "\<exists>cs. strncpy_mem (smqtt_mt_client.receive_buffer c') (p_topic d) (unat (p_topic_size d)) = Some cs"
      "\<exists>cs. strncpy_mem (smqtt_mt_client.receive_buffer c') (p_message d) (unat (p_message_size d)) = Some cs"
      by (intro copy_in_buffer; simp add: copy_ends_def)+
  qed
  have deliver: "handled (Option.bind (maybe_deliver_message c' d g) (\<lambda>g. Some (None, c', g)))"
    if "length (smqtt_mt_client.receive_buffer c') = BUFFER_SIZE"
      "drop 4 (smqtt_mt_client.receive_buffer c') = drop 4 (smqtt_mt_client.receive_buffer c)" "requests_ok c' g" for c' g
    using copies [OF that(1,2)] that(1,3) by (auto simp: maybe_deliver_message_def handled_def)
  have store: "handled (Option.bind (copy_publish_topic c' d) (\<lambda>topic. Option.bind (copy_publish_msg c' d) (\<lambda>msg.
      Some (Some \<lparr>wtype = PUBREL, callback = None, cb_context = 0,
        wdata = Pubrel_data topic msg (p_retain d) (p_packet_id d)\<rparr>, c', g))))"
    if "length (smqtt_mt_client.receive_buffer c') = BUFFER_SIZE"
      "drop 4 (smqtt_mt_client.receive_buffer c') = drop 4 (smqtt_mt_client.receive_buffer c)" "requests_ok c' g" for c' g
    using copies [OF that(1,2)] that(1,3)
    by (auto simp: copy_publish_topic_def copy_publish_msg_def handled_def request_ok_def)
  consider "p_qos d = QoS0" | "p_qos d = QoS1" | "p_qos d = QoS2" | "p_qos d \<notin> {QoS0, QoS1, QoS2}" by blast
  then show ?thesis
  proof cases
    case 1
    then show ?thesis using assms(1) deliver [of c g] by (simp add: handle_publish_def session_ready_def)
  next
    case 2
    then show ?thesis
      by (simp add: handle_publish_def) (rule reply_handled [OF assms(1) builds_fixed(1)], simp_all add: deliver)
  next
    case 3
    then show ?thesis
      by (simp add: handle_publish_def Let_def) (rule reply_handled [OF assms(1) builds_fixed(2)], simp_all add: store)
  qed (simp add: handle_publish_def handledI [OF assms(1)])
qed

lemma handle_response_handled:
  assumes "session_ready c g" "suback_matches c g r" "\<And>d. r = Publish_body d \<Longrightarrow>
      p_topic d \<le> 264 \<and> p_message d \<le> 264 \<and> unat (p_topic_size d) \<le> 255 \<and> copy_ends (smqtt_mt_client.receive_buffer c) d"
  shows "handled (handle_response r c g)"
  using assms
  by (cases r) (simp_all add: handledI complete_handled pubrec_handled suback_handled unsuback_handled
      publish_handled pubrel_handled suback_matches_def)

lemma receive_handled:
  assumes "session_ready c g"
    and "\<And>sz b s w. \<lbrakk>server_receive (smqtt_mt_client.server c) (smqtt_mt_client.receive_buffer c) (buffer_size c)
        (mt_env.outside g) = Some (sz, b, s, w); 0 < sz\<rbrakk> \<Longrightarrow>
      \<exists>r. deserialize_response b (unat (word_of_int sz :: size_t)) = Some (Some r) \<and> suback_matches c g r \<and>
        (\<forall>d. r = Publish_body d \<longrightarrow> copy_ends b d)"
  shows "handled (session_receive c g)"
proof -
  from assms(1) have c: "up (smqtt_mt_client.server c)" "length (smqtt_mt_client.receive_buffer c) = BUFFER_SIZE"
    "requests_ok c g"
    by (simp_all add: session_ready_def)
  have "rx_limit \<le> length (smqtt_mt_client.receive_buffer c)" using c(2) by (simp add: rx_limit_def BUFFER_SIZE_def)
  from up_receive [OF c(1) this, of "buffer_size c" "mt_env.outside g"] obtain sz b s w where
    r: "server_receive (smqtt_mt_client.server c) (smqtt_mt_client.receive_buffer c) (buffer_size c)
        (mt_env.outside g) = Some (sz, b, s, w)" "up s" "length b = BUFFER_SIZE" using c(2) by metis
  let ?c = "c\<lparr>smqtt_mt_client.receive_buffer := b, smqtt_mt_client.server := s\<rparr>"
  let ?g = "g\<lparr>mt_env.outside := w\<rparr>"
  have ready: "session_ready ?c ?g" using r c(3) by (simp add: session_ready_def)
  show ?thesis
  proof (cases "0 < sz")
    case True
    with assms(2) r(1) obtain p where
      p: "deserialize_response b (unat (word_of_int sz :: size_t)) = Some (Some p)" "suback_matches c g p"
      "\<forall>d. p = Publish_body d \<longrightarrow> copy_ends b d" by blast
    have "265 \<le> length b" using r(3) by (simp add: BUFFER_SIZE_def)
    note layout = deserialize_publish_layout [OF this]
    have "handled (handle_response p ?c ?g)"
    proof (rule handle_response_handled [OF ready])
      show "suback_matches ?c ?g p" using p(2) by (simp add: suback_matches_def)
      show "p_topic d \<le> 264 \<and> p_message d \<le> 264 \<and> unat (p_topic_size d) \<le> 255 \<and>
          copy_ends (smqtt_mt_client.receive_buffer ?c) d" if "p = Publish_body d" for d
        using layout(1,2,4) [OF p(1) [unfolded that]] p(3) that by simp
    qed
    with r(1) True p(1) show ?thesis by (simp add: session_receive_def Let_def)
  next
    case False
    with r(1) handledI [OF ready] show ?thesis by (simp add: session_receive_def Let_def)
  qed
qed

end

end
