(* ===== verification/MT_Properties.thy ===== *)
theory MT_Properties
  imports MT_Handlers
begin

section \<open>Correctness of the multithreaded client\<close>

text \<open>
  The properties of \<^verbatim>\<open>connection.c\<close> and \<^verbatim>\<open>smqttc_mt.c\<close>: the ownership of the buffer slots in every
  interleaving, when taking a slot ends, what the calls and the handlers do, and where the code does not do what it
  means to.
\<close>

declare publish_wire.simps [simp del] subscribe_wire.simps [simp del] unsubscribe_wire.simps [simp del]

subsection \<open>A client that was just started\<close>

lemma start_session_at:
  assumes "memory_ok m (unat n) BUFFER_SIZE (slot_heap g)" "start_session_thread m c n sz s g = Some (r, c', g')"
  shows "session_at c' g' (map of_nat [0..<unat n]) [] []" "slots_inv (map of_nat [0..<unat n]) [] (initial_system c' g')"
    "buffer_count c' = n" "ack_heap g' = ack_heap g" "server c' = s" "r" "connected c' = connected c"
    "publish_packet_id c' = publish_packet_id c" "subscribe_packet_id c' = subscribe_packet_id c"
    "calls g' = calls g" "outside g' = outside g" "length (receive_buffer c') = BUFFER_SIZE"
    "msg_callback c' = msg_callback c"
    "\<lbrakk>a \<notin> raw_entry m ` {..<unat n}; slot_heap g a = None\<rbrakk> \<Longrightarrow> slot_heap g' a = None"
proof -
  from start_session [OF assms(1), of c sz s] assms(2) have
    f: "slots_inv (all_slots c') [] (initial_system c' g')" "acks_at c' g' []" "all_slots c' = map of_nat [0..<unat n]"
    "buffer_count c' = n" "receive_buffer c' = raw_receive m"
    and b: "\<And>i. i < unat n \<Longrightarrow> buffer (buffer_slots c' ! i) = raw_slot m i"
    and rest: "ack_heap g' = ack_heap g" "server c' = s" "r" "connected c' = connected c"
    "publish_packet_id c' = publish_packet_id c" "subscribe_packet_id c' = subscribe_packet_id c"
    "calls g' = calls g" "outside g' = outside g" "msg_callback c' = msg_callback c"
    and fresh: "\<And>a. \<lbrakk>a \<notin> raw_entry m ` {..<unat n}; slot_heap g a = None\<rbrakk> \<Longrightarrow> slot_heap g' a = None"
    by (metis Pair_inject option.inject)+
  note numbers = slots_numbers(2) [OF f(1)]
  from f(1,4) have l: "length (buffer_slots c') = unat n" by (simp add: slots_inv_def initial_system_def)
  have "\<forall>slot \<in> set (buffer_slots c'). length (buffer slot) = BUFFER_SIZE"
    using b l assms(1) by (auto simp: in_set_conv_nth memory_ok_def)
  with f(1,2) numbers show "session_at c' g' (map of_nat [0..<unat n]) [] []"
    by (auto simp: session_at_def slots_inv_def initial_system_def f(3))
  show "slots_inv (map of_nat [0..<unat n]) [] (initial_system c' g')" using f(1,3) by simp
  show "length (receive_buffer c') = BUFFER_SIZE" using f(5) assms(1) by (simp add: memory_ok_def)
  show "buffer_count c' = n" "ack_heap g' = ack_heap g" "server c' = s" "r" "connected c' = connected c"
    "publish_packet_id c' = publish_packet_id c" "subscribe_packet_id c' = subscribe_packet_id c"
    "calls g' = calls g" "outside g' = outside g" "msg_callback c' = msg_callback c"
    by (fact f(4) rest)+
  show "\<lbrakk>a \<notin> raw_entry m ` {..<unat n}; slot_heap g a = None\<rbrakk> \<Longrightarrow> slot_heap g' a = None" by (rule fresh)
qed

definition sample_memory :: fresh_memory where
  "sample_memory = \<lparr>raw_receive = replicate BUFFER_SIZE 0, raw_slot = (\<lambda>_. replicate BUFFER_SIZE 0), raw_entry = id\<rparr>"

definition sample_mt :: "('i, 'w) server_t \<Rightarrow> ('i, 'w) smqtt_mt_client" where
  "sample_mt s = \<lparr>hostname = [49], clientid = [97], port = 1883, connected = True, publish_packet_id = 1,
     subscribe_packet_id = 1, unsubscribe_packet_id = 0, buffer_count = 0, buffer_size = 0, receive_buffer = [],
     buffer_slots = [], ready_to_disconnect = False, free_queue = init_queue, send_queue = init_queue,
     ack_queue = init_queue, msg_callback = Some 9, msg_cb_context = 8, server = s\<rparr>"

definition sample_mt_env :: "'w \<Rightarrow> 'w mt_env" where
  "sample_mt_env w = \<lparr>slot_heap = (\<lambda>_. None), ack_heap = (\<lambda>_. None), static_send = replicate BUFFER_SIZE 0,
     static_receive = replicate BUFFER_SIZE 0, calls = [], outside = w\<rparr>"

lemma sample_memory_ok: "memory_ok sample_memory n BUFFER_SIZE (slot_heap (sample_mt_env w))"
  by (simp add: memory_ok_def sample_memory_def sample_mt_env_def)

lemma sample_started:
  obtains c g where "start_session_thread sample_memory (sample_mt s) n 1024 s (sample_mt_env w) = Some (True, c, g)"
    "session_at c g (map of_nat [0..<unat n]) [] []" "slots_inv (map of_nat [0..<unat n]) [] (initial_system c g)"
    "ack_heap g = (\<lambda>_. None)" "server c = s" "connected c" "publish_packet_id c = 1" "subscribe_packet_id c = 1"
    "calls g = []" "outside g = w" "length (receive_buffer c) = BUFFER_SIZE" "msg_callback c = Some 9"
    "buffer_count c = n" "\<And>a. unat n \<le> a \<Longrightarrow> slot_heap g a = None"
proof -
  from start_session [OF sample_memory_ok] obtain c g where
    r: "start_session_thread sample_memory (sample_mt s) n 1024 s (sample_mt_env w) = Some (True, c, g)" by metis
  from start_session_at [OF sample_memory_ok r] show thesis
    by (intro that [OF r]) (simp_all add: sample_mt_def sample_mt_env_def sample_memory_def)
qed

text \<open>The slots of any reachable state.\<close>

lemma reachable_slots:
  assumes "memory_ok m (unat n) k (slot_heap g)" "start_session_thread m c n sz s g = Some (r, c', g')"
    "mt_steps (initial_system c' g') t"
  obtains fs ss where "slots_inv fs ss t" "buffer_count (cl t) = n"
proof -
  from start_session [OF assms(1), of c sz s] assms(2) have
    "slots_inv (all_slots c') [] (initial_system c' g')" "buffer_count c' = n" by (metis Pair_inject option.inject)+
  with mt_steps_inv [OF assms(3)] mt_steps_count [OF assms(3)] that show thesis
    by (auto simp: initial_system_def)
qed

subsection \<open>Slots\<close>

text \<open>C3: in every interleaving of any number of callers with the session thread, every buffer slot has exactly one owner:
  each of the \<^verbatim>\<open>buffer_count\<close> slots is exactly once in the free queue, in the send queue, with a caller that took it,
  or with the session thread that sends it. No slot is lost and no two of them ever write or send the same one.\<close>

theorem slots_have_one_owner:
  assumes "memory_ok m (unat n) k (slot_heap g)" "start_session_thread m c n sz s g = Some (r, c', g')"
    "mt_steps (initial_system c' g') t"
  shows "\<exists>fs ss. pool_at (slot_heap (env t)) (free_queue (cl t)) (send_queue (cl t)) fs ss \<and>
    distinct (fs @ ss @ held t @ owned (pc t)) \<and> set (fs @ ss @ held t @ owned (pc t)) = {p. p < n}"
proof -
  from reachable_slots [OF assms] obtain fs ss where i: "slots_inv fs ss t" and n: "buffer_count (cl t) = n" .
  then have "set (fs @ ss @ held t @ owned (pc t)) = set (all_slots (cl t))"
    unfolding slots_inv_def by (metis mset_eq_setD)
  also have "\<dots> = {p. p < n}"
  proof -
    have "p \<in> of_nat ` {0..<unat n}" if "p < n" for p :: slot_index_t
      using that by (intro image_eqI [of _ _ "unat p"]) (simp_all add: word_less_nat_alt)
    moreover have "(of_nat i :: slot_index_t) < n" if "i < unat n" for i
      using that unat_of_nat_le [of i, where 'a = 16] by (simp add: word_less_nat_alt)
    ultimately show ?thesis using i n by (auto simp: all_slots_def slots_inv_def)
  qed
  finally show ?thesis using i slots_numbers(1) [OF i] by (auto simp: slots_inv_def)
qed

text \<open>A run for the witnesses: the first slot is taken.\<close>

lemma sample_acquired:
  assumes "0 < unat n"
  obtains c g t where "start_session_thread sample_memory (sample_mt s) n 1024 s (sample_mt_env w) = Some (True, c, g)"
    "mt_steps (initial_system c g) t" "held t = [0]" "pc t = At_top" "\<not> spinning t"
    "slots_inv (map of_nat [1..<unat n]) [] t"
proof (rule sample_started [of s n w])
  fix c g
  assume r: "start_session_thread sample_memory (sample_mt s) n 1024 s (sample_mt_env w) = Some (True, c, g)"
    and a: "session_at c g (map of_nat [0..<unat n]) [] []"
    and i: "slots_inv (map of_nat [0..<unat n]) [] (initial_system c g)"
  have two: "map of_nat [0..<unat n] = 0 # map of_nat [1..<unat n]" using assms by (simp add: upt_conv_Cons)
  from get_buffer_slot_takes [OF a [unfolded two]] obtain q h where
    "get_buffer_slot c g = Some (0, c\<lparr>free_queue := q\<rparr>, g\<lparr>slot_heap := h\<rparr>)" by metis
  then have g: "get_buffer_slot (cl (initial_system c g)) (env (initial_system c g)) =
      Some (0, c\<lparr>free_queue := q\<rparr>, g\<lparr>slot_heap := h\<rparr>)" by (simp add: initial_system_def)
  have sp: "\<not> spinning (initial_system c g)" by (simp add: initial_system_def)
  let ?t = "(initial_system c g)\<lparr>cl := c\<lparr>free_queue := q\<rparr>, env := g\<lparr>slot_heap := h\<rparr>, held := 0 # held (initial_system c g)\<rparr>"
  have "slots_inv (map of_nat [1..<unat n]) [] ?t" using acquire_inv [OF i [unfolded two] sp g] by auto
  moreover have "mt_steps (initial_system c g) ?t" using mt_step.acquire [OF sp g] by blast
  ultimately show thesis using r by (intro that [of c g ?t]) (simp_all add: initial_system_def)
qed

theorem slots_have_one_owner_witness:
  "\<exists>c g t fs ss. start_session_thread sample_memory (sample_mt create_local_server) 2 1024 create_local_server
      (sample_mt_env ()) = Some (True, c, g) \<and> mt_steps (initial_system c g) t \<and> held t = [0] \<and>
    pool_at (slot_heap (env t)) (free_queue (cl t)) (send_queue (cl t)) fs ss \<and>
    distinct (fs @ ss @ held t @ owned (pc t)) \<and> set (fs @ ss @ held t @ owned (pc t)) = {p. p < 2}"
proof (rule sample_acquired [of 2 create_local_server "()"])
  fix c g t
  assume r: "start_session_thread sample_memory (sample_mt create_local_server) 2 1024 create_local_server
      (sample_mt_env ()) = Some (True, c, g)" "mt_steps (initial_system c g) t" "held t = [0]"
  from slots_have_one_owner [OF sample_memory_ok r(1,2)] r show ?thesis by blast
qed simp

text \<open>C22: \<^verbatim>\<open>get_buffer_slot\<close> returns exactly while some slot is not in use, that is while the submitted slots, those held by
  callers and the one the session thread sends are fewer than \<^verbatim>\<open>buffer_count\<close>; otherwise its loop runs forever.\<close>

theorem get_buffer_slot_returns:
  assumes "memory_ok m (unat n) k (slot_heap g)" "start_session_thread m c n sz s g = Some (r, c', g')"
    "mt_steps (initial_system c' g') t"
  shows "\<exists>fs ss. pool_at (slot_heap (env t)) (free_queue (cl t)) (send_queue (cl t)) fs ss \<and>
    ((\<exists>p d h. get_buffer_slot (cl t) (env t) = Some (p, d, h)) \<longleftrightarrow> length (ss @ held t @ owned (pc t)) < unat n)"
proof -
  from reachable_slots [OF assms] obtain fs ss where i: "slots_inv fs ss t" and n: "buffer_count (cl t) = n" .
  then have p: "pool_at (slot_heap (env t)) (free_queue (cl t)) (send_queue (cl t)) fs ss"
    and l: "length (fs @ ss @ held t @ owned (pc t)) = unat n"
    using slots_inv_length [OF i] by (simp_all add: slots_inv_def)
  have "(\<exists>p d h. get_buffer_slot (cl t) (env t) = Some (p, d, h)) \<longleftrightarrow> fs \<noteq> []"
  proof (cases fs)
    case Nil
    with get_slot_loop_pool [OF p] show ?thesis by (simp add: get_buffer_slot_def)
  next
    case (Cons p fs')
    with slots_numbers(2) [OF i, of p] have "unat p < length (buffer_slots (cl t))" by simp
    with get_slot_loop_pool [OF p] Cons show ?thesis by (auto simp: get_buffer_slot_def list_get_in)
  qed
  moreover have "fs \<noteq> [] \<longleftrightarrow> length (ss @ held t @ owned (pc t)) < unat n" using l by (cases fs) auto
  ultimately show ?thesis using p by blast
qed

theorem get_buffer_slot_returns_witness:
  "\<exists>c g t p d h. start_session_thread sample_memory (sample_mt create_local_server) 2 1024 create_local_server
      (sample_mt_env ()) = Some (True, c, g) \<and> mt_steps (initial_system c g) t \<and>
    get_buffer_slot (cl t) (env t) = Some (p, d, h)"
proof (rule sample_acquired [of 2 create_local_server "()"])
  fix c g t
  assume r: "start_session_thread sample_memory (sample_mt create_local_server) 2 1024 create_local_server
      (sample_mt_env ()) = Some (True, c, g)" "mt_steps (initial_system c g) t" "held t = [0]" "pc t = At_top"
    and i: "slots_inv (map of_nat [1..<unat (2 :: slot_index_t)]) [] t"
  from get_buffer_slot_returns [OF sample_memory_ok r(1,2)] obtain fs ss where
    f: "pool_at (slot_heap (env t)) (free_queue (cl t)) (send_queue (cl t)) fs ss"
      "(\<exists>p d h. get_buffer_slot (cl t) (env t) = Some (p, d, h)) \<longleftrightarrow>
        length (ss @ held t @ owned (pc t)) < unat (2 :: slot_index_t)" by blast
  from i have "pool_at (slot_heap (env t)) (free_queue (cl t)) (send_queue (cl t)) (map of_nat [1..<unat (2 :: slot_index_t)]) []"
    by (simp add: slots_inv_def)
  from pool_unique [OF this f(1)] have "ss = []" by simp
  with f(2) r show ?thesis by (simp, blast)
qed simp

text \<open>C21: running out of slots is a deadlock. When all \<^verbatim>\<open>buffer_count\<close> slots are submitted, held or being sent, a call of
  \<^verbatim>\<open>get_buffer_slot\<close> does not return and keeps the mutex; in every continuation it still does, no slot is returned
  to the free queue, nobody gets or submits a slot, and at most the one send that had already started is made.\<close>

theorem exhausted_pool_is_deadlock:
  assumes "memory_ok m (unat n) k (slot_heap g)" "start_session_thread m c n sz s g = Some (r, c', g')"
    "mt_steps (initial_system c' g') t" "\<not> spinning t"
    "pool_at (slot_heap (env t)) (free_queue (cl t)) (send_queue (cl t)) fs ss"
    "length (ss @ held t @ owned (pc t)) = unat n"
  shows "mt_step t (t\<lparr>spinning := True\<rparr>) \<and> get_buffer_slot (cl t) (env t) = None \<and>
    (\<forall>u. mt_steps (t\<lparr>spinning := True\<rparr>) u \<longrightarrow>
      spinning u \<and> slot_heap (env u) = slot_heap (env t) \<and> held u = held t \<and> submitted u = submitted t \<and>
      length (transmitted u) \<le> length (transmitted t) + 1)"
proof -
  from reachable_slots [OF assms(1-3)] obtain fs' ss' where i: "slots_inv fs' ss' t" and n: "buffer_count (cl t) = n" .
  with pool_unique [OF assms(5), of fs' ss'] have "slots_inv fs ss t" by (auto simp: slots_inv_def)
  from slots_inv_length [OF this] assms(6) n have "fs = []" by simp
  with assms(5) have e: "head (free_queue (cl t)) = None" by (simp add: pool_head_empty)
  show ?thesis
  proof (intro conjI allI impI)
    show "mt_step t (t\<lparr>spinning := True\<rparr>)" using assms(4) e by (rule mt_step.spin)
    show "get_buffer_slot (cl t) (env t) = None"
      using get_slot_loop_Some [of "free_queue (cl t)" "slot_heap (env t)"] e
      by (cases "get_slot_loop (free_queue (cl t)) (slot_heap (env t))") (simp_all add: get_buffer_slot_def)
  next
    fix u
    assume "mt_steps (t\<lparr>spinning := True\<rparr>) u"
    from spinning_steps [OF this] have u: "spinning u" "held u = held t" "submitted u = submitted t"
      "slot_heap (env u) = slot_heap (env t)"
      "length (transmitted u) + length (unsent (pc u)) = length (transmitted t) + length (unsent (pc t))" by simp_all
    then show "spinning u" "slot_heap (env u) = slot_heap (env t)" "held u = held t" "submitted u = submitted t" by simp_all
    have "length (unsent (pc t)) \<le> 1" by (cases "pc t") simp_all
    with u(5) show "length (transmitted u) \<le> length (transmitted t) + 1" by linarith
  qed
qed

theorem exhausted_pool_is_deadlock_witness:
  "\<exists>c g t. start_session_thread sample_memory (sample_mt create_local_server) 1 1024 create_local_server
      (sample_mt_env ()) = Some (True, c, g) \<and> mt_steps (initial_system c g) t \<and> \<not> spinning t \<and>
    get_buffer_slot (cl t) (env t) = None \<and> (\<forall>u. mt_steps (t\<lparr>spinning := True\<rparr>) u \<longrightarrow> spinning u)"
proof (rule sample_acquired [of 1 create_local_server "()"])
  fix c g t
  assume r: "start_session_thread sample_memory (sample_mt create_local_server) 1 1024 create_local_server
      (sample_mt_env ()) = Some (True, c, g)" "mt_steps (initial_system c g) t" "held t = [0]" "pc t = At_top" "\<not> spinning t"
    and "slots_inv (map of_nat [1..<unat (1 :: slot_index_t)]) [] t"
  then have "pool_at (slot_heap (env t)) (free_queue (cl t)) (send_queue (cl t)) (map of_nat [1..<unat (1 :: slot_index_t)]) []"
    "length ([] @ held t @ owned (pc t)) = unat (1 :: slot_index_t)"
    by (simp_all add: slots_inv_def)
  from exhausted_pool_is_deadlock [OF sample_memory_ok r(1,2,5) this] r show ?thesis by blast
qed simp

end
