(* ===== verification/MT_Behaviour.thy ===== *)
theory MT_Behaviour
  imports MT_Properties Queue_Properties Message_Properties
begin

section \<open>Behaviour of the calls and of the session thread\<close>

text \<open>
  What the calls of \<^verbatim>\<open>smqttc_mt.c\<close> leave in the slots and queues, the handshakes the session thread carries
  out with the broker, and the calls that do not work as they are meant to.
\<close>

declare publish_wire.simps [simp del] subscribe_wire.simps [simp del] unsubscribe_wire.simps [simp del]

subsection \<open>Calls\<close>

text \<open>C12: on a connected client with a free slot, \<^verbatim>\<open>smqtt_mt_ping\<close>, \<^verbatim>\<open>smqtt_mt_publish\<close>, \<^verbatim>\<open>smqtt_mt_subscribe\<close> and
  \<^verbatim>\<open>smqtt_mt_unsubscribe\<close> return \<^verbatim>\<open>SMQTT_MT_OK\<close> without waiting for the broker, and each is a run of the step relation
  that ends with exactly its packet submitted, so all that holds of every interleaving holds of them.\<close>

theorem calls_submit_packets:
  assumes "session_at (cl s) (env s) (p # fs) ss ws" "connected (cl s)" "\<not> spinning s"
    "ack_heap (env s) a = None" "slot_heap (env s) b = None" "qos \<le> QoS2"
    "length (publish_wire (topic, publish_packet_id (cl s), qos, retain, msg)) \<le> BUFFER_SIZE"
    "unat n \<le> length topics" "unat n \<le> length qoss"
    "length (subscribe_wire (subscribe_packet_id (cl s), ucast n, topics, qoss)) \<le> BUFFER_SIZE"
    "length (unsubscribe_wire (subscribe_packet_id (cl s), ucast n, topics)) \<le> BUFFER_SIZE"
  shows "(\<exists>c g. smqtt_mt_ping a b (cl s) timeout cb ctx (env s) = Some (SMQTT_MT_OK, c, g) \<and>
      mt_steps s (s\<lparr>cl := c, env := g, submitted := submitted s @ [[PACK_MESSAGE_TYPE PINGREQ, 0]]\<rparr>)) \<and>
    (\<exists>c g. smqtt_mt_publish a b (cl s) topic msg qos retain cb ctx (env s) = Some (SMQTT_MT_OK, c, g) \<and>
      mt_steps s (s\<lparr>cl := c, env := g, submitted := submitted s @
        [publish_wire (topic, publish_packet_id (cl s), qos, retain, msg)]\<rparr>)) \<and>
    (\<exists>c g. smqtt_mt_subscribe a b (cl s) n topics qoss cb ctx (env s) = Some (SMQTT_MT_OK, c, g) \<and>
      mt_steps s (s\<lparr>cl := c, env := g, submitted := submitted s @
        [subscribe_wire (subscribe_packet_id (cl s), ucast n, topics, qoss)]\<rparr>)) \<and>
    (\<exists>c g. smqtt_mt_unsubscribe a b (cl s) n topics cb ctx (env s) = Some (SMQTT_MT_OK, c, g) \<and>
      mt_steps s (s\<lparr>cl := c, env := g, submitted := submitted s @
        [unsubscribe_wire (subscribe_packet_id (cl s), ucast n, topics)]\<rparr>))"
proof -
  have "subscribe_args_ok (subscribe_packet_id (cl s), ucast n, topics, qoss)"
    "unsubscribe_args_ok (subscribe_packet_id (cl s), ucast n, topics)" using assms(8,9) by simp_all
  note args = this
  note run = submits_run [OF _ assms(3)]
  show ?thesis
    using mt_ping_request [OF assms(1,2,4,5), of timeout cb ctx]
      mt_publish_request [OF assms(1,2,6,4,5,7), of cb ctx]
      mt_subscribe_request [OF assms(1,2,4,5) args(1) assms(10), of cb ctx]
      mt_unsubscribe_request [OF assms(1,2,4,5) args(2) assms(11), of cb ctx]
    by (intro conjI) (blast intro: run)+
qed

lemma small_packets:
  "length (publish_wire ([116], 1, QoS2, True, Some [104, 105])) \<le> BUFFER_SIZE"
  "length (subscribe_wire (1, 1, [[116]], [QoS1])) \<le> BUFFER_SIZE"
  "length (unsubscribe_wire (1, 1, [[116]])) \<le> BUFFER_SIZE"
proof -
  have "strlen [116] = 1" "strlen [104, 105] = 2" "cstr [116] = [116]" "cstr [104, 105] = [104, 105]"
    by (simp_all add: strlen_def cstr_def)
  moreover from this have "utf8_size [[116]] True = 4" "utf8_size [[116]] False = 3"
    by (simp_all add: utf8_size_def)
  moreover have "size_field 7 = [7]" "size_field 6 = [6]" "size_field 5 = [5]" by (simp_all add: size_field_small)
  ultimately show "length (publish_wire ([116], 1, QoS2, True, Some [104, 105])) \<le> BUFFER_SIZE"
    "length (subscribe_wire (1, 1, [[116]], [QoS1])) \<le> BUFFER_SIZE"
    "length (unsubscribe_wire (1, 1, [[116]])) \<le> BUFFER_SIZE"
    by (simp_all add: publish_wire.simps subscribe_wire.simps unsubscribe_wire.simps string_wire_def short_wire_def
        topic_qos_wire_def BUFFER_SIZE_def)
qed

theorem calls_submit_packets_witness:
  "\<exists>(s :: (unit, unit) mt_system) c g. smqtt_mt_publish 5 20 (cl s) [116] (Some [104, 105]) QoS2 True (Some 1) 2 (env s) = Some (SMQTT_MT_OK, c, g) \<and>
    mt_steps s (s\<lparr>cl := c, env := g, submitted := [publish_wire ([116], 1, QoS2, True, Some [104, 105])]\<rparr>)"
proof (rule sample_started [of create_local_server 10 "()"])
  fix c :: "(unit, unit) smqtt_mt_client" and g
  assume a: "session_at c g (map of_nat [0..<unat (10 :: slot_index_t)]) [] []"
    and k: "connected c" "ack_heap g = (\<lambda>_. None)" "publish_packet_id c = 1" "subscribe_packet_id c = 1"
      "\<And>a. unat (10 :: slot_index_t) \<le> a \<Longrightarrow> slot_heap g a = None"
  have "map of_nat [0..<unat (10 :: slot_index_t)] = (0 :: slot_index_t) # map of_nat [1..<10]"
    by (simp add: upt_conv_Cons)
  with a have a: "session_at c g (0 # map of_nat [1..<10]) [] []" by simp
  have "slot_heap g 20 = None" by (rule k(5)) simp
  moreover have "(QoS2 :: QoS) \<le> QoS2" "unat (1 :: u8) \<le> length [[116 :: u8]]" "unat (1 :: u8) \<le> length [QoS1]"
    "(ucast (1 :: u8) :: u16) = 1" by simp_all
  ultimately have "\<exists>c' g'. smqtt_mt_publish 5 20 c [116] (Some [104, 105]) QoS2 True (Some 1) 2 g = Some (SMQTT_MT_OK, c', g') \<and>
    mt_steps (initial_system c g) ((initial_system c g)\<lparr>cl := c', env := g',
      submitted := [publish_wire ([116], 1, QoS2, True, Some [104, 105])]\<rparr>)"
    using calls_submit_packets [of "initial_system c g" 0 "map of_nat [1..<10]" "[]" "[]" 5 20 QoS2 "[116]" True
      "Some [104, 105]" 1 "[[116]]" "[QoS1]" 0 "Some 1" 2] a k(1-4) small_packets
    by (simp add: initial_system_def)
  then show ?thesis by (intro exI [of _ "initial_system c g"]) (simp add: initial_system_def)
qed

subsection \<open>Iterations of the session thread\<close>

lemma requeue_effect:
  assumes "session_ok s c g l zs" "ack_heap g b = None"
  shows "\<exists>c' g'. (case r of None \<Rightarrow> Some (c, g)
      | Some w \<Rightarrow> do { (st, c, g) \<leftarrow> enqueue_waiting b c w g; Some (c, g) }) = Some (c', g') \<and>
    session_ok s c' g' l (zs @ requeued r) \<and> calls g' = calls g \<and> same_delivery c c' \<and>
    (\<forall>a. a \<noteq> b \<longrightarrow> ack_heap g a = None \<longrightarrow> ack_heap g' a = None)"
proof (cases r)
  case None
  with assms show ?thesis by (simp add: same_delivery_def)
next
  case (Some w)
  from assms(1) have "acks_at c g zs" by (simp add: session_ok_def)
  from enqueue_waiting_acks [OF this assms(2), of w] obtain q h where
    "enqueue_waiting b c w g = Some (SMQTT_MT_OK, c\<lparr>ack_queue := q\<rparr>, g\<lparr>ack_heap := h\<rparr>)"
    "acks_at (c\<lparr>ack_queue := q\<rparr>) (g\<lparr>ack_heap := h\<rparr>) (zs @ [w])" "\<And>a. a \<noteq> b \<Longrightarrow> ack_heap g a = None \<Longrightarrow> h a = None"
    by blast
  with Some assms(1) show ?thesis by (simp add: session_ok_def same_delivery_def)
qed

text \<open>The receiving half of an iteration, on a packet that can be parsed.\<close>

lemma receive_effect:
  assumes "session_ok s c g l ws" "reliable s'"
    "server_receive s (receive_buffer c) (buffer_size c) (fst (outside g)) = Some (sz, rb, s', x)"
    "0 < sz" "sz \<le> int rx_limit" "length rb = BUFFER_SIZE" "deserialize_response rb (nat sz) = Some (Some r)"
  shows "has_effect s' (c, g) (l @ [Rx sz rb]) (session_receive c g)
    (session_spec (msg_callback c) (msg_cb_context c) rb r ws)"
proof -
  let ?c = "c\<lparr>receive_buffer := rb, server := traced s'\<rparr>" and ?g = "g\<lparr>outside := (x, l @ [Rx sz rb])\<rparr>"
  from assms(1) have o: "server c = traced s" "outside g = (fst (outside g), l)"
    by (auto simp: session_ok_def prod_eq_iff)
  have sz: "unat (word_of_int sz :: size_t) = nat sz"
    using long_back [of "nat sz"] assms(4,5) by (simp add: rx_limit_def)
  have "server_receive (server c) (receive_buffer c) (buffer_size c) (outside g) =
      Some (sz, rb, traced s', x, l @ [Rx sz rb])"
    using assms(3) by (subst o(2)) (simp add: o(1) traced_receive)
  then have recv: "session_receive c g = handle_response r ?c ?g"
    using assms(4,7) sz by (simp add: session_receive_def Let_def)
  have ok: "session_ok s' ?c ?g (l @ [Rx sz rb]) ws" using assms(1,6) by (simp add: session_ok_def)
  have layout: "4 \<le> p_topic d \<and> 4 \<le> p_message d" if "r = Publish_body d" for d
    using deserialize_publish_layout [of rb "nat sz" d] assms(4,6,7) that by (fastforce simp: BUFFER_SIZE_def)
  have "has_effect s' (?c, ?g) (l @ [Rx sz rb]) (session_receive c g)
      (session_spec (msg_callback c) (msg_cb_context c) rb r ws)"
    using response_effect [OF assms(2) ok layout] by (simp add: recv)
  then show ?thesis by (rule has_effect_base) (simp add: same_base_def same_delivery_def)
qed

text \<open>C5: the session thread implements the specification of the packets: an iteration that has nothing to send and receives
  the packet \<open>r\<close> leaves exactly the waiting requests, sends exactly the packets and makes exactly the callbacks that
  \<open>session_spec\<close> has for \<open>r\<close>, and its behaviour is undefined exactly when \<open>session_spec\<close> has none.\<close>

theorem iteration_refines_spec:
  assumes "session_ok s c g l ws" "reliable s'" "head (send_queue c) = None" "\<not> ready_to_disconnect c"
    "ack_heap g b = None"
    "server_receive s (receive_buffer c) (buffer_size c) (fst (outside g)) = Some (sz, rb, s', x)"
    "0 < sz" "sz \<le> int rx_limit" "length rb = BUFFER_SIZE"
    "deserialize_response rb (nat sz) = Some (Some r)"
  shows "case session_spec (msg_callback c) (msg_cb_context c) rb r ws of
      None \<Rightarrow> session_iteration a b c g = None
    | Some (ws', ps, ks) \<Rightarrow> \<exists>c' g'. session_iteration a b c g = Some (False, c', g') \<and>
        session_ok s' c' g' (l @ Rx sz rb # sent_ok ps) ws' \<and> calls g' = calls g @ ks"
proof -
  have top: "session_take c g = Some (False, None, c, g)"
    using assms(3,4) by (cases c, cases g) (simp add: session_take_def dequeue_def)
  note eff = receive_effect [OF assms(1,2,6-10)]
  show ?thesis
  proof (cases "session_spec (msg_callback c) (msg_cb_context c) rb r ws")
    case None
    with eff top show ?thesis by (simp add: has_effect_def session_iteration_def)
  next
    case (Some e)
    obtain ws' ps ks where e: "e = (ws', ps, ks)" by (metis prod_cases3)
    with eff Some obtain q c1 g1 zs where
      h: "session_receive c g = Some (q, c1, g1)" "ws' = zs @ requeued q"
        "session_ok s' c1 g1 (l @ [Rx sz rb] @ sent_ok ps) zs" "calls g1 = calls g @ ks" "ack_heap g1 b = None"
      using assms(5) by (auto simp: has_effect_def)
    from requeue_effect [OF h(3,5), of q] obtain c' g' where
      "(case q of None \<Rightarrow> Some (c1, g1)
        | Some w \<Rightarrow> do { (st, c, g) \<leftarrow> enqueue_waiting b c1 w g1; Some (c, g) }) = Some (c', g')"
      "session_ok s' c' g' (l @ [Rx sz rb] @ sent_ok ps) (zs @ requeued q)" "calls g' = calls g1" by blast
    with h top Some e show ?thesis by (simp add: session_iteration_def)
  qed
qed

lemma reliable_scripted [simp]: "reliable scripted"
  by (simp add: reliable_def)

text \<open>A client for which one request waits.\<close>

definition one_waiting :: "('i, 'w) server_t \<Rightarrow> ('i, 'w) smqtt_mt_client" where
  "one_waiting s = (sample_mt s)\<lparr>receive_buffer := replicate BUFFER_SIZE 0, ack_queue := \<lparr>head = Some 1, tail = Some 1\<rparr>\<rparr>"

definition one_waiting_env :: "waiting_t \<Rightarrow> 'w \<Rightarrow> 'w mt_env" where
  "one_waiting_env r w = (sample_mt_env w)\<lparr>ack_heap := [1 \<mapsto> \<lparr>payload = r, previous = None, next_entry = None\<rparr>]\<rparr>"

lemma one_waiting_ok: "session_ok s (one_waiting (traced s)) (one_waiting_env r (w, l)) l [r]"
  by (auto simp: session_ok_def one_waiting_def one_waiting_env_def acks_at_def dqueue_at_def sample_mt_def sample_mt_env_def
      intro!: exI [of _ "[1]"])

lemma one_waiting_simps [simp]:
  "head (send_queue (one_waiting s)) = None" "\<not> ready_to_disconnect (one_waiting s)"
  "receive_buffer (one_waiting s) = replicate BUFFER_SIZE 0" "outside (one_waiting_env r w) = w"
  "calls (one_waiting_env r w) = []" "b \<noteq> 1 \<Longrightarrow> ack_heap (one_waiting_env r w) b = None"
  "msg_callback (one_waiting s) = Some 9" "msg_cb_context (one_waiting s) = 8"
  by (simp_all add: one_waiting_def one_waiting_env_def sample_mt_def sample_mt_env_def init_queue_def)

theorem iteration_refines_spec_witness:
  "\<exists>c g c' g' rb. session_iteration 20 5 c g = Some (False, c', g') \<and> calls g = [] \<and> calls g' = [Request_call 1 True 2] \<and>
    session_ok scripted c' g' [Rx 2 rb] []"
proof -
  let ?p = "[PACK_MESSAGE_TYPE PINGRESP, 0]"
  let ?r = "\<lparr>wtype = PINGRESP, callback = Some 1, cb_context = 2, wdata = No_data\<rparr>"
  let ?c = "one_waiting (traced scripted)" and ?g = "one_waiting_env ?r ([?p], [])"
  let ?rb = "?p @ drop (length ?p) (replicate BUFFER_SIZE 0)"
  have recv: "server_receive scripted (receive_buffer ?c) (buffer_size ?c) (fst (outside ?g)) = Some (2, ?rb, scripted, [])"
    by simp
  have parse: "deserialize_response ?rb (nat 2) = Some (Some Pingresp_body)"
    using parse_empty [where b = ?rb and t = PINGRESP and h = "PACK_MESSAGE_TYPE PINGRESP" and r = Pingresp_body]
      bytes_at_whole [of ?p "drop (length ?p) (replicate BUFFER_SIZE 0)"] by (simp add: numeral_2_eq_2)
  have spec: "session_spec (msg_callback ?c) (msg_cb_context ?c) ?rb Pingresp_body [?r] = Some ([], [], [Request_call 1 True 2])"
    by (simp add: on_match_def completed_def entry_test_def)
  have "head (send_queue ?c) = None" "\<not> ready_to_disconnect ?c" "ack_heap ?g 5 = None" "0 < (2 :: int)" "2 \<le> int rx_limit"
    "length ?rb = BUFFER_SIZE" by (simp_all add: rx_limit_def BUFFER_SIZE_def)
  from iteration_refines_spec [OF one_waiting_ok reliable_scripted this(1-3) recv this(4-6) parse, of 20, unfolded spec]
  obtain c' g' where "session_iteration 20 5 ?c ?g = Some (False, c', g')" "session_ok scripted c' g' [Rx 2 ?rb] []"
    "calls g' = [Request_call 1 True 2]"
    by auto
  then show ?thesis
    by (intro exI [of _ ?c] exI [of _ ?g] exI [of _ c'] exI [of _ g'] exI [of _ ?rb] conjI) simp_all
qed

subsection \<open>Handshakes\<close>

text \<open>A packet handled and its request, if it leaves one, enqueued, as the second half of an iteration does.\<close>

definition handle_packet ::
  "nat \<Rightarrow> response_t \<Rightarrow> ('i, 'w) smqtt_mt_client \<Rightarrow> 'w mt_env \<Rightarrow> (('i, 'w) smqtt_mt_client \<times> 'w mt_env) option" where
  "handle_packet b r client g =
     do {
       (waiting, client, g) \<leftarrow> handle_response r client g;
       case waiting of
         None \<Rightarrow> Some (client, g)
       | Some w \<Rightarrow> do { (st, client, g) \<leftarrow> enqueue_waiting b client w g; Some (client, g) }
     }"

lemma packet_effect:
  assumes "reliable s" "session_ok s c g l ws" "ack_heap g b = None"
    "\<And>d. r = Publish_body d \<Longrightarrow> 4 \<le> p_topic d \<and> 4 \<le> p_message d"
    "session_spec (msg_callback c) (msg_cb_context c) (receive_buffer c) r ws = Some (ws', ps, ks)"
  shows "\<exists>c' g'. handle_packet b r c g = Some (c', g') \<and> session_ok s c' g' (l @ sent_ok ps) ws' \<and>
    calls g' = calls g @ ks \<and> same_delivery c c' \<and> (\<forall>a. a \<noteq> b \<longrightarrow> ack_heap g a = None \<longrightarrow> ack_heap g' a = None)"
proof -
  from response_effect [OF assms(1,2,4), of r] assms(5) obtain q c1 g1 zs where
    h: "handle_response r c g = Some (q, c1, g1)" "ws' = zs @ requeued q" "session_ok s c1 g1 (l @ sent_ok ps) zs"
      "calls g1 = calls g @ ks" "same_delivery c c1" "\<forall>a. ack_heap g a = None \<longrightarrow> ack_heap g1 a = None"
    by (auto simp: has_effect_def)
  from h(6) assms(3) have "ack_heap g1 b = None" by simp
  from requeue_effect [OF h(3) this, of q] h show ?thesis
    by (auto simp: handle_packet_def same_delivery_def)
qed

lemma ack_completes:
  assumes "session_ok s c g l (ws @ [r])" "\<forall>v \<in> set ws. entry_test PUBCOMP i v = Some Continue"
    "entry_test PUBCOMP i r = Some Matched" "callback r = Some f"
  shows "\<exists>c' g'. handle_packet b (Pubcomp_body i) c g = Some (c', g') \<and> session_ok s c' g' l ws \<and>
    calls g' = calls g @ [Request_call f True (cb_context r)]"
proof -
  from complete_effect [OF assms(1), of PUBCOMP i] lookup_found [OF assms(2,3), of "[]"] assms(4) obtain q c' g' zs where
    h: "complete_waiting PUBCOMP i c g = Some (q, c', g')" "ws = zs @ requeued q" "session_ok s c' g' l zs"
      "calls g' = calls g @ [Request_call f True (cb_context r)]"
    by (auto simp: on_match_def completed_def has_effect_def)
  from h(1) have "q = None" by (auto simp: complete_waiting_def Option.bind_eq_Some_conv split: if_splits)
  with h show ?thesis by (simp add: handle_packet_def)
qed

text \<open>C11: publishing at quality 2 completes. After \<^verbatim>\<open>smqtt_mt_publish\<close>, if no other request waits with its packet identifier,
  the broker's PUBREC is answered with PUBREL and nothing is called back yet; its PUBCOMP then makes exactly one call
  of the callback, with the context given, and the waiting requests are again those of before.\<close>

theorem mt_publish2_completes:
  assumes "reliable s" "session_ok s c g l ws" "session_at c g (p # fs) ss ws" "connected c"
    "ack_heap g a = None" "ack_heap g b = None" "b \<noteq> a" "slot_heap g a' = None" "publish_packet_id c = i"
    "length (publish_wire (topic, i, QoS2, retain, msg)) \<le> BUFFER_SIZE"
    "\<forall>v \<in> set ws. entry_test PUBREC i v = Some Continue \<and> entry_test PUBCOMP i v = Some Continue"
  shows "\<exists>c1 g1 c2 g2 c3 g3. smqtt_mt_publish a a' c topic msg QoS2 retain (Some f) ctx g = Some (SMQTT_MT_OK, c1, g1) \<and>
    handle_packet b (Pubrec_body i) c1 g1 = Some (c2, g2) \<and> calls g2 = calls g \<and>
    snd (outside g2) = l @ [Tx (ack_wire (PACK_MESSAGE_TYPE PUBREL OR 2) i) SMQTT_NET_OK] \<and>
    handle_packet b' (Pubcomp_body i) c2 g2 = Some (c3, g3) \<and> calls g3 = calls g @ [Request_call f True ctx] \<and>
    session_ok s c3 g3 (l @ [Tx (ack_wire (PACK_MESSAGE_TYPE PUBREL OR 2) i) SMQTT_NET_OK]) ws"
proof -
  let ?r = "\<lparr>wtype = PUBREC, callback = Some f, cb_context = ctx, wdata = Id_data i\<rparr>"
  let ?l = "l @ [Tx (ack_wire (PACK_MESSAGE_TYPE PUBREL OR 2) i) SMQTT_NET_OK]"
  from mt_publish_request [OF assms(3,4) _ assms(5,8), of QoS2 topic retain msg "Some f" ctx] assms(9,10)
  obtain c1 g1 where p: "smqtt_mt_publish a a' c topic msg QoS2 retain (Some f) ctx g = Some (SMQTT_MT_OK, c1, g1)"
    "session_at c1 g1 fs (ss @ [p]) (ws @ [?r])" "same_session (c, g) (c1, g1)"
    by (auto simp: request_done_def publish_request_def)
  have ok1: "session_ok s c1 g1 l (ws @ [?r])" "calls g1 = calls g"
    using p(2,3) assms(2) by (simp_all add: session_ok_def session_at_def same_session_def)
  have free: "ack_heap g1 b = None" using mt_publish_fresh [OF p(1) assms(7,6)] .
  have m: "entry_test PUBREC i ?r = Some Matched"
    "entry_test PUBCOMP i (?r\<lparr>wtype := PUBCOMP, wdata := Id_data i\<rparr>) = Some Matched" by (simp_all add: entry_test_def)
  have "session_spec (msg_callback c1) (msg_cb_context c1) (receive_buffer c1) (Pubrec_body i) (ws @ [?r]) =
      Some (ws @ [?r\<lparr>wtype := PUBCOMP, wdata := Id_data i\<rparr>], [ack_wire (PACK_MESSAGE_TYPE PUBREL OR 2) i], [])"
    using lookup_found [of ws PUBREC i ?r "[]"] assms(11) m(1) by (simp add: on_match_def)
  from packet_effect [OF assms(1) ok1(1) free _ this] obtain c2 g2 where
    r: "handle_packet b (Pubrec_body i) c1 g1 = Some (c2, g2)"
      "session_ok s c2 g2 ?l (ws @ [?r\<lparr>wtype := PUBCOMP, wdata := Id_data i\<rparr>])" "calls g2 = calls g1" by auto
  from ack_completes [OF r(2) _ m(2), of f b'] assms(11) obtain c3 g3 where
    "handle_packet b' (Pubcomp_body i) c2 g2 = Some (c3, g3)" "session_ok s c3 g3 ?l ws"
    "calls g3 = calls g2 @ [Request_call f True ctx]" by auto
  with p r ok1(2) show ?thesis by (auto simp: session_ok_def)
qed

text \<open>A client that was just started, over \<^const>\<open>scripted\<close>.\<close>

lemma started_scripted:
  obtains c g where "session_ok scripted c g [] []" "session_at c g (0 # map of_nat [1..<10]) [] []" "connected c"
    "ack_heap g = (\<lambda>_. None)" "slot_heap g 20 = None" "publish_packet_id c = 1" "subscribe_packet_id c = 1" "calls g = []"
    "msg_callback c = Some 9" "receive_buffer c = replicate BUFFER_SIZE 0"
proof (rule sample_started [of "traced scripted" 10 "([], [])"])
  fix c g
  assume a: "session_at c g (map of_nat [0..<unat (10 :: slot_index_t)]) [] []"
    and k: "server c = traced scripted" "outside g = ([], [])" "length (receive_buffer c) = BUFFER_SIZE" "connected c"
      "ack_heap g = (\<lambda>_. None)" "publish_packet_id c = 1" "subscribe_packet_id c = 1" "calls g = []" "msg_callback c = Some 9"
      "\<And>a. unat (10 :: slot_index_t) \<le> a \<Longrightarrow> slot_heap g a = None"
    and st: "start_session_thread sample_memory (sample_mt (traced scripted)) 10 1024 (traced scripted)
      (sample_mt_env ([], [])) = Some (True, c, g)"
  have "map of_nat [0..<unat (10 :: slot_index_t)] = (0 :: slot_index_t) # map of_nat [1..<10]"
    by (simp add: upt_conv_Cons)
  with a have a: "session_at c g (0 # map of_nat [1..<10]) [] []" by simp
  have "slot_heap g 20 = None" by (rule k(10)) simp
  moreover have "session_ok scripted c g [] []" using a k by (simp add: session_ok_def session_at_def)
  moreover have "receive_buffer c = replicate BUFFER_SIZE 0"
    using st by (auto simp: start_session_thread_def Let_def Option.bind_eq_Some_conv sample_memory_def)
  ultimately show thesis using a k by (intro that)
qed

theorem mt_publish2_completes_witness:
  "\<exists>(c :: (unit, bytes list \<times> event list) smqtt_mt_client) g c1 g1 c2 g2 c3 g3. calls g = [] \<and>
    smqtt_mt_publish 5 20 c [116] (Some [104, 105]) QoS2 True (Some 3) 2 g = Some (SMQTT_MT_OK, c1, g1) \<and>
    handle_packet 6 (Pubrec_body 1) c1 g1 = Some (c2, g2) \<and> calls g2 = [] \<and>
    handle_packet 7 (Pubcomp_body 1) c2 g2 = Some (c3, g3) \<and> calls g3 = [Request_call 3 True 2]"
proof (rule started_scripted)
  fix c g
  assume k: "session_ok scripted c g [] []" "session_at c g (0 # map of_nat [1..<10]) [] []" "connected c"
    "ack_heap g = (\<lambda>_. None)" "slot_heap g 20 = None" "publish_packet_id c = 1" "calls g = []"
  have "ack_heap g 5 = None" "ack_heap g 6 = None" "(6 :: nat) \<noteq> 5" using k(4) by simp_all
  from mt_publish2_completes [OF reliable_scripted k(1-3) this k(5,6) small_packets(1), of 3 2 7] k(7) show ?thesis
    by simp blast
qed

lemma shown_strings:
  assumes "shows_string b (p_topic_size d, p_topic d) topic" "shows_string b (p_message_size d, p_message d) m"
  shows "publish_strings b d = Some (cstr topic @ [0], cstr m @ [0])"
proof -
  have "strncpy_mem b k (unat n) = Some (cstr x)" if "shows_string b (n, k) x" for n k x
    using that cstr_no_nul [of x] by (intro strncpy_mem_exact) (simp_all add: shows_string_def bytes_at_def)
  from this [OF assms(1)] this [OF assms(2)] show ?thesis by (simp add: publish_strings_def)
qed

text \<open>C10: a message that arrives at quality 2 is delivered exactly once, and only when the broker releases it: the PUBLISH in the
  receive buffer is answered with PUBREC and nothing is called; the PUBREL is answered with PUBCOMP and calls the
  message callback with exactly the topic and message of the packet; a repeated PUBREL is ignored.\<close>

theorem mt_message2_delivered_once:
  assumes "reliable s" "session_ok s c g l ws" "publish_decodable (topic, i, QoS2, retain, Some m)"
    "bytes_at (receive_buffer c) 0 (publish_wire (topic, i, QoS2, retain, Some m))" "msg_callback c = Some f"
    "\<forall>v \<in> set ws. entry_test PUBREL i v = Some Continue" "ack_heap g b = None" "ack_heap g b' = None" "b' \<noteq> b"
  shows "\<exists>d c1 g1 c2 g2 c3 g3.
    deserialize_response (receive_buffer c) (length (publish_wire (topic, i, QoS2, retain, Some m))) = Some (Some (Publish_body d)) \<and>
    handle_packet b (Publish_body d) c g = Some (c1, g1) \<and> calls g1 = calls g \<and>
    snd (outside g1) = l @ [Tx (ack_wire (PACK_MESSAGE_TYPE PUBREC) i) SMQTT_NET_OK] \<and>
    handle_packet b' (Pubrel_body i) c1 g1 = Some (c2, g2) \<and>
    calls g2 = calls g @ [Message_call f (cstr topic @ [0]) (cstr m @ [0]) QoS2 retain (msg_cb_context c)] \<and>
    snd (outside g2) = l @ [Tx (ack_wire (PACK_MESSAGE_TYPE PUBREC) i) SMQTT_NET_OK,
      Tx (ack_wire (PACK_MESSAGE_TYPE PUBCOMP) i) SMQTT_NET_OK] \<and>
    handle_packet b'' (Pubrel_body i) c2 g2 = Some (c3, g3) \<and> calls g3 = calls g2 \<and> outside g3 = outside g2"
proof -
  from parsed_publish [OF assms(2-4)] obtain d where
    d: "deserialize_response (receive_buffer c) (length (publish_wire (topic, i, QoS2, retain, Some m))) =
        Some (Some (Publish_body d))" "p_qos d = QoS2" "p_retain d = retain" "p_packet_id d = (if QoS1 \<le> QoS2 then i else 0)"
      "shows_string (receive_buffer c) (p_topic_size d, p_topic d) topic" "4 \<le> p_topic d"
      "shows_string (receive_buffer c) (p_message_size d, p_message d) m" "4 \<le> p_message d" by blast
  have i: "p_packet_id d = i" using d(4) by simp
  let ?r = "\<lparr>wtype = PUBREL, callback = None, cb_context = 0, wdata = Pubrel_data (cstr topic @ [0]) (cstr m @ [0]) retain i\<rparr>"
  have "session_spec (msg_callback c) (msg_cb_context c) (receive_buffer c) (Publish_body d) ws =
      Some (ws @ [?r], [ack_wire (PACK_MESSAGE_TYPE PUBREC) i], [])"
    using d(2,3) i shown_strings [OF d(5,7)] by (simp add: publish_spec_def held_message_def)
  from packet_effect [OF assms(1,2,7) _ this] d(6,8) obtain c1 g1 where
    h: "handle_packet b (Publish_body d) c g = Some (c1, g1)" "calls g1 = calls g" "same_delivery c c1" "ack_heap g1 b' = None"
      "session_ok s c1 g1 (l @ [Tx (ack_wire (PACK_MESSAGE_TYPE PUBREC) i) SMQTT_NET_OK]) (ws @ [?r])"
    using assms(8,9) by auto
  have "entry_test PUBREL i ?r = Some Matched" by (simp add: entry_test_def)
  from lookup_found [OF assms(6) this, of "[]"] h(3) assms(5)
  have "session_spec (msg_callback c1) (msg_cb_context c1) (receive_buffer c1) (Pubrel_body i) (ws @ [?r]) =
      Some (ws, [ack_wire (PACK_MESSAGE_TYPE PUBCOMP) i],
        [Message_call f (cstr topic @ [0]) (cstr m @ [0]) QoS2 retain (msg_cb_context c)])"
    by (simp add: on_match_def message_calls_def same_delivery_def)
  from packet_effect [OF assms(1) h(5,4) _ this] obtain c2 g2 where
    k: "handle_packet b' (Pubrel_body i) c1 g1 = Some (c2, g2)"
      "calls g2 = calls g1 @ [Message_call f (cstr topic @ [0]) (cstr m @ [0]) QoS2 retain (msg_cb_context c)]"
      "session_ok s c2 g2 (l @ [Tx (ack_wire (PACK_MESSAGE_TYPE PUBREC) i) SMQTT_NET_OK,
        Tx (ack_wire (PACK_MESSAGE_TYPE PUBCOMP) i) SMQTT_NET_OK]) ws" by auto
  from take_waiting_found [OF _ lookup_absent [OF assms(6)], of c2 g2] k(3) obtain q u where
    "take_waiting PUBREL i c2 g2 = Some (False, None, c2\<lparr>ack_queue := q\<rparr>, g2\<lparr>ack_heap := u\<rparr>)"
    unfolding session_ok_def by metis
  then have "handle_packet b'' (Pubrel_body i) c2 g2 = Some (c2\<lparr>ack_queue := q\<rparr>, g2\<lparr>ack_heap := u\<rparr>)"
    by (simp add: handle_packet_def handle_pubrel_def)
  with d(1) h k show ?thesis by (force simp: session_ok_def)
qed

lemma sample_strings: "cstr [116] = [116]" "cstr [104, 105] = [104, 105]" "strlen [116] = 1" "strlen [104, 105] = 2"
  by (simp_all add: strlen_def cstr_def)

lemma sample_decodable: "publish_decodable ([116], 7, qos, retain, Some [104, 105]) \<longleftrightarrow> qos \<le> QoS2"
  by (auto simp: short_string_def sample_strings)

text \<open>A packet has arrived in the receive buffer.\<close>

lemma arrived:
  assumes "session_ok s c g l ws" "length w \<le> BUFFER_SIZE"
  shows "session_ok s (c\<lparr>receive_buffer := w @ drop (length w) (receive_buffer c)\<rparr>) g l ws"
    "bytes_at (receive_buffer (c\<lparr>receive_buffer := w @ drop (length w) (receive_buffer c)\<rparr>)) 0 w"
  using assms by (simp_all add: session_ok_def bytes_at_whole)

theorem mt_message2_delivered_once_witness:
  "\<exists>(c :: (unit, bytes list \<times> event list) smqtt_mt_client) g d c1 g1 c2 g2 c3 g3.
    deserialize_response (receive_buffer c) (length (publish_wire ([116], 7, QoS2, True, Some [104, 105]))) =
      Some (Some (Publish_body d)) \<and>
    handle_packet 5 (Publish_body d) c g = Some (c1, g1) \<and> calls g1 = [] \<and>
    handle_packet 6 (Pubrel_body 7) c1 g1 = Some (c2, g2) \<and>
    calls g2 = [Message_call 9 [116, 0] [104, 105, 0] QoS2 True (msg_cb_context c)] \<and>
    handle_packet 7 (Pubrel_body 7) c2 g2 = Some (c3, g3) \<and> calls g3 = calls g2"
proof (rule started_scripted)
  fix c :: "(unit, bytes list \<times> event list) smqtt_mt_client" and g
  let ?w = "publish_wire ([116], 7, QoS2, True, Some [104, 105])"
  let ?c = "c\<lparr>receive_buffer := ?w @ drop (length ?w) (receive_buffer c)\<rparr>"
  assume k: "session_ok scripted c g [] []" "ack_heap g = (\<lambda>_. None)" "calls g = []" "msg_callback c = Some 9"
  have "length ?w \<le> BUFFER_SIZE"
    by (simp add: publish_wire.simps string_wire_def short_wire_def sample_strings size_field_small BUFFER_SIZE_def)
  note a = arrived [OF k(1) this]
  have "publish_decodable ([116], 7, QoS2, True, Some [104, 105])" "msg_callback ?c = Some 9"
    "ack_heap g 5 = None" "ack_heap g 6 = None" "(6 :: nat) \<noteq> 5" using k by (simp_all add: sample_decodable del: publish_decodable.simps)
  from mt_message2_delivered_once [OF reliable_scripted a(1) this(1) a(2) this(2) _ this(3-5), of 7] k(3)
  show ?thesis by (intro exI [of _ ?c] exI [of _ g]) (simp add: sample_strings, blast)
qed

end
