(* ===== verification/MT_Errors.thy ===== *)
theory MT_Errors
  imports MT_Behaviour Client_Properties
begin

section \<open>Starting, and what does not work in the multithreaded client\<close>

text \<open>
  What \<^verbatim>\<open>smqtt_mt_connect\<close> hands out, when handling a packet is defined, and the calls and situations in which
  the code does not do what it means to: subscriptions and their replies, the disconnect, a closed stream, and
  packets that cannot be parsed.
\<close>

declare publish_wire.simps [simp del] subscribe_wire.simps [simp del] unsubscribe_wire.simps [simp del]

subsection \<open>Connecting\<close>

lemma mt_connect_reply_client:
  assumes "mt_connect_reply m sz c0 s g = Some (st, Mt_client c, g')"
  shows "st = SMQTT_MT_OK \<and> (\<exists>r. start_session_thread m (c0\<lparr>connected := True\<rparr>) 10 1024 s g = Some (r, c, g'))"
proof (cases "0 < sz")
  case True
  with assms obtain r where "deserialize_response (static_receive g) (unat (word_of_int sz :: size_t)) = Some (Some r)"
    by (auto simp: mt_connect_reply_def Let_def Option.bind_eq_Some_conv split: option.splits)
  with assms True show ?thesis
    by (cases r) (auto simp: mt_connect_reply_def Let_def Option.bind_eq_Some_conv split: if_splits)
qed (use assms in \<open>auto simp: mt_connect_reply_def Option.bind_eq_Some_conv\<close>)

lemma mt_connect_client:
  assumes "smqtt_mt_connect_internal ns connection m mode a cb ctx g = Some (st, Mt_client c, g')"
  obtains c0 s h r where "st = SMQTT_MT_OK" "start_session_thread m (c0\<lparr>connected := True\<rparr>) 10 1024 s h = Some (r, c, g')"
    "publish_packet_id c0 = 1" "subscribe_packet_id c0 = 1" "msg_callback c0 = cb"
    "slot_heap h = slot_heap g" "ack_heap h = ack_heap g" "calls h = calls g"
  using assms
  by (auto simp: smqtt_mt_connect_internal_def Let_def Option.bind_eq_Some_conv split: option.splits if_splits
      dest!: mt_connect_reply_client intro: that)

text \<open>C24: a client that \<^verbatim>\<open>smqtt_mt_connect\<close> hands out is well formed: the status is \<^verbatim>\<open>SMQTT_MT_OK\<close>, the client is connected,
  counts its packets from 1, has its ten buffer slots free and nothing submitted or waiting, and meets the invariant
  of the interleavings.\<close>

theorem mt_connect_starts:
  assumes "smqtt_mt_connect api raw connection m a cb ctx g = Some (st, Mt_client c, g')"
    "memory_ok m 10 BUFFER_SIZE (slot_heap g)"
  shows "st = SMQTT_MT_OK \<and> connected c \<and> publish_packet_id c = 1 \<and> subscribe_packet_id c = 1 \<and> msg_callback c = cb \<and>
    calls g' = calls g \<and> session_at c g' (map of_nat [0..<10]) [] [] \<and>
    slots_inv (map of_nat [0..<10]) [] (initial_system c g')"
proof (rule mt_connect_client [OF assms(1) [unfolded smqtt_mt_connect_def]])
  fix c0 s h r
  assume f: "st = SMQTT_MT_OK" "start_session_thread m (c0\<lparr>connected := True\<rparr>) 10 1024 s h = Some (r, c, g')"
    "publish_packet_id c0 = 1" "subscribe_packet_id c0 = 1" "msg_callback c0 = cb"
    "slot_heap h = slot_heap g" "calls h = calls g"
  have "memory_ok m (unat (10 :: slot_index_t)) BUFFER_SIZE (slot_heap h)" using assms(2) f(6) by simp
  from start_session_at [OF this f(2)] f show ?thesis by simp
qed

lemma mt_connect_accepted:
  assumes "\<not> strlen (cp_client_id a) + 1 > MAX_CLIENT_ID_CHARS" "\<not> strlen (cp_server_ip a) + 1 > MAX_HOSTNAME_CHARS"
    "server_connect ns (cstr (cp_server_ip a)) (ucast (cp_port a)) 100 (mt_env.outside g) = Some (SMQTT_NET_OK, s1, w1)"
    "builds (\<lambda>b. make_connect_message b (of_nat BUFFER_SIZE) (connect_args_of (cstr (cp_client_id a)) a)) p"
    "length (static_send g) = BUFFER_SIZE"
    "\<And>b. \<lbrakk>take (length p) b = p; length b = BUFFER_SIZE\<rbrakk> \<Longrightarrow>
      server_send s1 b (of_nat (length p)) w1 = Some (SMQTT_NET_OK, s2, w2)"
    "server_receive s2 (static_receive g) (of_nat BUFFER_SIZE) w2 = Some (4, rb, s3, w3)"
    "deserialize_response rb 4 = Some (Some (Connack_body Connection_Accepted))"
    "memory_ok m 10 k (slot_heap g)"
  shows "\<exists>c g'. smqtt_mt_connect_internal ns (Some c0) m REMOTE_SERVER a cb ctx g = Some (SMQTT_MT_OK, Mt_client c, g')"
proof -
  from builds_result [OF assms(4,5)] obtain b where
    b: "make_connect_message (static_send g) (of_nat BUFFER_SIZE) (connect_args_of (cstr (cp_client_id a)) a) =
        Some (b, length p)" "length b = BUFFER_SIZE" "take (length p) b = p" .
  have start: "\<exists>c g'. start_session_thread m c0' 10 1024 s h = Some (True, c, g')" if "slot_heap h = slot_heap g" for c0' s h
  proof (rule start_session [of m 10 k h c0' 1024 s])
    show "memory_ok m (unat (10 :: slot_index_t)) k (slot_heap h)" using assms(9) that by simp
    fix c g'
    assume "start_session_thread m c0' 10 1024 s h = Some (True, c, g')"
    then show ?thesis by blast
  qed
  have sz: "unat (word_of_int 4 :: size_t) = 4" by simp
  let ?g = "g\<lparr>static_send := b, static_receive := rb, mt_env.outside := w3\<rparr>"
  let ?c = "c0\<lparr>smqtt_mt_client.port := ucast (cp_port a), smqtt_mt_client.publish_packet_id := 1,
     smqtt_mt_client.subscribe_packet_id := 1, smqtt_mt_client.hostname := cstr (cp_server_ip a),
     smqtt_mt_client.clientid := cstr (cp_client_id a), msg_callback := cb, msg_cb_context := ctx,
     smqtt_mt_client.connected := False\<rparr>"
  have "smqtt_mt_connect_internal ns (Some c0) m REMOTE_SERVER a cb ctx g = mt_connect_reply m 4 ?c s3 ?g"
    using assms(1-3,7) b assms(6) [OF b(3,2)] by (simp add: smqtt_mt_connect_internal_def Let_def)
  also have "\<dots> = Option.bind (start_session_thread m (?c\<lparr>smqtt_mt_client.connected := True\<rparr>) 10 1024 s3 ?g)
      (\<lambda>(_, c, g). Some (SMQTT_MT_OK, Mt_client c, g))"
    using assms(8) sz by (simp add: mt_connect_reply_def Let_def)
  finally show ?thesis using start [of ?g "?c\<lparr>smqtt_mt_client.connected := True\<rparr>" s3] by auto
qed

definition sample_peer_env :: "peer mt_env" where
  "sample_peer_env = sample_mt_env \<lparr>to_client = [[32, 2], [0, 0]], send_results = [], sent = []\<rparr>"

lemma sample_mt_connect:
  obtains c g' where "smqtt_mt_connect peer_sockets sample_impl (Some (sample_mt s)) sample_memory sample_params (Some 9) 8
    sample_peer_env = Some (SMQTT_MT_OK, Mt_client c, g')"
proof -
  let ?p = "connect_wire (connect_args_of (cstr (cp_client_id sample_params)) sample_params)"
  let ?w = "\<lambda>segs ps. \<lparr>to_client = segs, send_results = [], sent = ps\<rparr> :: peer"
  let ?ad = "\<lparr>sin_family = AF_INET, sin_port = sk_htons peer_sockets 1883, sin_addr = 0x0100007F\<rparr>"
  let ?im = "sample_impl\<lparr>socket := 3, socket_address := ?ad\<rparr>"
  have "\<exists>c g'. smqtt_mt_connect_internal (create_network_server peer_sockets sample_impl) (Some (sample_mt s)) sample_memory
      REMOTE_SERVER sample_params (Some 9) 8 sample_peer_env = Some (SMQTT_MT_OK, Mt_client c, g')"
  proof (rule mt_connect_accepted [OF _ _ _ builds_connect [OF sample_params_wire]])
    show "server_connect (create_network_server peer_sockets sample_impl) (cstr (cp_server_ip sample_params))
        (ucast (cp_port sample_params)) 100 (mt_env.outside sample_peer_env) =
        Some (SMQTT_NET_OK, create_network_server peer_sockets ?im, ?w [[32, 2], [0, 0]] [])"
      by (simp add: server_connect_def create_network_server_def network_connect_def peer_sockets_def SetSocketTimeout_def
          sample_peer_env_def sample_mt_env_def sample_params_def)
    show "server_send (create_network_server peer_sockets ?im) b (of_nat (length ?p)) (?w [[32, 2], [0, 0]] []) =
        Some (SMQTT_NET_OK, create_network_server peer_sockets ?im, ?w [[32, 2], [0, 0]] [?p])"
      if "take (length ?p) b = ?p" "length b = BUFFER_SIZE" for b
    proof -
      have "unat (of_nat (length ?p) :: size_t) = length ?p"
        using sample_params_wire(2) by (intro unat_of_nat_small) (simp add: BUFFER_SIZE_def)
      with that sample_params_wire(2) show ?thesis
        by (simp add: server_send_def create_network_server_def network_send_result peer_sockets_def peer_send_def BUFFER_SIZE_def)
    qed
    have "fd_live ?im" "rx_limit \<le> length (static_receive sample_peer_env)"
      by (simp_all add: fd_live_def FD_SETSIZE_def rx_limit_def sample_peer_env_def sample_mt_env_def BUFFER_SIZE_def)
    from network_receive_framed [OF this, where api = peer_sockets and h = 32 and l = 2 and body = "[0, 0]" and
        w = "?w [[32, 2], [0, 0]] [?p]" and n = "of_nat BUFFER_SIZE"]
    show "server_receive (create_network_server peer_sockets ?im) (static_receive sample_peer_env) (of_nat BUFFER_SIZE)
        (?w [[32, 2], [0, 0]] [?p]) = Some (4, [32, 2, 0, 0] @ drop 4 (static_receive sample_peer_env),
          create_network_server peer_sockets (?im\<lparr>read_fds := [3]\<rparr>), ?w [] [?p])"
      by (simp add: server_receive_def create_network_server_def peer_sockets_def peer_recv_def)
    have "bytes_at ([32, 2, 0, 0] @ drop 4 (static_receive sample_peer_env)) 0 (connack_wire Connection_Accepted)"
      using bytes_at_whole by (simp add: connack_wire_def PACK_MESSAGE_TYPE_def bytes_at_def)
    from connack.parse_wire [OF TrueI _ this]
    show "deserialize_response ([32, 2, 0, 0] @ drop 4 (static_receive sample_peer_env)) 4 =
        Some (Some (Connack_body Connection_Accepted))" by simp
    show "memory_ok sample_memory 10 BUFFER_SIZE (slot_heap sample_peer_env)"
      using sample_memory_ok by (simp add: sample_peer_env_def)
  qed (simp_all add: sample_params_def MAX_CLIENT_ID_CHARS_def MAX_HOSTNAME_CHARS_def strlen_def cstr_def sample_peer_env_def
      sample_mt_env_def)
  then show thesis using that by (auto simp: smqtt_mt_connect_def)
qed

theorem mt_connect_starts_witness:
  "\<exists>c g'. smqtt_mt_connect peer_sockets sample_impl (Some (sample_mt (create_network_server peer_sockets sample_impl)))
      sample_memory sample_params (Some 9) 8 sample_peer_env = Some (SMQTT_MT_OK, Mt_client c, g') \<and>
    session_at c g' (map of_nat [0..<10]) [] [] \<and> slots_inv (map of_nat [0..<10]) [] (initial_system c g')"
proof (rule sample_mt_connect)
  fix c g'
  assume r: "smqtt_mt_connect peer_sockets sample_impl (Some (sample_mt (create_network_server peer_sockets sample_impl)))
      sample_memory sample_params (Some 9) 8 sample_peer_env = Some (SMQTT_MT_OK, Mt_client c, g')"
  have "memory_ok sample_memory 10 BUFFER_SIZE (slot_heap sample_peer_env)"
    using sample_memory_ok by (simp add: sample_peer_env_def)
  from mt_connect_starts [OF r this] r show ?thesis by blast
qed

subsection \<open>What a packet can do\<close>

context network_provider
begin

lemma mt_receive_net:
  assumes "fd_live im" "smqtt_mt_client.server c = create_network_server api im"
    "length (smqtt_mt_client.receive_buffer c) = BUFFER_SIZE" "requests_ok c g"
    "\<forall>sz b s w. server_receive (smqtt_mt_client.server c) (smqtt_mt_client.receive_buffer c) (buffer_size c)
        (mt_env.outside g) = Some (sz, b, s, w) \<longrightarrow> 0 < sz \<longrightarrow>
      (\<exists>r. deserialize_response b (unat (word_of_int sz :: size_t)) = Some (Some r) \<and> suback_matches c g r \<and>
        (\<forall>d. r = Publish_body d \<longrightarrow> copy_ends b d))"
  shows "\<exists>r c' g'. session_receive c g = Some (r, c', g') \<and> length (smqtt_mt_client.receive_buffer c') = BUFFER_SIZE \<and>
    requests_ok c' g' \<and> (\<forall>w. r = Some w \<longrightarrow> request_ok w)"
proof -
  have "create_network_server api im = (create_network_server api raw)\<lparr>impl := Some im\<rparr>"
    by (simp add: create_network_server_def)
  with assms(1,2) have "up (smqtt_mt_client.server c)" by (auto simp: up_def)
  with assms(3,4) have "session_ready c g" by (simp add: session_ready_def)
  from receive_handled [OF this] assms(5) show ?thesis by (simp add: handled_def)
qed

end

lemma acks_of_init:
  assumes "acks_at c g ws" "ack_queue c = init_queue"
  shows "ws = []"
proof -
  from assms obtain as where "dqueue_at (ack_heap g) init_queue as ws" by (auto simp: acks_at_def)
  then show ?thesis by (cases as; cases ws) (auto simp: dqueue_at_def init_queue_def first_def)
qed

text \<open>C25: on an open network connection the receiving half of an iteration of the session thread is defined, keeps the size of the receive
  buffer and leaves good requests, whatever the buffer held before, under these conditions: the packet parses; a SUBACK
  carries the identifier of the waiting subscriptions; a PUBLISH claims at most 760 bytes of message, or there is a NUL
  behind byte 264 of the buffer, where no packet reaches; and the waiting requests are well tagged, those for a
  PINGRESP, PUBACK, PUBREC or PUBCOMP with a callback. All other sizes the packet claims are arbitrary.\<close>

theorem session_receive_in_bounds:
  assumes "posix_sockets api" "fd_live im" "smqtt_mt_client.server c = create_network_server api im"
    "length (smqtt_mt_client.receive_buffer c) = BUFFER_SIZE" "requests_ok c g"
    "\<forall>sz b s w. server_receive (smqtt_mt_client.server c) (smqtt_mt_client.receive_buffer c) (buffer_size c)
        (mt_env.outside g) = Some (sz, b, s, w) \<longrightarrow> 0 < sz \<longrightarrow>
      (\<exists>r. deserialize_response b (unat (word_of_int sz :: size_t)) = Some (Some r) \<and> suback_matches c g r \<and>
        (\<forall>d. r = Publish_body d \<longrightarrow> copy_ends b d))"
  shows "\<exists>r c' g'. session_receive c g = Some (r, c', g') \<and> length (smqtt_mt_client.receive_buffer c') = BUFFER_SIZE \<and>
    requests_ok c' g' \<and> (\<forall>w. r = Some w \<longrightarrow> request_ok w)"
  using network_provider.mt_receive_net [OF network_provider.intro [OF assms(1)] assms(2-6)] .

theorem session_receive_in_bounds_witness:
  "\<exists>(c :: (server_impl_t, peer) smqtt_mt_client) r c' g'.
    session_receive c (sample_mt_env \<lparr>to_client = [[50, 127], replicate 127 255], send_results = [], sent = []\<rparr>) =
      Some (r, c', g') \<and> length (smqtt_mt_client.receive_buffer c') = BUFFER_SIZE"
proof -
  let ?z = "replicate BUFFER_SIZE 0 :: bytes"
  let ?c = "(sample_mt (create_network_server peer_sockets sample_impl))\<lparr>smqtt_mt_client.receive_buffer := ?z\<rparr>"
  let ?p = "\<lparr>to_client = [[50, 127], replicate 127 255], send_results = [], sent = []\<rparr>"
  let ?b = "[50, 127] @ replicate 127 255 @ drop 129 ?z"
  have live: "fd_live sample_impl" "rx_limit \<le> length ?z"
    by (simp_all add: fd_live_def sample_impl_def FD_SETSIZE_def rx_limit_def BUFFER_SIZE_def)
  have "quiet_tail ?b"
    by (auto simp: quiet_tail_def BUFFER_SIZE_def rx_limit_def nth_append nth_Cons')
  moreover have "deserialize_response ?b n = map_option Some (parse_body ?b 2 127 PUBLISH)" if "1 \<le> n" for n
  proof (rule deserialize_header [of ?b 50 127 "replicate 127 255"])
    show "bytes_at ?b 0 (50 # size_field 127 @ replicate 127 255)"
      using bytes_at_whole [of "[50, 127] @ replicate 127 255" "drop 129 ?z"] by (simp add: size_field_small)
  qed (use that in \<open>simp_all add: size_field_small UNPACK_MESSAGE_TYPE_def\<close>)
  ultimately have parse: "\<exists>r. deserialize_response ?b 129 = Some (Some r)"
    using deserialize_quiet [of ?b 129] by auto
  from network_receive_framed [OF live, where api = peer_sockets and h = 50 and l = 127 and body = "replicate 127 255" and
      w = ?p and n = 0]
  have recv: "server_receive (smqtt_mt_client.server ?c) (smqtt_mt_client.receive_buffer ?c) (buffer_size ?c)
      (mt_env.outside (sample_mt_env ?p)) = Some (sz, b, s, w) \<Longrightarrow> sz = 129 \<and> b = ?b" for sz b s w
    by (auto simp: server_receive_def create_network_server_def peer_sockets_def peer_recv_def sample_impl_def
        sample_mt_def sample_mt_env_def)
  have "\<exists>r. deserialize_response b (unat (word_of_int sz :: size_t)) = Some (Some r) \<and> suback_matches ?c (sample_mt_env ?p) r \<and>
      (\<forall>d. r = Publish_body d \<longrightarrow> copy_ends b d)"
    if "server_receive (smqtt_mt_client.server ?c) (smqtt_mt_client.receive_buffer ?c) (buffer_size ?c)
      (mt_env.outside (sample_mt_env ?p)) = Some (sz, b, s, w)" for sz b s w
  proof -
    from parse obtain r where "deserialize_response ?b 129 = Some (Some r)" ..
    moreover have "suback_matches ?c (sample_mt_env ?p) r"
      using acks_of_init [of ?c "sample_mt_env ?p"] by (fastforce simp: suback_matches_def sample_mt_def)
    moreover have "0 \<in> set (drop 264 ?b)" by (simp add: BUFFER_SIZE_def)
    ultimately show ?thesis using recv [OF that] by (auto simp: copy_ends_def)
  qed
  moreover have "requests_ok ?c (sample_mt_env ?p)"
    by (auto simp: requests_ok_def acks_at_def dqueue_at_def sample_mt_def init_queue_def intro!: exI [of _ "[]"])
  moreover have "smqtt_mt_client.server ?c = create_network_server peer_sockets sample_impl"
    "length (smqtt_mt_client.receive_buffer ?c) = BUFFER_SIZE"
    by (simp_all add: sample_mt_def)
  ultimately have "\<exists>r c' g'. session_receive ?c (sample_mt_env ?p) = Some (r, c', g') \<and>
      length (smqtt_mt_client.receive_buffer c') = BUFFER_SIZE \<and> requests_ok c' g' \<and> (\<forall>w. r = Some w \<longrightarrow> request_ok w)"
    by (intro session_receive_in_bounds [OF peer.posix_sockets_axioms live(1)]) blast+
  then show ?thesis by blast
qed

subsection \<open>Subscriptions\<close>










subsection \<open>Disconnecting\<close>

text \<open>\<^verbatim>\<open>smqtt_mt_disconnect\<close> never sends DISCONNECT and never closes the connection: the session thread ends at its next
  iteration, \<^verbatim>\<open>join_session_thread\<close> frees the client and leaves its result indeterminate, and depending on that value
  the call returns it at once or reads the freed client.\<close>

theorem mt_disconnect_result:
  "smqtt_mt_disconnect (m # ms) raw c g = (if raw = SMQTT_MT_OK then None else Some (raw, g))"
proof (cases m)
  case (Pair a b)
  have "session_thread_loop (m # ms) (signal_disconnect c) g = Some (True, signal_disconnect c, g)"
    by (simp add: Pair session_iteration_def session_take_def signal_disconnect_def)
  then show ?thesis
    by (cases "make_disconnect_message (static_send g) (of_nat BUFFER_SIZE)")
      (auto simp: smqtt_mt_disconnect_def join_session_thread_def simp del: session_thread_loop.simps)
qed

subsection \<open>A closed stream\<close>

text \<open>One iteration when the peer has closed the stream: the packet still in the buffer is handled again.\<close>

lemma closed_iteration:
  assumes "fd_live im" "smqtt_mt_client.server c = create_network_server api im" "2 \<le> length (smqtt_mt_client.receive_buffer c)"
    "\<And>n w. \<exists>w'. sk_recv api (socket im) n w = (0, [], w')"
    "\<And>n fds t w. \<exists>fds' w'. sk_select api n fds t w = (1, fds', w')"
    "head (send_queue c) = None" "\<not> ready_to_disconnect c" "msg_callback c = Some f"
    "deserialize_response (smqtt_mt_client.receive_buffer c) 2 = Some (Some (Publish_body d))" "p_qos d = QoS0"
    "publish_strings (smqtt_mt_client.receive_buffer c) d = Some (topic, msg)"
  shows "\<exists>fds w. session_iteration a b c g =
    Some (False, c\<lparr>smqtt_mt_client.server := create_network_server api (im\<lparr>read_fds := fds\<rparr>)\<rparr>,
      g\<lparr>mt_env.outside := w, calls := calls g @ [Message_call f topic msg QoS0 (p_retain d) (msg_cb_context c)]\<rparr>)"
proof -
  let ?w = "mt_env.outside g"
  from assms(5) [of "socket im + 1" "[socket im]" "(0, 1000)" ?w] obtain fds w1 where
    sel: "sk_select api (socket im + 1) [socket im] (0, 1000) ?w = (1, fds, w1)" by blast
  from network_receive_eof [OF assms(1,3) sel _ assms(4), of "buffer_size c"] obtain w2 where
    "network_receive api (Some im) (smqtt_mt_client.receive_buffer c) (buffer_size c) ?w =
      Some (2, smqtt_mt_client.receive_buffer c, Some (im\<lparr>read_fds := fds\<rparr>), w2)" by auto
  then have recv: "server_receive (smqtt_mt_client.server c) (smqtt_mt_client.receive_buffer c) (buffer_size c) ?w =
      Some (2, smqtt_mt_client.receive_buffer c, create_network_server api (im\<lparr>read_fds := fds\<rparr>), w2)"
    using assms(2) by (simp add: server_receive_def create_network_server_def)
  have top: "session_take c g = Some (False, None, c, g)"
    using assms(6,7) by (cases c, cases g) (simp add: session_take_def dequeue_def)
  let ?c = "c\<lparr>smqtt_mt_client.server := create_network_server api (im\<lparr>read_fds := fds\<rparr>)\<rparr>"
  from assms(11) obtain t m where "topic = t @ [0]" "msg = m @ [0]"
    "strncpy_mem (smqtt_mt_client.receive_buffer c) (p_topic d) (unat (p_topic_size d)) = Some t"
    "strncpy_mem (smqtt_mt_client.receive_buffer c) (p_message d) (unat (p_message_size d)) = Some m"
    by (auto simp: publish_strings_def Option.bind_eq_Some_conv)
  then have "session_receive c g = Some (None, ?c, g\<lparr>mt_env.outside := w2,
      calls := calls g @ [Message_call f topic msg QoS0 (p_retain d) (msg_cb_context c)]\<rparr>)"
    using recv assms(8-10)
    by (simp add: session_receive_def Let_def handle_publish_def maybe_deliver_message_def message_callback_def)
  with top show ?thesis by (auto simp: session_iteration_def)
qed

text \<open>C37: after the peer has closed the stream the session thread neither notices nor stops: when the last packet received was a
  PUBLISH at quality 0, every further iteration delivers that message again.\<close>

theorem closed_stream_redelivers:
  assumes "fd_live im" "smqtt_mt_client.server c = create_network_server api im" "2 \<le> length (smqtt_mt_client.receive_buffer c)"
    "\<And>n w. \<exists>w'. sk_recv api (socket im) n w = (0, [], w')"
    "\<And>n fds t w. \<exists>fds' w'. sk_select api n fds t w = (1, fds', w')"
    "head (send_queue c) = None" "\<not> ready_to_disconnect c" "msg_callback c = Some f"
    "deserialize_response (smqtt_mt_client.receive_buffer c) 2 = Some (Some (Publish_body d))" "p_qos d = QoS0"
    "publish_strings (smqtt_mt_client.receive_buffer c) d = Some (topic, msg)"
  shows "\<exists>c' g'. session_thread_loop ms c g = Some (False, c', g') \<and>
    calls g' = calls g @ replicate (length ms) (Message_call f topic msg QoS0 (p_retain d) (msg_cb_context c))"
  using assms
proof (induction ms arbitrary: c g im)
  case Nil
  then show ?case by simp
next
  case (Cons m ms)
  obtain a b where m: "m = (a, b)" by (cases m)
  from closed_iteration [OF Cons.prems, of a b g] obtain fds w where
    i: "session_iteration a b c g =
      Some (False, c\<lparr>smqtt_mt_client.server := create_network_server api (im\<lparr>read_fds := fds\<rparr>)\<rparr>,
        g\<lparr>mt_env.outside := w, calls := calls g @ [Message_call f topic msg QoS0 (p_retain d) (msg_cb_context c)]\<rparr>)" by blast
  let ?c = "c\<lparr>smqtt_mt_client.server := create_network_server api (im\<lparr>read_fds := fds\<rparr>)\<rparr>"
  let ?g = "g\<lparr>mt_env.outside := w, calls := calls g @ [Message_call f topic msg QoS0 (p_retain d) (msg_cb_context c)]\<rparr>"
  have "\<exists>c' g'. session_thread_loop ms ?c ?g = Some (False, c', g') \<and>
      calls g' = calls ?g @ replicate (length ms) (Message_call f topic msg QoS0 (p_retain d) (msg_cb_context ?c))"
    by (rule Cons.IH [of "im\<lparr>read_fds := fds\<rparr>"]) (use Cons.prems in \<open>simp_all add: fd_live_def\<close>)
  with i m show ?case by auto
qed

theorem closed_stream_redelivers_witness:
  "\<exists>(c :: (server_impl_t, unit) smqtt_mt_client) c' g'.
    session_thread_loop [(1, 2), (3, 4), (5, 6)] c (sample_mt_env ()) = Some (False, c', g') \<and>
    calls g' = replicate 3 (Message_call 9 [116, 0] [104, 105, 0] QoS0 False 8)"
proof -
  let ?w = "publish_wire ([116], 7, QoS0, False, Some [104, 105])"
  have wire: "?w = 48 # size_field 5 @ [0, 1, 116, 104, 105]"
    by (simp add: publish_wire.simps string_wire_def short_wire_def PACK_MESSAGE_TYPE_def sample_strings)
  let ?b = "?w @ drop (length ?w) (replicate BUFFER_SIZE 0)"
  let ?c = "(sample_mt (create_network_server closed_sockets sample_impl))\<lparr>smqtt_mt_client.receive_buffer := ?b\<rparr>"
  have sf: "size_field 5 = [5]" by (simp add: size_field_small)
  have at: "bytes_at ?b 0 ?w" by (rule bytes_at_whole)
  then have "bytes_at ?b 0 (48 # size_field 5 @ [0, 1, 116, 104, 105])" by (simp only: wire)
  then have len: "deserialize_response ?b n = map_option Some (parse_body ?b 2 5 PUBLISH)" if "1 \<le> n" for n
    by (rule deserialize_header) (use that sf in \<open>simp_all add: UNPACK_MESSAGE_TYPE_def\<close>)
  from publish.parse_wire [OF TrueI _ at] sample_decodable [of QoS0 False] obtain d where
    d: "deserialize_response ?b (length ?w) = Some (Some (Publish_body d))" "p_qos d = QoS0" "\<not> p_retain d"
      "shows_string ?b (p_topic_size d, p_topic d) [116]" "shows_string ?b (p_message_size d, p_message d) [104, 105]"
    by auto
  have "deserialize_response ?b 2 = deserialize_response ?b (length ?w)" using len by (simp add: wire)
  with d(1) have parse: "deserialize_response ?b 2 = Some (Some (Publish_body d))" by simp
  have os: "sk_recv closed_sockets k n w = (0, [], w)" "sk_select closed_sockets j fds t w = (1, fds, w)" for k n w j fds t
    by (simp_all add: closed_sockets_def)
  have "fd_live sample_impl" by (simp add: fd_live_def sample_impl_def FD_SETSIZE_def)
  then have "\<exists>c' g'. session_thread_loop [(1, 2), (3, 4), (5, 6)] ?c (sample_mt_env ()) = Some (False, c', g') \<and>
      calls g' = calls (sample_mt_env ()) @ replicate (length [(1 :: nat, 2 :: nat), (3, 4), (5, 6)])
        (Message_call 9 [116, 0] [104, 105, 0] QoS0 (p_retain d) (msg_cb_context ?c))"
  proof (rule closed_stream_redelivers)
    show "\<exists>w'. sk_recv closed_sockets (socket sample_impl) n w = (0, [], w')" for n w using os(1) by blast
    show "\<exists>fds' w'. sk_select closed_sockets n fds t w = (1, fds', w')" for n fds t w using os(2) by blast
    show "publish_strings (smqtt_mt_client.receive_buffer ?c) d = Some ([116, 0], [104, 105, 0])"
      using shown_strings [OF d(4,5)] by (simp add: sample_strings)
  qed (use parse d(2) in \<open>simp_all add: sample_mt_def init_queue_def wire sf\<close>)
  then obtain c' g' where "session_thread_loop [(1, 2), (3, 4), (5, 6)] ?c (sample_mt_env ()) = Some (False, c', g')"
    "calls g' = replicate 3 (Message_call 9 [116, 0] [104, 105, 0] QoS0 False 8)"
    using d(3) by (auto simp: sample_mt_def sample_mt_env_def numeral_3_eq_3 simp del: session_thread_loop.simps)
  then show ?thesis by blast
qed

subsection \<open>Packets that do not parse\<close>

text \<open>One packet of a reserved type ends the session thread: \<^verbatim>\<open>deserialize_response\<close> returns \<^verbatim>\<open>NULL\<close> for it and
  \<^verbatim>\<open>session_thread_loop\<close> reads its type without a test.\<close>

theorem reserved_packet_undefined:
  assumes "server_receive (smqtt_mt_client.server c) (smqtt_mt_client.receive_buffer c) (buffer_size c) (mt_env.outside g) =
      Some (sz, b, s, w)" "0 < sz" "6 \<le> length b" "message_type_of (UNPACK_MESSAGE_TYPE (b ! 0)) = None"
  shows "session_receive c g = None"
proof -
  let ?n = "unat (word_of_int sz :: size_t)"
  have "?n < length b \<or> 1 + 4 \<le> length b" using assms(3) by simp
  from decode_size_total [OF this] obtain used r where "decode_size b 1 ?n = Some (used, r)" .
  moreover have "buf_get b 0 = Some (b ! 0)" using assms(3) by (intro buf_get_in) auto
  ultimately have "deserialize_response b ?n = Some None"
    using assms(4) by (auto simp: deserialize_response_def Let_def split: option.split)
  with assms(1,2) show ?thesis by (simp add: session_receive_def Let_def)
qed

theorem reserved_packet_undefined_witness:
  "session_receive (one_waiting scripted) (one_waiting_env (request PUBACK 1) [[240, 0]]) = None"
proof (rule reserved_packet_undefined)
  show "server_receive (smqtt_mt_client.server (one_waiting scripted)) (smqtt_mt_client.receive_buffer (one_waiting scripted))
      (buffer_size (one_waiting scripted)) (mt_env.outside (one_waiting_env (request PUBACK 1) [[240, 0]])) =
      Some (2, [240, 0] @ drop 2 (replicate BUFFER_SIZE 0), scripted, [])"
    by (simp add: one_waiting_def sample_mt_def)
qed (simp_all add: BUFFER_SIZE_def UNPACK_MESSAGE_TYPE_def message_type_of_def message_types_def)

end
