(* ===== verification/MT_Machine.thy ===== *)
theory MT_Machine
  imports MT_Behaviour
begin

section \<open>The multithreaded client as an abstract machine\<close>

text \<open>
  What the client does, seen from outside, without slots, queues and heaps: \<open>session_step\<close> is a machine whose state holds
  the packets submitted and not yet sent, the requests that wait for a packet of the broker, the packets exchanged and
  the callbacks made. Every interleaving of callers with the session thread is a run of it (a forward simulation), so
  what holds of the runs of the machine holds of the program.
\<close>

subsection \<open>The machine\<close>

text \<open>\<open>upcoming\<close> is a request the session thread has built and not yet put into its queue.\<close>

record session_state =
  pending :: "bytes list"
  requests :: "waiting_t list"
  upcoming :: "waiting_t option"
  wire :: "event list"
  callbacks :: "call list"

inductive session_step :: "nat option \<Rightarrow> nat \<Rightarrow> session_state \<Rightarrow> session_state \<Rightarrow> bool" for cb ctx where
  submit: "session_step cb ctx x (x\<lparr>pending := pending x @ [p]\<rparr>)"
| ask: "caller_request w \<Longrightarrow> session_step cb ctx x (x\<lparr>requests := requests x @ [w]\<rparr>)"
| transmit: "\<lbrakk>upcoming x = None; pending x = p # ps\<rbrakk> \<Longrightarrow>
    session_step cb ctx x (x\<lparr>pending := ps, wire := wire x @ [Tx p SMQTT_NET_OK]\<rparr>)"
| idle: "\<lbrakk>upcoming x = None; sz \<le> 0\<rbrakk> \<Longrightarrow> session_step cb ctx x (x\<lparr>wire := wire x @ [Rx sz b]\<rparr>)"
| handle: "\<lbrakk>upcoming x = None; 0 < sz; deserialize_response b (nat sz) = Some (Some r);
      session_spec cb ctx b r (requests x) = Some (zs @ requeued q, ps, ks)\<rbrakk> \<Longrightarrow>
    session_step cb ctx x (x\<lparr>requests := zs, upcoming := q, wire := wire x @ Rx sz b # sent_ok ps,
      callbacks := callbacks x @ ks\<rparr>)"
| ask_next: "upcoming x = Some w \<Longrightarrow> session_step cb ctx x (x\<lparr>requests := requests x @ [w], upcoming := None\<rparr>)"

abbreviation session_steps :: "nat option \<Rightarrow> nat \<Rightarrow> session_state \<Rightarrow> session_state \<Rightarrow> bool" where
  "session_steps cb ctx \<equiv> (session_step cb ctx)\<^sup>*\<^sup>*"

subsection \<open>Simulations\<close>

text \<open>A step of the program is no step or a step of the machine; then so is a run.\<close>

locale forward_simulation =
  fixes abstract_step :: "'a \<Rightarrow> 'a \<Rightarrow> bool" and concrete_step :: "'c \<Rightarrow> 'c \<Rightarrow> bool" and match :: "'a \<Rightarrow> 'c \<Rightarrow> bool"
  assumes simulation: "\<lbrakk>match x s; concrete_step s t\<rbrakk> \<Longrightarrow> match x t \<or> (\<exists>y. abstract_step x y \<and> match y t)"
begin

lemma simulates:
  assumes "concrete_step\<^sup>*\<^sup>* s t" "match x s"
  obtains y where "abstract_step\<^sup>*\<^sup>* x y" "match y t"
proof -
  from assms(1) have "\<exists>y. abstract_step\<^sup>*\<^sup>* x y \<and> match y t"
  proof (induction rule: rtranclp_induct)
    case base
    from assms(2) show ?case by blast
  next
    case (step t u)
    then obtain y where y: "abstract_step\<^sup>*\<^sup>* x y" "match y t" by blast
    from simulation [OF y(2) step(2)] y(1) show ?case by (meson rtranclp.rtrancl_into_rtrancl)
  qed
  with that show thesis by blast
qed

end

subsection \<open>States of the program as states of the machine\<close>

fun next_request :: "session_pc \<Rightarrow> waiting_t option" where
  "next_request (Requeueing w) = Some w"
| "next_request _ = None"

text \<open>The part of a system the machine sees.\<close>

definition same_view :: "('i, 'w) mt_system \<Rightarrow> ('i, 'w) mt_system \<Rightarrow> bool" where
  "same_view t u \<longleftrightarrow>
     server (cl u) = server (cl t) \<and> receive_buffer (cl u) = receive_buffer (cl t) \<and>
     ack_queue (cl u) = ack_queue (cl t) \<and> ack_heap (env u) = ack_heap (env t) \<and> outside (env u) = outside (env t) \<and>
     calls (env u) = calls (env t) \<and> msg_callback (cl u) = msg_callback (cl t) \<and>
     msg_cb_context (cl u) = msg_cb_context (cl t) \<and>
     map (length \<circ> buffer) (buffer_slots (cl u)) = map (length \<circ> buffer) (buffer_slots (cl t)) \<and>
     next_request (pc u) = next_request (pc t)"

lemma silent_views:
  assumes "get_buffer_slot (cl s) (env s) = Some (p, c, g)"
  shows "same_view s (s\<lparr>cl := c, env := g, held := ps\<rparr>)"
  using assms by (auto simp: same_view_def get_buffer_slot_def Option.bind_eq_Some_conv)

lemma take_view:
  assumes "pc s = At_top" "session_take (cl s) (env s) = Some (e, r, c, g)" "next_request k = None"
  shows "same_view s (s\<lparr>cl := c, env := g, pc := k\<rparr>)"
  using assms
  by (auto simp: same_view_def session_take_def Let_def Option.bind_eq_Some_conv split: if_splits)

lemma return_view:
  assumes "pc s = Returning p" "session_return a p (cl s) (env s) = Some (c, g)"
  shows "same_view s (s\<lparr>cl := c, env := g, pc := Receiving\<rparr>)"
  using assms by (auto simp: same_view_def session_return_def Option.bind_eq_Some_conv)

lemma map_update_same: "i < length xs \<longrightarrow> f x = f (xs ! i) \<Longrightarrow> map f (xs[i := x]) = map f xs"
  by (cases "i < length xs") (simp_all add: map_update list_update_same_conv list_update_beyond)

lemma fill_view:
  assumes "slot = buffer_slots (cl s) ! unat p" "length b = length (buffer slot)"
  shows "same_view s (s\<lparr>cl := (cl s)\<lparr>buffer_slots := (buffer_slots (cl s))[unat p := slot\<lparr>buffer := b\<rparr>]\<rparr>\<rparr>)"
  using assms by (simp add: same_view_def map_update_same)

lemma submit_view:
  assumes "enqueue_slot_for_send a (cl s) p len (env s) = Some (st, c, g)"
  shows "same_view s (s\<lparr>cl := c, env := g, held := ps, submitted := xs\<rparr>)"
  using assms
  by (auto simp: same_view_def enqueue_slot_for_send_def list_get_eq_Some Let_def Option.bind_eq_Some_conv map_update_same)

text \<open>
  A machine state matches a system: the wire and the callbacks are those recorded, the requests are those in the queue, and
  the pending packets are those submitted and not yet handed to the transport.
\<close>

context steady_transport
begin

definition matches :: "nat option \<Rightarrow> nat \<Rightarrow> session_state \<Rightarrow> ('i, 'w \<times> event list) mt_system \<Rightarrow> bool" where
  "matches cb ctx x t \<longleftrightarrow>
     (\<exists>fs ss. slots_inv fs ss t) \<and> (\<exists>s. up s \<and> session_ok s (cl t) (env t) (wire x) (requests x)) \<and>
     set (map (length \<circ> buffer) (buffer_slots (cl t))) \<subseteq> {BUFFER_SIZE} \<and>
     submitted t = transmitted t @ pending x \<and> callbacks x = calls (env t) \<and>
     msg_callback (cl t) = cb \<and> msg_cb_context (cl t) = ctx \<and> upcoming x = next_request (pc t)"

lemma matches_view:
  assumes "matches cb ctx x t" "same_view t u" "mt_step t u" "transmitted u = transmitted t"
    "submitted u = submitted t @ ps"
  shows "matches cb ctx (x\<lparr>pending := pending x @ ps\<rparr>) u"
proof -
  from assms(1,3) have "\<exists>fs ss. slots_inv fs ss u" unfolding matches_def by (blast intro: mt_step_inv)
  with assms show ?thesis
    by (auto simp: matches_def same_view_def session_ok_def acks_at_def)
qed

lemma matches_silent:
  assumes "matches cb ctx x t" "same_view t u" "mt_step t u" "transmitted u = transmitted t" "submitted u = submitted t"
  shows "matches cb ctx x u"
  using matches_view [OF assms(1-4), of "[]"] assms(5) by simp

text \<open>Registering a request, by a caller or by the session thread.\<close>

lemma matches_register:
  assumes "matches cb ctx x t" "ack_heap (env t) a = None" "enqueue_waiting a (cl t) w (env t) = Some (st, c, g)"
    "mt_step t (t\<lparr>cl := c, env := g, pc := k\<rparr>)" "next_request k = q"
  shows "matches cb ctx (x\<lparr>requests := requests x @ [w], upcoming := q\<rparr>) (t\<lparr>cl := c, env := g, pc := k\<rparr>)"
proof -
  from assms(1) obtain s fs ss where s: "up s" "session_ok s (cl t) (env t) (wire x) (requests x)" "slots_inv fs ss t"
    by (auto simp: matches_def)
  from mt_step_inv [OF assms(4) s(3)] have inv: "\<exists>fs ss. slots_inv fs ss (t\<lparr>cl := c, env := g, pc := k\<rparr>)" .
  from s(2) have "acks_at (cl t) (env t) (requests x)" by (simp add: session_ok_def)
  from enqueue_waiting_acks [OF this assms(2), of w] assms(3) obtain q' h where
    "c = (cl t)\<lparr>ack_queue := q'\<rparr>" "g = (env t)\<lparr>ack_heap := h\<rparr>" "acks_at c g (requests x @ [w])"
    by (metis Pair_inject option.inject)
  with s assms(1,5) inv show ?thesis by (auto simp: matches_def session_ok_def)
qed

text \<open>Sending a slot.\<close>

lemma matches_send:
  assumes "matches cb ctx x t" "pc t = Sending p" "session_send p (cl t) (env t) = Some (c, g)"
    "mt_step t (t\<lparr>cl := c, env := g, pc := Returning p, transmitted := transmitted t @ [slot_packet (cl t) p]\<rparr>)"
  obtains ps where "pending x = slot_packet (cl t) p # ps"
    "matches cb ctx (x\<lparr>pending := ps, wire := wire x @ [Tx (slot_packet (cl t) p) SMQTT_NET_OK]\<rparr>)
      (t\<lparr>cl := c, env := g, pc := Returning p, transmitted := transmitted t @ [slot_packet (cl t) p]\<rparr>)"
proof -
  let ?u = "t\<lparr>cl := c, env := g, pc := Returning p, transmitted := transmitted t @ [slot_packet (cl t) p]\<rparr>"
  from assms(1) obtain s fs ss where s: "up s" "session_ok s (cl t) (env t) (wire x) (requests x)" "slots_inv fs ss t"
    and b: "set (map (length \<circ> buffer) (buffer_slots (cl t))) \<subseteq> {BUFFER_SIZE}"
    and sub: "submitted t = transmitted t @ pending x"
    by (auto simp: matches_def)
  from s(3) sub assms(2) obtain ps where ps: "pending x = slot_packet (cl t) p # ps" by (simp add: slots_inv_def)
  from assms(3) obtain st s' w where
    p: "unat p < length (buffer_slots (cl t))" and
    send: "server_send (smqtt_mt_client.server (cl t)) (buffer (buffer_slots (cl t) ! unat p))
        (ucast (message_length (buffer_slots (cl t) ! unat p))) (outside (env t)) = Some (st, s', w)"
    and c: "c = (cl t)\<lparr>smqtt_mt_client.server := s'\<rparr>" and g: "g = (env t)\<lparr>outside := w\<rparr>"
    by (auto simp: session_send_def list_get_eq_Some Option.bind_eq_Some_conv)
  let ?b = "buffer (buffer_slots (cl t) ! unat p)" and ?n = "ucast (message_length (buffer_slots (cl t) ! unat p)) :: size_t"
  from b p have len: "2 \<le> length ?b" by (simp add: BUFFER_SIZE_def image_subset_iff)
  from s(2) have o: "smqtt_mt_client.server (cl t) = traced s" "outside (env t) = (fst (outside (env t)), wire x)"
    by (auto simp: session_ok_def prod_eq_iff)
  from send obtain s0 w0 where v: "server_send s ?b ?n (fst (outside (env t))) = Some (st, s0, w0)" "s' = traced s0"
    "w = (w0, wire x @ [Tx (take (unat ?n) ?b) st])"
    by (subst (asm) o(2)) (auto simp: o(1) traced_send)
  with up_send_steady [OF s(1) len v(1)] have
    w: "s' = traced s" "w = (w0, wire x @ [Tx (slot_packet (cl t) p) SMQTT_NET_OK])"
    by (simp_all add: slot_packet_def Let_def unat_ucast_up)
  from mt_step_inv [OF assms(4) s(3)] have "\<exists>fs ss. slots_inv fs ss ?u" .
  with s w c g sub ps assms(1,2) show thesis
    by (intro that [OF ps]) (auto simp: matches_def session_ok_def)
qed

text \<open>Receiving: either nothing, or a packet with the effect specified for it.\<close>

lemma matches_receive:
  assumes "matches cb ctx x t" "pc t = Receiving" "session_receive (cl t) (env t) = Some (q, c, g)"
    "mt_step t (t\<lparr>cl := c, env := g, pc := (case q of None \<Rightarrow> At_top | Some w \<Rightarrow> Requeueing w)\<rparr>)"
  obtains y where "session_step cb ctx x y"
    "matches cb ctx y (t\<lparr>cl := c, env := g, pc := (case q of None \<Rightarrow> At_top | Some w \<Rightarrow> Requeueing w)\<rparr>)"
proof -
  let ?u = "t\<lparr>cl := c, env := g, pc := (case q of None \<Rightarrow> At_top | Some w \<Rightarrow> Requeueing w)\<rparr>"
  from assms(1) obtain s fs ss where s: "up s" "session_ok s (cl t) (env t) (wire x) (requests x)" "slots_inv fs ss t"
    and k: "msg_callback (cl t) = cb" "msg_cb_context (cl t) = ctx" "calls (env t) = callbacks x"
    by (auto simp: matches_def)
  from mt_step_inv [OF assms(4) s(3)] have inv: "\<exists>fs ss. slots_inv fs ss ?u" .
  from session_receive_frame [OF assms(3)] have fr: "buffer_slots c = buffer_slots (cl t)" "msg_callback c = cb"
    "msg_cb_context c = ctx" using k by (simp_all add: handler_frame_def session_frame_def)
  from s(2) have o: "smqtt_mt_client.server (cl t) = traced s" "outside (env t) = (fst (outside (env t)), wire x)"
    "length (smqtt_mt_client.receive_buffer (cl t)) = BUFFER_SIZE"
    by (auto simp: session_ok_def prod_eq_iff)
  have "rx_limit \<le> length (smqtt_mt_client.receive_buffer (cl t))" using o(3) by (simp add: rx_limit_def BUFFER_SIZE_def)
  from up_receive [OF s(1) this, of "buffer_size (cl t)" "fst (outside (env t))"] obtain sz rb s' w where
    r: "server_receive s (smqtt_mt_client.receive_buffer (cl t)) (buffer_size (cl t)) (fst (outside (env t))) = Some (sz, rb, s', w)"
      "up s'" "length rb = BUFFER_SIZE" "0 \<le> sz" "sz \<le> int rx_limit" using o(3) by metis
  have recv: "server_receive (smqtt_mt_client.server (cl t)) (smqtt_mt_client.receive_buffer (cl t)) (buffer_size (cl t))
      (outside (env t)) = Some (sz, rb, traced s', w, wire x @ [Rx sz rb])"
    using r(1) by (subst o(2)) (simp add: o(1) traced_receive)
  show thesis
  proof (cases "0 < sz")
    case False
    with assms(3) recv have "q = None" "c = (cl t)\<lparr>smqtt_mt_client.receive_buffer := rb, smqtt_mt_client.server := traced s'\<rparr>"
      "g = (env t)\<lparr>outside := (w, wire x @ [Rx sz rb])\<rparr>" by (auto simp: session_receive_def Let_def)
    moreover from False assms(1,2) have "session_step cb ctx x (x\<lparr>wire := wire x @ [Rx sz rb]\<rparr>)"
      by (intro session_step.idle) (auto simp: matches_def)
    ultimately show thesis
      using inv s r(2,3) assms(1,2) by (intro that) (auto simp: matches_def session_ok_def)
  next
    case True
    have "unat (word_of_int sz :: size_t) = nat sz" using long_back [of "nat sz"] True r(5) by (simp add: rx_limit_def)
    with assms(3) recv True obtain p where p: "deserialize_response rb (nat sz) = Some (Some p)"
      by (auto simp: session_receive_def Let_def Option.bind_eq_Some_conv)
    from receive_effect [OF s(2) up_reliable [OF r(2)] r(1) True r(5,3) p] assms(3) k obtain zs ps ks where
      e: "session_spec cb ctx rb p (requests x) = Some (zs @ requeued q, ps, ks)"
        "session_ok s' c g ((wire x @ [Rx sz rb]) @ sent_ok ps) zs" "calls g = callbacks x @ ks"
      by (auto simp: has_effect_def split: option.splits)
    have "upcoming x = None" using assms(1,2) by (simp add: matches_def)
    from session_step.handle [OF this True p e(1)] show thesis
      using inv r(2) e(2,3) assms(1) fr by (intro that) (auto simp: matches_def split: option.split)
  qed
qed

lemma step_simulated:
  assumes "matches cb ctx x t" "mt_step t u"
  shows "matches cb ctx x u \<or> (\<exists>y. session_step cb ctx x y \<and> matches cb ctx y u)"
  using assms(2)
proof cases
  case (acquire p c g)
  have "same_view t u" unfolding acquire(1) by (rule silent_views [OF acquire(3)])
  from matches_silent [OF assms(1) this assms(2)] acquire(1) show ?thesis by simp
next
  case spin
  then show ?thesis using matches_silent [OF assms(1) _ assms(2)] by (simp add: same_view_def)
next
  case (fill p slot b)
  have "same_view t u" unfolding fill(1) by (rule fill_view [OF fill(3,4)])
  from matches_silent [OF assms(1) this assms(2)] fill(1) show ?thesis by simp
next
  case number
  then show ?thesis using matches_silent [OF assms(1) _ assms(2)] by (simp add: same_view_def)
next
  case signal
  then show ?thesis using matches_silent [OF assms(1) _ assms(2)] by (simp add: same_view_def signal_disconnect_def)
next
  case (register a w st c g)
  have u: "u = t\<lparr>cl := c, env := g, pc := pc t\<rparr>" using register by simp
  have "next_request (pc t) = upcoming x" using assms(1) by (simp add: matches_def)
  from matches_register [OF assms(1) register(3,4) assms(2) [unfolded u] this] session_step.ask [OF register(5)]
  show ?thesis unfolding u by fastforce
next
  case (submit p a len st c g)
  have "same_view t u" unfolding submit(1) by (rule submit_view [OF submit(5)])
  from matches_view [OF assms(1) this assms(2), of "[slot_packet c p]"] submit(1) session_step.submit show ?thesis
    by fastforce
next
  case (take_end r c g)
  have "same_view t u" unfolding take_end(1) by (rule take_view [OF take_end(3,4)]) simp
  from matches_silent [OF assms(1) this assms(2)] take_end(1) show ?thesis by simp
next
  case (take_none c g)
  have "same_view t u" unfolding take_none(1) by (rule take_view [OF take_none(3,4)]) simp
  from matches_silent [OF assms(1) this assms(2)] take_none(1) show ?thesis by simp
next
  case (take_slot p c g)
  have "same_view t u" unfolding take_slot(1) by (rule take_view [OF take_slot(3,4)]) simp
  from matches_silent [OF assms(1) this assms(2)] take_slot(1) show ?thesis by simp
next
  case (send p c g)
  have n: "upcoming x = None" using assms(1) send by (simp add: matches_def)
  from matches_send [OF assms(1) send(2,3) assms(2) [unfolded send(1)]] show ?thesis
    using session_step.transmit [OF n] send(1) by metis
next
  case (return p a c g)
  have "same_view t u" unfolding return(1) by (rule return_view [OF return(3,5)])
  from matches_silent [OF assms(1) this assms(2)] return(1) show ?thesis by simp
next
  case (receive q c g)
  from matches_receive [OF assms(1) receive(2,3) assms(2) [unfolded receive(1)]] show ?thesis
    using receive(1) by metis
next
  case (requeue w a st c g)
  have n: "upcoming x = Some w" using assms(1) requeue by (simp add: matches_def)
  from matches_register [OF assms(1) requeue(4,5) assms(2) [unfolded requeue(1)], of None]
    session_step.ask_next [OF n] show ?thesis using requeue(1) by auto
qed

end

sublocale steady_transport \<subseteq> session: forward_simulation "session_step cb ctx" mt_step "matches cb ctx" for cb ctx
  by unfold_locales (rule step_simulated)

subsection \<open>The program is the machine\<close>

definition session_start :: "'w mt_env \<Rightarrow> event list \<Rightarrow> session_state" where
  "session_start g l = \<lparr>pending = [], requests = [], upcoming = None, wire = l, callbacks = calls g\<rparr>"

context steady_transport
begin

lemma started_matches:
  assumes "memory_ok m (unat n) BUFFER_SIZE (slot_heap g)" "start_session_thread m c n sz (traced s) g = Some (r, c', g')" "up s"
  shows "matches (msg_callback c) (msg_cb_context c) (session_start g (snd (outside g))) (initial_system c' g')"
proof -
  note k = start_session_at [OF assms(1,2)]
  from k(1) have "set (map (length \<circ> buffer) (buffer_slots c')) \<subseteq> {BUFFER_SIZE}" "acks_at c' g' []"
    by (auto simp: session_at_def)
  moreover have "msg_callback c' = msg_callback c" "msg_cb_context c' = msg_cb_context c"
    using assms(2) by (auto simp: start_session_thread_def Let_def Option.bind_eq_Some_conv)
  ultimately show ?thesis
    using k assms(3) by (auto simp: matches_def session_start_def initial_system_def session_ok_def)
qed

lemma run_is_session:
  assumes "memory_ok m (unat n) BUFFER_SIZE (slot_heap g)" "start_session_thread m c n sz (traced s) g = Some (r, c', g')" "up s"
    "mt_steps (initial_system c' g') t"
  obtains x where "session_steps (msg_callback c) (msg_cb_context c) (session_start g (snd (outside g))) x"
    "matches (msg_callback c) (msg_cb_context c) x t"
  by (rule session.simulates [OF assms(4) started_matches [OF assms(1-3)]])

end

lemma steady_networkI:
  "\<lbrakk>posix_sockets api; \<forall>fd bs w. fst (sk_send api fd bs w) \<in> {int (length bs), -1}\<rbrakk> \<Longrightarrow> steady_network api"
  by (intro steady_network.intro network_provider.intro steady_network_axioms.intro) auto

text \<open>The same for a session over the network.\<close>

context steady_network
begin

lemma network_up:
  assumes "fd_live im"
  shows "up (create_network_server api im)" "reliable (create_network_server api im)"
proof -
  have "create_network_server api im = (create_network_server api raw)\<lparr>impl := Some im\<rparr>"
    by (simp add: create_network_server_def)
  with assms show "up (create_network_server api im)" by (auto simp: up_def)
  then show "reliable (create_network_server api im)" by (rule up_reliable)
qed

lemma network_run:
  assumes "fd_live im" "memory_ok m (unat n) BUFFER_SIZE (slot_heap g)"
    "start_session_thread m c n sz (traced (create_network_server api im)) g = Some (r, c', g')"
    "mt_steps (initial_system c' g') t"
  shows "\<exists>x. session_steps (msg_callback c) (msg_cb_context c) (session_start g (snd (outside g))) x \<and>
    wire x = snd (outside (env t)) \<and> callbacks x = calls (env t) \<and> acks_at (cl t) (env t) (requests x) \<and>
    submitted t = transmitted t @ pending x \<and> upcoming x = next_request (pc t)"
proof -
  from run_is_session [OF assms(2,3) network_up(1) [OF assms(1)] assms(4)] obtain x where
    "session_steps (msg_callback c) (msg_cb_context c) (session_start g (snd (outside g))) x"
    "matches (msg_callback c) (msg_cb_context c) x t" .
  then show ?thesis unfolding matches_def session_ok_def by (intro exI [of _ x]) auto
qed

end

lemmas network_session = steady_network.network_run [OF steady_networkI]

subsection \<open>Exactly once\<close>

type_synonym message = "bytes \<times> bytes \<times> bool"

definition qos2_received :: "event \<Rightarrow> message list" where
  "qos2_received e =
     (case e of
        Rx sz b \<Rightarrow>
          if 0 < sz then
            (case deserialize_response b (nat sz) of
               Some (Some (Publish_body d)) \<Rightarrow>
                 if p_qos d = QoS2 then
                   (case publish_strings b d of Some (topic, msg) \<Rightarrow> [(topic, msg, p_retain d)] | None \<Rightarrow> [])
                 else []
             | _ \<Rightarrow> [])
          else []
      | Tx _ _ \<Rightarrow> [])"

definition qos2_held :: "waiting_t \<Rightarrow> message list" where
  "qos2_held w =
     (if wtype w = PUBREL then case wdata w of Pubrel_data topic msg retain _ \<Rightarrow> [(topic, msg, retain)] | _ \<Rightarrow> []
      else [])"

fun qos2_delivered :: "call \<Rightarrow> message list" where
  "qos2_delivered (Message_call f topic msg qos retain ctx) = (if qos = QoS2 then [(topic, msg, retain)] else [])"
| "qos2_delivered _ = []"

lemma qos2_simps [simp]:
  "wtype w \<noteq> PUBREL \<Longrightarrow> qos2_held w = []"
  "qos2_received (Tx p st) = []" "sz \<le> 0 \<Longrightarrow> qos2_received (Rx sz b) = []"
  by (simp_all add: qos2_held_def qos2_received_def)

definition tally :: "('a \<Rightarrow> 'b list) \<Rightarrow> 'a list \<Rightarrow> 'b multiset" where
  "tally f xs = mset (concat (map f xs))"

lemma tally_simps [simp]:
  "tally f [] = {#}" "tally f (x # xs) = mset (f x) + tally f xs" "tally f (xs @ ys) = tally f xs + tally f ys"
  by (simp_all add: tally_def)

lemma tally_mset: "mset xs = mset ys \<Longrightarrow> tally f xs = tally f ys"
proof -
  have "tally f zs = \<Sum>\<^sub># (image_mset (\<lambda>x. mset (f x)) (mset zs))" for zs
    by (induction zs) (simp_all add: tally_def)
  then show "mset xs = mset ys \<Longrightarrow> tally f xs = tally f ys" by simp
qed

lemma tally_none: "(\<And>x. x \<in> set xs \<Longrightarrow> f x = []) \<Longrightarrow> tally f xs = {#}"
  by (simp add: tally_def)

lemma lookup_parts:
  "lookup_waiting t i ws = Some (f, m, zs) \<Longrightarrow>
    (m = None \<longrightarrow> zs = ws) \<and> (\<forall>r. m = Some r \<longrightarrow> f \<and> wtype r = t \<and> mset ws = add_mset r (mset zs))"
proof (induction ws arbitrary: zs)
  case (Cons w ws)
  have "entry_test t i w = Some Matched \<Longrightarrow> wtype w = t" by (simp add: entry_test_def split: if_splits)
  with Cons show ?case
    by (cases "entry_test t i w") (auto simp: Option.bind_eq_Some_conv split: test_result.splits)
qed simp

text \<open>What a packet does to the messages held back: it takes out of the requests one of its type, or none.\<close>

lemma on_match_tally:
  assumes "on_match t i ws k = Some (ws', ps, ks)"
  shows "(ws' = ws \<and> ps = [] \<and> ks = []) \<or>
    (\<exists>r zs. wtype r = t \<and> k r zs = Some (ws', ps, ks) \<and> tally qos2_held ws = mset (qos2_held r) + tally qos2_held zs)"
proof -
  from assms obtain f m zs where l: "lookup_waiting t i ws = Some (f, m, zs)"
    and k: "(if f then Option.bind m (\<lambda>r. k r zs) else Some (zs, [], [])) = Some (ws', ps, ks)"
    by (auto simp: on_match_def Option.bind_eq_Some_conv)
  note parts = lookup_parts [OF l]
  show ?thesis
  proof (cases m)
    case None
    with k parts show ?thesis by (auto split: if_splits)
  next
    case (Some r)
    with parts have "tally qos2_held ws = tally qos2_held (r # zs)" by (intro tally_mset) simp
    with k Some parts show ?thesis by auto
  qed
qed

lemma spec_conserves:
  assumes "session_spec (Some f) ctx b r ws = Some (ws', ps, ks)" "deserialize_response b (nat sz) = Some (Some r)" "0 < sz"
  shows "tally qos2_delivered ks + tally qos2_held ws' = tally qos2_held ws + mset (qos2_received (Rx sz b))"
proof (cases r)
  case (Publish_body d)
  with assms show ?thesis
    by (auto simp: qos2_received_def qos2_held_def publish_spec_def delivered_def held_message_def message_calls_def
        Option.bind_eq_Some_conv split: if_splits)
next
  case (Pubrel_body i)
  with assms(1) on_match_tally [where t = PUBREL] assms(2,3) show ?thesis
    by (auto simp: qos2_received_def qos2_held_def message_calls_def split: waiting_data.splits dest!: on_match_tally)
next
  case (Suback_body d)
  with assms show ?thesis
    by (auto simp: qos2_received_def qos2_held_def split: waiting_data.splits option.splits dest!: on_match_tally)
qed (use assms in \<open>auto simp: qos2_received_def qos2_held_def completed_def Option.bind_eq_Some_conv split: if_splits dest!: on_match_tally\<close>)

lemma session_conserves:
  assumes "session_steps (Some f) ctx x y"
    "tally qos2_delivered (callbacks x) + tally qos2_held (requests x @ requeued (upcoming x)) = tally qos2_received (wire x)"
  shows "tally qos2_delivered (callbacks y) + tally qos2_held (requests y @ requeued (upcoming y)) = tally qos2_received (wire y)"
  using assms
proof (induction rule: rtranclp_induct)
  case (step y z)
  then have IH: "tally qos2_delivered (callbacks y) + tally qos2_held (requests y @ requeued (upcoming y)) =
    tally qos2_received (wire y)" by blast
  have tx: "tally qos2_received (sent_ok ps) = {#}" for ps by (rule tally_none) (auto simp: sent_ok_def)
  from step(2) show ?case
  proof cases
    case (handle sz b r zs q ps ks)
    have "tally qos2_delivered (callbacks y @ ks) + tally qos2_held (zs @ requeued q) =
        tally qos2_delivered (callbacks y) + (tally qos2_held (requests y) + mset (qos2_received (Rx sz b)))"
      using spec_conserves [OF handle(5,4,3)] by (simp add: ac_simps)
    also have "\<dots> = tally qos2_received (wire y) + mset (qos2_received (Rx sz b))"
      using IH handle(2) by (simp flip: add.assoc)
    finally show ?thesis using tx handle(1) by simp
  qed (use IH in \<open>auto simp: caller_request_def ac_simps\<close>)
qed simp

end
