(* ===== verification/MT_System.thy ===== *)
theory MT_System
  imports MT_Machine MT_Errors
begin

section \<open>Properties of the whole multithreaded client\<close>

text \<open>
  The session thread, its callers and the network together: every interleaving over a network whose \<^verbatim>\<open>send\<close> makes no
  short writes is a run of the abstract machine, and messages of quality 2 are neither lost nor duplicated. The concrete run
  comes first, for the witnesses of both.
\<close>

declare publish_wire.simps [simp del]

subsection \<open>A run\<close>

text \<open>A run for the witnesses: over the network a message of quality 2 arrives and is acknowledged with PUBREC.\<close>

definition arriving :: peer where
  "arriving = \<lparr>to_client = [[53, 7], [0, 1, 116, 0, 7, 104, 105]], send_results = [], sent = []\<rparr>"

definition arriving_env :: "(peer \<times> event list) mt_env" where
  "arriving_env = sample_mt_env (arriving, [])"

lemma arriving_memory: "memory_ok sample_memory n BUFFER_SIZE (slot_heap arriving_env)"
  unfolding arriving_env_def by (rule sample_memory_ok)

lemma arriving_wire: "publish_wire ([116], 7, QoS2, True, Some [104, 105]) = [53, 7] @ [0, 1, 116, 0, 7, 104, 105]"
  by (simp add: publish_wire.simps string_wire_def short_wire_def sample_strings size_field_small Let_def
      PACK_MESSAGE_TYPE_def)

definition willing_server :: "(server_impl_t, peer \<times> event list) server_t" where
  "willing_server = traced (create_network_server willing_sockets sample_impl)"

lemma willing_laws:
  "posix_sockets willing_sockets" "\<forall>fd bs w. fst (sk_send willing_sockets fd bs w) \<in> {int (length bs), -1}" "fd_live sample_impl"
  using willing.posix_sockets_axioms by (simp_all add: willing_sockets_def fd_live_def sample_impl_def FD_SETSIZE_def)

lemma arriving_received:
  assumes "length b = BUFFER_SIZE"
  shows "server_receive (create_network_server willing_sockets sample_impl) b n arriving =
    Some (9, ([53, 7] @ [0, 1, 116, 0, 7, 104, 105]) @ drop 9 b,
      create_network_server willing_sockets (sample_impl\<lparr>read_fds := [3]\<rparr>), arriving\<lparr>to_client := []\<rparr>)"
proof -
  have "rx_limit \<le> length b" using assms by (simp add: rx_limit_def BUFFER_SIZE_def)
  from network_receive_framed [OF willing_laws(3) this, where api = willing_sockets and h = 53 and l = 7 and
      body = "[0, 1, 116, 0, 7, 104, 105]" and w = arriving and n = n]
  show ?thesis
    by (simp add: server_receive_def create_network_server_def willing_sockets_def peer_sockets_def peer_recv_def
        sample_impl_def arriving_def)
qed

lemma arriving_run:
  obtains c g t rb where "start_session_thread sample_memory (sample_mt willing_server) 10 1024 willing_server
      arriving_env = Some (True, c, g)" "mt_steps (initial_system c g) t"
    "snd (mt_env.outside (env t)) = [Rx 9 rb, Tx (ack_wire (PACK_MESSAGE_TYPE PUBREC) 7) SMQTT_NET_OK]"
    "qos2_received (Rx 9 rb) = [([116, 0], [104, 105, 0], True)]" "calls (env t) = []"
proof (rule sample_started [of willing_server 10 "(arriving, [])", folded arriving_env_def])
  fix c :: "(server_impl_t, peer \<times> event list) smqtt_mt_client" and g
  let ?s = "create_network_server willing_sockets sample_impl"
  let ?w = "publish_wire ([116], 7, QoS2, True, Some [104, 105])"
  let ?rb = "?w @ drop (length ?w) (smqtt_mt_client.receive_buffer c)"
  let ?c = "c\<lparr>smqtt_mt_client.receive_buffer := ?rb\<rparr>"
  assume st: "start_session_thread sample_memory (sample_mt willing_server) 10 1024 willing_server
      arriving_env = Some (True, c, g)"
    and a: "session_at c g (map of_nat [0..<unat (10 :: slot_index_t)]) [] []"
    and k: "smqtt_mt_client.server c = willing_server" "calls g = []" "mt_env.outside g = (arriving, [])"
      "length (smqtt_mt_client.receive_buffer c) = BUFFER_SIZE" "msg_callback c = Some 9"
  have ok: "session_ok ?s c g [] []" using a k by (simp add: session_ok_def session_at_def willing_server_def)
  have "length ?w \<le> BUFFER_SIZE" by (simp add: arriving_wire BUFFER_SIZE_def)
  note rcv = arrived [OF ok this]
  have "publish_decodable ([116], 7, QoS2, True, Some [104, 105])" by (simp add: sample_decodable del: publish_decodable.simps)
  then obtain d where
    "deserialize_response (smqtt_mt_client.receive_buffer ?c) (length ?w) = Some (Some (Publish_body d))" "p_qos d = QoS2"
    "p_retain d = True" "p_packet_id d = (if QoS1 \<le> QoS2 then 7 else 0)"
    "shows_string (smqtt_mt_client.receive_buffer ?c) (p_topic_size d, p_topic d) [116]" "4 \<le> p_topic d"
    "shows_string (smqtt_mt_client.receive_buffer ?c) (p_message_size d, p_message d) [104, 105]" "4 \<le> p_message d"
    using parsed_publish [OF rcv(1) _ rcv(2)] by metis
  then have p: "deserialize_response ?rb (length ?w) = Some (Some (Publish_body d))" "p_qos d = QoS2" "p_retain d = True"
      "p_packet_id d = 7" "shows_string ?rb (p_topic_size d, p_topic d) [116]"
      "shows_string ?rb (p_message_size d, p_message d) [104, 105]" by simp_all
  have w: "length ?w = 9" by (simp add: arriving_wire)
  have d: "deserialize_response ?rb (nat 9) = Some (Some (Publish_body d))" "p_packet_id d = 7"
    using p(1,4) w by simp_all
  have strings: "publish_strings ?rb d = Some ([116, 0], [104, 105, 0])"
    using shown_strings [OF p(5,6)] by (simp add: sample_strings)
  have recv: "server_receive ?s (smqtt_mt_client.receive_buffer c) (buffer_size c) (fst (mt_env.outside g)) =
      Some (9, ?rb, create_network_server willing_sockets (sample_impl\<lparr>read_fds := [3]\<rparr>), arriving\<lparr>to_client := []\<rparr>)"
    unfolding w using arriving_received [OF k(4)] k(3) by (simp only: arriving_wire fst_conv)
  have rel: "reliable (create_network_server willing_sockets (sample_impl\<lparr>read_fds := [3]\<rparr>))"
    by (rule willing.network_up(2)) (simp add: fd_live_def sample_impl_def FD_SETSIZE_def)
  have "length ?rb = BUFFER_SIZE" using k(4) by (simp add: arriving_wire BUFFER_SIZE_def)
  from receive_effect [OF ok rel recv _ _ this d(1)] obtain q c1 g1 where
    h: "session_receive c g = Some (q, c1, g1)" "calls g1 = []"
      "snd (mt_env.outside g1) = [Rx 9 ?rb, Tx (ack_wire (PACK_MESSAGE_TYPE PUBREC) 7) SMQTT_NET_OK]"
    using d(2) p(2) strings k(2) by (auto simp: has_effect_def publish_spec_def held_message_def session_ok_def rx_limit_def)
  have "session_take c g = Some (False, None, c, g)"
  proof -
    have "send_queue c = init_queue" "\<not> ready_to_disconnect c"
      using st by (auto simp: start_session_thread_def Let_def Option.bind_eq_Some_conv)
    then show ?thesis by (cases c, cases g) (simp add: session_take_def dequeue_def init_queue_def)
  qed
  then have "mt_step (initial_system c g) ((initial_system c g)\<lparr>cl := c, env := g, pc := Receiving\<rparr>)"
    by (intro mt_step.take_none) (simp_all add: initial_system_def)
  moreover note mt_step.receive [of "(initial_system c g)\<lparr>cl := c, env := g, pc := Receiving\<rparr>" q c1 g1]
  ultimately have t: "mt_steps (initial_system c g) ((initial_system c g)\<lparr>cl := c1, env := g1,
      pc := (case q of None \<Rightarrow> At_top | Some w \<Rightarrow> Requeueing w)\<rparr>)"
    using h(1) steps2 by (fastforce simp: initial_system_def)
  have "qos2_received (Rx 9 ?rb) = [([116, 0], [104, 105, 0], True)]"
    using d p(2,3) strings by (simp add: qos2_received_def)
  then show thesis using h(2,3) by (intro that [OF st t, of ?rb]) simp_all
qed

subsection \<open>Refinement\<close>

text \<open>C2: the multithreaded client over the network refines the abstract session. Take any sockets on which \<^verbatim>\<open>recv\<close> keeps its
  documented result and \<^verbatim>\<open>send\<close> takes everything or reports an error, start the session thread, and let callers and session
  thread interleave in any way, with any packets arriving: there is a run of the abstract machine with exactly the same
  packets exchanged, the same callbacks in the same order, the same requests waiting, and as pending packets exactly those
  submitted and not yet sent.\<close>

theorem system_refines_session:
  assumes "posix_sockets api" "\<forall>fd bs w. fst (sk_send api fd bs w) \<in> {int (length bs), -1}" "fd_live im"
    "memory_ok m (unat n) BUFFER_SIZE (slot_heap g)"
    "start_session_thread m c n sz (traced (create_network_server api im)) g = Some (r, c', g')"
    "mt_steps (initial_system c' g') t"
  shows "\<exists>x. session_steps (msg_callback c) (msg_cb_context c) (session_start g (snd (mt_env.outside g))) x \<and>
    wire x = snd (mt_env.outside (env t)) \<and> callbacks x = calls (env t) \<and> acks_at (cl t) (env t) (requests x) \<and>
    submitted t = transmitted t @ pending x \<and> upcoming x = next_request (pc t)"
  by (rule network_session [OF assms])

theorem system_refines_session_witness:
  "\<exists>(t :: (server_impl_t, peer \<times> event list) mt_system) x. session_steps (Some 9) 8 (session_start arriving_env []) x \<and>
    wire x = snd (mt_env.outside (env t)) \<and> length (wire x) = 2 \<and> callbacks x = calls (env t) \<and> acks_at (cl t) (env t) (requests x)"
proof (rule arriving_run)
  fix c g t rb
  assume st: "start_session_thread sample_memory (sample_mt willing_server) 10 1024 willing_server
      arriving_env = Some (True, c, g)" and t: "mt_steps (initial_system c g) t"
    and l: "snd (mt_env.outside (env t)) = [Rx 9 rb, Tx (ack_wire (PACK_MESSAGE_TYPE PUBREC) 7) SMQTT_NET_OK]"
  have p: "msg_callback (sample_mt s) = Some 9" "msg_cb_context (sample_mt s) = 8" "mt_env.outside arriving_env = (arriving, [])"
    for s :: "(server_impl_t, peer \<times> event list) server_t"
    by (simp_all add: sample_mt_def sample_mt_env_def arriving_env_def)
  from system_refines_session [OF willing_laws arriving_memory st [unfolded willing_server_def] t, unfolded p snd_conv]
  obtain x where "session_steps (Some 9) 8 (session_start arriving_env []) x"
    "wire x = snd (mt_env.outside (env t))" "callbacks x = calls (env t)" "acks_at (cl t) (env t) (requests x)"
    by (elim exE conjE) (rule that, assumption+)
  with l show ?thesis by (intro exI [of _ t] exI [of _ x]) simp
qed

subsection \<open>Exactly once\<close>

text \<open>C4: messages of quality 2 are conserved. At every moment of every interleaving, the messages passed to the message callback
  at quality 2 and those the client still holds for a PUBREL are together, with multiplicities, exactly those of the PUBLISH
  packets of quality 2 that were received and handled: none is lost, none is invented, and none is delivered twice for one packet.\<close>

theorem qos2_messages_conserved:
  assumes "posix_sockets api" "\<forall>fd bs w. fst (sk_send api fd bs w) \<in> {int (length bs), -1}" "fd_live im"
    "memory_ok m (unat n) BUFFER_SIZE (slot_heap g)"
    "start_session_thread m c n sz (traced (create_network_server api im)) g = Some (r, c', g')"
    "mt_steps (initial_system c' g') t" "snd (mt_env.outside g) = []" "calls g = []" "msg_callback c = Some f"
  shows "\<exists>ws. acks_at (cl t) (env t) ws \<and>
    tally qos2_delivered (calls (env t)) + tally qos2_held (ws @ requeued (next_request (pc t))) =
      tally qos2_received (snd (mt_env.outside (env t)))"
proof -
  from network_session [OF assms(1-6)] obtain x where
    x: "session_steps (msg_callback c) (msg_cb_context c) (session_start g (snd (mt_env.outside g))) x"
    "wire x = snd (mt_env.outside (env t))" "callbacks x = calls (env t)" "acks_at (cl t) (env t) (requests x)"
    "upcoming x = next_request (pc t)" by blast
  from session_conserves [OF x(1) [unfolded assms(9)]] assms(7,8) x show ?thesis
    by (auto simp: session_start_def)
qed

theorem qos2_messages_conserved_witness:
  "\<exists>(t :: (server_impl_t, peer \<times> event list) mt_system) ws. acks_at (cl t) (env t) ws \<and> calls (env t) = [] \<and>
    tally qos2_held (ws @ requeued (next_request (pc t))) = {#([116, 0], [104, 105, 0], True)#}"
proof (rule arriving_run)
  fix c g t rb
  assume st: "start_session_thread sample_memory (sample_mt willing_server) 10 1024 willing_server
      arriving_env = Some (True, c, g)" and t: "mt_steps (initial_system c g) t"
    and l: "snd (mt_env.outside (env t)) = [Rx 9 rb, Tx (ack_wire (PACK_MESSAGE_TYPE PUBREC) 7) SMQTT_NET_OK]"
      "qos2_received (Rx 9 rb) = [([116, 0], [104, 105, 0], True)]" "calls (env t) = []"
  from qos2_messages_conserved [OF willing_laws arriving_memory st [unfolded willing_server_def] t, of 9] l show ?thesis
    by (fastforce simp: sample_mt_def sample_mt_env_def arriving_env_def)
qed

end
