(* ===== verification/MT_Order.thy ===== *)
theory MT_Order
  imports MT_Machine
begin

section \<open>What the session thread hands to the transport\<close>

text \<open>
  The packets the transport is given, whatever it does with them: those submitted through slots, and the acknowledgements
  the session thread builds itself when it handles a packet. The log of a traced transport is a shuffle of the two,
  in which the first are a prefix of what was submitted.
\<close>

subsection \<open>Packets in a log\<close>

fun packet_sent :: "event \<Rightarrow> bytes list" where
  "packet_sent (Tx p st) = [p]"
| "packet_sent (Rx sz b) = []"

definition packets_sent :: "event list \<Rightarrow> bytes list" where
  "packets_sent l = concat (map packet_sent l)"

lemma packets_sent_simps [simp]:
  "packets_sent [] = []" "packets_sent (e # l) = packet_sent e @ packets_sent l"
  "packets_sent (l @ l') = packets_sent l @ packets_sent l'"
  by (simp_all add: packets_sent_def)

lemma shuffles_append:
  "\<lbrakk>zs \<in> shuffles xs ys; zs' \<in> shuffles xs' ys'\<rbrakk> \<Longrightarrow> zs @ zs' \<in> shuffles (xs @ xs') (ys @ ys')"
proof (induction zs arbitrary: xs ys)
  case (Cons z zs)
  from Cons.prems(1) have "(\<exists>us. xs = z # us \<and> zs \<in> shuffles us ys) \<or> (\<exists>us. ys = z # us \<and> zs \<in> shuffles xs us)"
    by (auto simp: Cons_in_shuffles_iff neq_Nil_conv)
  with Cons.IH Cons.prems(2) show ?case
    by (elim disjE exE conjE) (simp_all add: Cons_in_shuffles_leftI Cons_in_shuffles_rightI)
qed simp

subsection \<open>Replies\<close>

text \<open>The acknowledgements of the protocol, and the steps that hand over nothing else.\<close>

definition acknowledgement :: "bytes \<Rightarrow> bool" where
  "acknowledgement p \<longleftrightarrow> (\<exists>i :: u16. p \<in> {ack_wire (PACK_MESSAGE_TYPE PUBACK) i, ack_wire (PACK_MESSAGE_TYPE PUBREC) i,
     ack_wire (PACK_MESSAGE_TYPE PUBREL OR 2) i, ack_wire (PACK_MESSAGE_TYPE PUBCOMP) i})"

definition only_replies ::
  "('i, 'w \<times> event list) smqtt_mt_client \<Rightarrow> ('w \<times> event list) mt_env \<Rightarrow> ('i, 'w \<times> event list) smqtt_mt_client \<Rightarrow>
    ('w \<times> event list) mt_env \<Rightarrow> bool" where
  "only_replies c g c' g' \<longleftrightarrow> (\<forall>s. server c = traced s \<longrightarrow>
     (\<exists>s' es. server c' = traced s' \<and> snd (outside g') = snd (outside g) @ es \<and> (\<forall>p \<in> set (packets_sent es). acknowledgement p)))"

lemma only_replies_same: "\<lbrakk>server c' = server c; outside g' = outside g\<rbrakk> \<Longrightarrow> only_replies c g c' g'"
  by (auto simp: only_replies_def intro: exI [of _ "[]"])

lemma only_replies_trans: "\<lbrakk>only_replies c g c1 g1; only_replies c1 g1 c2 g2\<rbrakk> \<Longrightarrow> only_replies c g c2 g2"
  unfolding only_replies_def by (metis (no_types, lifting) Un_iff append.assoc packets_sent_simps(3) set_append)

lemma reply_only:
  assumes "session_reply mk c g = Some (st, c', g')" "builds mk w" "acknowledgement w"
  shows "only_replies c g c' g'"
  unfolding only_replies_def
proof (intro allI impI)
  fix s
  assume s: "server c = traced s"
  have l: "length w = 4" using assms(3) by (auto simp: acknowledgement_def)
  obtain w0 l0 where o: "outside g = (w0, l0)" by (cases "outside g")
  from assms(1,2) l s o obtain b st' s' w' where
    "server_send s b (of_nat (length w)) w0 = Some (st', s', w')" "b = w @ drop (length w) (receive_buffer c)"
    "c' = c\<lparr>receive_buffer := b, server := traced s'\<rparr>"
    "g' = g\<lparr>outside := (w', l0 @ [Tx (take (unat (of_nat (length w) :: size_t)) b) st'])\<rparr>"
    by (auto simp: session_reply_def builds_def stored_def traced_send Option.bind_eq_Some_conv split: if_splits)
  with assms(3) o l show "\<exists>s' es. server c' = traced s' \<and> snd (outside g') = snd (outside g) @ es \<and>
      (\<forall>p \<in> set (packets_sent es). acknowledgement p)" by auto
qed

lemma acks_are_acknowledgements [simp]:
  "acknowledgement (ack_wire (PACK_MESSAGE_TYPE PUBACK) (i :: u16))" "acknowledgement (ack_wire (PACK_MESSAGE_TYPE PUBREC) (i :: u16))"
  "acknowledgement (ack_wire (PACK_MESSAGE_TYPE PUBREL OR 2) (i :: u16))"
  "acknowledgement (ack_wire (PACK_MESSAGE_TYPE PUBCOMP) (i :: u16))"
  by (auto simp: acknowledgement_def)

text \<open>Every handler, by the parts it is composed of.\<close>

definition replies :: "('i, 'w \<times> event list) smqtt_mt_client \<Rightarrow> ('w \<times> event list) mt_env \<Rightarrow>
    ('a \<times> ('i, 'w \<times> event list) smqtt_mt_client \<times> ('w \<times> event list) mt_env) option \<Rightarrow> bool" where
  "replies c g res \<longleftrightarrow> (\<forall>r c' g'. res = Some (r, c', g') \<longrightarrow> only_replies c g c' g')"

lemma replies_end: "\<lbrakk>server c' = server c; outside g' = outside g\<rbrakk> \<Longrightarrow> replies c g (Some (r, c', g'))"
  by (auto simp: replies_def intro: only_replies_same)

lemma replies_None [simp]: "replies c g None"
  by (simp add: replies_def)

lemma replies_found:
  assumes "\<And>w c' g'. replies c' g' (k w c' g')"
  shows "replies c g (Option.bind (take_waiting t i c g) (\<lambda>(found, waiting, c, g).
    if found then Option.bind waiting (\<lambda>w. k w c g) else Some (None, c, g)))"
proof (cases "take_waiting t i c g")
  case (Some r)
  obtain f m c' g' where r: "r = (f, m, c', g')" by (cases r)
  with Some have e: "server c' = server c" "outside g' = outside g"
    by (auto simp: take_waiting_def Option.bind_eq_Some_conv)
  show ?thesis
  proof (cases "f \<and> m \<noteq> None")
    case True
    then obtain w where "m = Some w" by auto
    with True assms [of c' g' w] Some r e show ?thesis by (auto simp: replies_def only_replies_def)
  next
    case False
    with Some r e show ?thesis by (cases f) (auto intro: replies_end)
  qed
qed simp

lemma replies_reply:
  assumes "builds mk w" "acknowledgement w"
    and "\<And>st c' g'. replies c' g' (k st c' g')"
  shows "replies c g (Option.bind (session_reply mk c g) (\<lambda>(st, c, g). k st c g))"
proof (cases "session_reply mk c g")
  case (Some r)
  obtain st c' g' where r: "r = (st, c', g')" by (cases r)
  with Some reply_only [OF _ assms(1,2)] have "only_replies c g c' g'" by blast
  with assms(3) [of c' g' st] Some r show ?thesis
    by (auto simp: replies_def intro: only_replies_trans)
qed simp

lemma callbacks_outside [simp]: "outside (message_callback c topic msg qos retain g) = outside g"
  by (simp add: message_callback_def split: option.split)

lemma replies_callback: "replies c g (Option.bind (request_callback w g) (\<lambda>g. Some (r, c, g)))"
  by (auto simp: request_callback_def replies_def Option.bind_eq_Some_conv intro: only_replies_same)

lemma replies_deliver: "replies c g (Option.bind (maybe_deliver_message c d g) (\<lambda>g. Some (r, c, g)))"
  by (auto simp: maybe_deliver_message_def replies_def Option.bind_eq_Some_conv intro!: only_replies_same split: if_splits)

lemma replies_copies:
  "(\<And>x. replies c g (k x)) \<Longrightarrow> replies c g (Option.bind (copy_publish_topic c' d) k)"
  "(\<And>x. replies c g (k x)) \<Longrightarrow> replies c g (Option.bind (copy_publish_msg c' d) k)"
  by (cases "copy_publish_topic c' d", simp_all) (cases "copy_publish_msg c' d", simp_all)

lemma handle_response_replies: "replies c g (handle_response r c g)"
proof (cases r)
  case (Publish_body d)
  show ?thesis
    unfolding Publish_body handle_response.simps handle_publish_def Let_def
    by (auto intro!: replies_deliver replies_end replies_copies replies_reply [OF builds_fixed(1)] replies_reply [OF builds_fixed(2)])
next
  case (Pubrec_body i)
  show ?thesis
    unfolding Pubrec_body handle_response.simps handle_pubrec_def
    by (rule replies_found) (auto intro!: replies_end replies_reply [OF builds_fixed(3)])
next
  case (Pubrel_body i)
  show ?thesis
    unfolding Pubrel_body handle_response.simps handle_pubrel_def
    by (rule replies_found) (auto intro!: replies_end replies_reply [OF builds_fixed(4)] split: waiting_data.split)
next
  case (Suback_body d)
  show ?thesis
    unfolding Suback_body handle_response.simps handle_suback_def
    by (rule replies_found) (auto intro!: replies_end split: waiting_data.split option.split)
next
  case (Unsuback_body i)
  show ?thesis
    unfolding Unsuback_body handle_response.simps handle_unsuback_def
    by (rule replies_found) (auto intro!: replies_end replies_callback)
qed (auto simp: complete_waiting_def intro!: replies_found replies_end replies_callback)

lemma session_receive_replies: "replies c g (session_receive c g)"
  unfolding replies_def
proof (intro allI impI)
  fix q c' g'
  assume r: "session_receive c g = Some (q, c', g')"
  show "only_replies c g c' g'"
  proof (cases "\<exists>s. server c = traced s")
    case False
    then show ?thesis by (auto simp: only_replies_def)
  next
    case True
    then obtain s where s: "server c = traced s" ..
    obtain w l where o: "outside g = (w, l)" by (cases "outside g")
    from r s o obtain sz b s' w' where
      n: "server_receive s (receive_buffer c) (buffer_size c) w = Some (sz, b, s', w')"
      by (auto simp: session_receive_def traced_receive Option.bind_eq_Some_conv)
    let ?c = "c\<lparr>receive_buffer := b, server := traced s'\<rparr>" and ?g = "g\<lparr>outside := (w', l @ [Rx sz b])\<rparr>"
    have "only_replies c g ?c ?g" using s o by (auto simp: only_replies_def intro!: exI [of _ "[Rx sz b]"])
    moreover have "only_replies ?c ?g c' g'"
    proof (cases "0 < sz")
      case True
      with r n s o obtain p where "handle_response p ?c ?g = Some (q, c', g')"
        by (auto simp: session_receive_def traced_receive Let_def Option.bind_eq_Some_conv)
      with handle_response_replies [of ?c ?g p] show ?thesis by (simp add: replies_def)
    next
      case False
      with r n s o show ?thesis by (auto simp: session_receive_def traced_receive Let_def intro!: only_replies_same)
    qed
    ultimately show ?thesis by (rule only_replies_trans)
  qed
qed

subsection \<open>All interleavings\<close>

definition log_in_order :: "('i, 'w \<times> event list) mt_system \<Rightarrow> bool" where
  "log_in_order t \<longleftrightarrow> (\<exists>s. server (cl t) = traced s) \<and>
     (\<exists>rs. packets_sent (snd (outside (env t))) \<in> shuffles (transmitted t) rs \<and> (\<forall>p \<in> set rs. acknowledgement p))"

lemma log_same:
  assumes "log_in_order t" "server (cl u) = server (cl t)" "outside (env u) = outside (env t)" "transmitted u = transmitted t"
  shows "log_in_order u"
  using assms by (simp add: log_in_order_def)

lemma log_view: "\<lbrakk>log_in_order t; same_view t u; transmitted u = transmitted t\<rbrakk> \<Longrightarrow> log_in_order u"
  by (rule log_same) (simp_all add: same_view_def)

lemma log_send:
  assumes "log_in_order t" "session_send p (cl t) (env t) = Some (c, g)"
  shows "log_in_order (t\<lparr>cl := c, env := g, pc := k, transmitted := transmitted t @ [slot_packet (cl t) p]\<rparr>)"
proof -
  from assms(1) obtain s rs where s: "server (cl t) = traced s"
    and rs: "packets_sent (snd (outside (env t))) \<in> shuffles (transmitted t) rs" "\<forall>p \<in> set rs. acknowledgement p"
    by (auto simp: log_in_order_def)
  obtain w l where o: "outside (env t) = (w, l)" by (cases "outside (env t)")
  let ?n = "ucast (message_length (buffer_slots (cl t) ! unat p)) :: size_t"
  from assms(2) s o obtain st s' w' where
    "c = (cl t)\<lparr>server := traced s'\<rparr>"
    "g = (env t)\<lparr>outside := (w', l @ [Tx (take (unat ?n) (buffer (buffer_slots (cl t) ! unat p))) st])\<rparr>"
    by (auto simp: session_send_def list_get_eq_Some traced_send Option.bind_eq_Some_conv)
  moreover have "take (unat ?n) (buffer (buffer_slots (cl t) ! unat p)) = slot_packet (cl t) p"
    by (simp add: slot_packet_def Let_def unat_ucast_up)
  moreover have "packets_sent l @ [slot_packet (cl t) p] \<in> shuffles (transmitted t @ [slot_packet (cl t) p]) (rs @ [])"
    using rs(1) o by (intro shuffles_append) simp_all
  ultimately show ?thesis using rs(2) by (auto simp: log_in_order_def)
qed

lemma log_receive:
  assumes "log_in_order t" "session_receive (cl t) (env t) = Some (q, c, g)"
  shows "log_in_order (t\<lparr>cl := c, env := g, pc := k\<rparr>)"
proof -
  from assms(1) obtain s rs where s: "server (cl t) = traced s"
    and rs: "packets_sent (snd (outside (env t))) \<in> shuffles (transmitted t) rs" "\<forall>p \<in> set rs. acknowledgement p"
    by (auto simp: log_in_order_def)
  from session_receive_replies [of "cl t" "env t"] assms(2) s obtain s' es where
    e: "server c = traced s'" "snd (outside g) = snd (outside (env t)) @ es" "\<forall>p \<in> set (packets_sent es). acknowledgement p"
    unfolding replies_def only_replies_def by blast
  have "packets_sent (snd (outside (env t))) @ packets_sent es \<in> shuffles (transmitted t @ []) (rs @ packets_sent es)"
    using rs(1) by (intro shuffles_append) simp_all
  with e rs(2) show ?thesis
    by (auto simp: log_in_order_def intro!: exI [of _ "rs @ packets_sent es"])
qed

lemma log_step:
  assumes "mt_step t u" "log_in_order t"
  shows "log_in_order u"
  using assms(1)
proof cases
  case (acquire p c g)
  show ?thesis using log_view [OF assms(2) silent_views [OF acquire(3)]] acquire(1) by simp
next
  case spin
  then show ?thesis using log_same [OF assms(2)] by simp
next
  case (fill p slot b)
  show ?thesis using log_view [OF assms(2) fill_view [OF fill(3,4)]] fill(1) by simp
next
  case number
  then show ?thesis using log_same [OF assms(2)] by simp
next
  case (register a w st c g)
  then show ?thesis
    using log_same [OF assms(2), of u] by (auto simp: enqueue_waiting_def Option.bind_eq_Some_conv)
next
  case (submit p a len st c g)
  show ?thesis using log_view [OF assms(2) submit_view [OF submit(5)]] submit(1) by simp
next
  case signal
  then show ?thesis using log_same [OF assms(2)] by (simp add: signal_disconnect_def)
next
  case (take_end r c g)
  show ?thesis using log_view [OF assms(2) take_view [OF take_end(3,4)]] take_end(1) by simp
next
  case (take_none c g)
  show ?thesis using log_view [OF assms(2) take_view [OF take_none(3,4)]] take_none(1) by simp
next
  case (take_slot p c g)
  show ?thesis using log_view [OF assms(2) take_view [OF take_slot(3,4)]] take_slot(1) by simp
next
  case (send p c g)
  show ?thesis unfolding send(1) by (rule log_send [OF assms(2) send(3)])
next
  case (return p a c g)
  show ?thesis using log_view [OF assms(2) return_view [OF return(3,5)]] return(1) by simp
next
  case (receive q c g)
  show ?thesis unfolding receive(1) by (rule log_receive [OF assms(2) receive(3)])
next
  case (requeue w a st c g)
  then show ?thesis
    using log_same [OF assms(2), of u] by (auto simp: enqueue_waiting_def Option.bind_eq_Some_conv)
qed

lemma log_steps: "\<lbrakk>mt_steps t u; log_in_order t\<rbrakk> \<Longrightarrow> log_in_order u"
  by (induction rule: rtranclp_induct) (auto intro: log_step)

text \<open>Taking the first submitted slot, on the state read as lists.\<close>

lemma session_takes:
  assumes "session_at c g fs ss ws" "\<not> ready_to_disconnect c"
  shows "\<exists>q h. session_take c g = Some (False, (case ss of [] \<Rightarrow> None | p # _ \<Rightarrow> Some p), c\<lparr>send_queue := q\<rparr>, g\<lparr>slot_heap := h\<rparr>) \<and>
    session_at (c\<lparr>send_queue := q\<rparr>) (g\<lparr>slot_heap := h\<rparr>) fs (tl ss) ws \<and> (\<forall>a. slot_heap g a = None \<longrightarrow> h a = None)"
proof -
  from assms(1) have p: "pool_at (slot_heap g) (send_queue c) (free_queue c) ss fs"
    by (auto simp: session_at_def intro: pool.both_sym)
  have "\<exists>q h. dequeue (send_queue c) (slot_heap g) = Some ((case ss of [] \<Rightarrow> None | p # _ \<Rightarrow> Some p), q, h) \<and>
      pool_at h (free_queue c) q fs (tl ss)"
  proof (cases ss)
    case Nil
    with p have "dequeue (send_queue c) (slot_heap g) = Some (None, send_queue c, slot_heap g)"
      by (intro pool.deq_both_none [of _ _ "free_queue c" fs]) simp
    with p Nil show ?thesis by (auto intro: pool.both_sym)
  next
    case (Cons x xs)
    with pool.deq_both_some [of "slot_heap g" "send_queue c" "free_queue c" x xs fs] p
    show ?thesis by (auto intro: pool.both_sym)
  qed
  then obtain q h where d: "dequeue (send_queue c) (slot_heap g) = Some ((case ss of [] \<Rightarrow> None | p # _ \<Rightarrow> Some p), q, h)"
    "pool_at h (free_queue c) q fs (tl ss)" by blast
  with assms dequeue_fresh [OF d(1)] show ?thesis
    by (intro exI [of _ q] exI [of _ h]) (simp add: session_take_def session_at_def)
qed

text \<open>C6: what the session thread hands to the transport is what the callers submitted. In every interleaving, over any transport, the packets
  given to \<^verbatim>\<open>server_send\<close> are a shuffle of two sequences: acknowledgements (PUBACK, PUBREC, PUBREL, PUBCOMP) that the session
  thread builds itself, and the packets submitted through slots, in the order of submission and unchanged. Those submitted and
  not yet handed over are exactly the one about to be sent and the contents of the slots in the send queue.\<close>

theorem packets_sent_in_order:
  assumes "memory_ok m (unat n) k (slot_heap g)" "start_session_thread m c n sz (traced s) g = Some (r, c', g')"
    "snd (outside g) = []" "mt_steps (initial_system c' g') t"
  shows "\<exists>fs ss handed replies. pool_at (slot_heap (env t)) (free_queue (cl t)) (send_queue (cl t)) fs ss \<and>
    submitted t = handed @ map (slot_packet (cl t)) (unsent (pc t) @ ss) \<and>
    packets_sent (snd (outside (env t))) \<in> shuffles handed replies \<and> (\<forall>p \<in> set replies. acknowledgement p)"
proof -
  have "log_in_order (initial_system c' g')"
    using assms(2,3)
    by (auto simp: log_in_order_def initial_system_def start_session_thread_def Let_def Option.bind_eq_Some_conv)
  from log_steps [OF assms(4) this] obtain replies where
    "packets_sent (snd (outside (env t))) \<in> shuffles (transmitted t) replies" "\<forall>p \<in> set replies. acknowledgement p"
    by (auto simp: log_in_order_def)
  with reachable_slots [OF assms(1,2,4)] show ?thesis unfolding slots_inv_def by metis
qed

theorem packets_sent_in_order_witness:
  "\<exists>(c :: (unit, bytes list \<times> event list) smqtt_mt_client) g t ss handed replies.
    start_session_thread sample_memory (sample_mt (traced scripted)) 2 1024 (traced scripted) (sample_mt_env ([], [])) =
      Some (True, c, g) \<and> mt_steps (initial_system c g) t \<and>
    snd (outside (env t)) = [Tx [PACK_MESSAGE_TYPE PINGREQ, 0] SMQTT_NET_OK] \<and> submitted t = [[PACK_MESSAGE_TYPE PINGREQ, 0]] \<and>
    submitted t = handed @ map (slot_packet (cl t)) (unsent (pc t) @ ss) \<and>
    packets_sent (snd (outside (env t))) \<in> shuffles handed replies"
proof (rule sample_started [of "traced scripted" 2 "([], [])"])
  fix c :: "(unit, bytes list \<times> event list) smqtt_mt_client" and g
  let ?ping = "[PACK_MESSAGE_TYPE PINGREQ, 0]"
  assume st: "start_session_thread sample_memory (sample_mt (traced scripted)) 2 1024 (traced scripted) (sample_mt_env ([], [])) =
      Some (True, c, g)" and a: "session_at c g (map of_nat [0..<unat (2 :: slot_index_t)]) [] []"
    and k: "connected c" "ack_heap g = (\<lambda>_. None)" "server c = traced scripted" "outside g = ([], [])"
      "\<And>a. unat (2 :: slot_index_t) \<le> a \<Longrightarrow> slot_heap g a = None"
  have "map of_nat [0..<unat (2 :: slot_index_t)] = [0, 1 :: slot_index_t]" by (simp add: upt_rec)
  with a have a: "session_at c g [0, 1] [] []" by simp
  have "slot_heap g 2 = None" by (rule k(5)) simp
  from mt_ping_request [OF a k(1) _ this, of 5 0 "Some 1" 2] k(2) obtain c1 g1 where
    p: "submits (c, g) ?ping c1 g1" "session_at c1 g1 [1] [0] [\<lparr>wtype = PINGRESP, callback = Some 1, cb_context = 2, wdata = No_data\<rparr>]"
      "same_session (c, g) (c1, g1)" "slot_packet c1 0 = ?ping"
    by (auto simp: request_done_def)
  let ?t1 = "(initial_system c g)\<lparr>cl := c1, env := g1, submitted := [?ping]\<rparr>"
  have t1: "mt_steps (initial_system c g) ?t1"
    using submits_run [of "initial_system c g"] p(1) by (simp add: initial_system_def)
  have "\<not> ready_to_disconnect c1"
    using st p(3) by (auto simp: start_session_thread_def Let_def Option.bind_eq_Some_conv same_session_def)
  from session_takes [OF p(2) this] obtain q h where
    tk: "session_take c1 g1 = Some (False, Some 0, c1\<lparr>send_queue := q\<rparr>, g1\<lparr>slot_heap := h\<rparr>)" by auto
  let ?c = "c1\<lparr>send_queue := q\<rparr>" and ?g = "g1\<lparr>slot_heap := h\<rparr>"
  let ?t2 = "?t1\<lparr>cl := ?c, env := ?g, pc := Sending 0\<rparr>"
  have t2: "mt_step ?t1 ?t2" by (rule mt_step.take_slot) (simp_all add: initial_system_def tk)
  have "list_get (buffer_slots c1) 0 = Some (buffer_slots c1 ! 0)"
    using p(3) a by (intro list_get_in) (auto simp: same_session_def session_at_def)
  moreover have "take (unat (message_length (buffer_slots c1 ! 0))) (buffer (buffer_slots c1 ! 0)) = ?ping"
    using p(4) by (simp add: slot_packet_def Let_def)
  moreover have "server c1 = traced scripted" "outside g1 = ([], [])" using p(3) k(3,4) by (simp_all add: same_session_def)
  moreover from this have "?c\<lparr>server := traced scripted\<rparr> = ?c" by (cases c1) simp
  ultimately have "session_send 0 ?c ?g = Some (?c, ?g\<lparr>outside := ([], [Tx ?ping SMQTT_NET_OK])\<rparr>)"
    by (simp add: session_send_def traced_send unat_ucast_up)
  then have "mt_step ?t2 (?t2\<lparr>cl := ?c, env := ?g\<lparr>outside := ([], [Tx ?ping SMQTT_NET_OK])\<rparr>, pc := Returning 0,
      transmitted := transmitted ?t2 @ [slot_packet (cl ?t2) 0]\<rparr>)" (is "mt_step _ ?t3")
    by (intro mt_step.send) simp_all
  then have t3: "mt_steps (initial_system c g) ?t3" using t1 t2 by (meson rtranclp.rtrancl_into_rtrancl)
  have "snd (outside (sample_mt_env ([], []))) = ([] :: event list)" by (simp add: sample_mt_env_def)
  from packets_sent_in_order [OF sample_memory_ok st this t3] obtain fs ss handed replies where
    "submitted ?t3 = handed @ map (slot_packet (cl ?t3)) (unsent (pc ?t3) @ ss)"
    "packets_sent (snd (outside (env ?t3))) \<in> shuffles handed replies" by (elim exE conjE)
  with st t3 show ?thesis
    by (intro exI [of _ c] exI [of _ g] exI [of _ ?t3] exI [of _ ss]) (simp, blast)
qed

end
