(* ===== verification/MT_Progress.thy ===== *)
theory MT_Progress
  imports MT_System MT_Order
begin

section \<open>Progress of the session thread\<close>

text \<open>
  As long as nothing arrives that it has to handle, every iteration of the session loop sends the first packet that was
  submitted and frees its slot, so after as many iterations as there are such packets all are sent.
\<close>

subsection \<open>Returning a slot\<close>

lemma session_returns:
  assumes "session_at c g fs ss ws" "slot_heap g a = None" "unat p < length (buffer_slots c)"
  shows "\<exists>q h. session_return a p c g = Some (c\<lparr>free_queue := q\<rparr>, g\<lparr>slot_heap := h\<rparr>) \<and>
    session_at (c\<lparr>free_queue := q\<rparr>) (g\<lparr>slot_heap := h\<rparr>) (fs @ [p]) ss ws \<and>
    (\<forall>b. b \<noteq> a \<longrightarrow> slot_heap g b = None \<longrightarrow> h b = None)"
proof -
  from assms(1) have "pool_at (slot_heap g) (free_queue c) (send_queue c) fs ss" by (simp add: session_at_def)
  from pool.enq_both [OF this assms(2), of p] obtain q h where
    e: "enqueue a (free_queue c) p (slot_heap g) = Some (q, h)" "pool_at h q (send_queue c) (fs @ [p]) ss" by blast
  with assms enqueue_fresh [OF e(1)] show ?thesis
    by (intro exI [of _ q] exI [of _ h]) (auto simp: session_return_def session_at_def)
qed

subsection \<open>Iterations without a packet\<close>

text \<open>A submitted slot that can be sent: its length is within its buffer.\<close>

definition sendable :: "('i, 'w) smqtt_mt_client \<Rightarrow> slot_index_t \<Rightarrow> bool" where
  "sendable c p \<longleftrightarrow> unat p < length (buffer_slots c) \<and>
     unat (message_length (buffer_slots c ! unat p)) \<le> length (buffer (buffer_slots c ! unat p))"

context steady_transport
begin

text \<open>A client between two iterations.\<close>

definition between ::
  "('i, 'w \<times> event list) smqtt_mt_client \<Rightarrow> ('w \<times> event list) mt_env \<Rightarrow> slot_index_t list \<Rightarrow> slot_index_t list \<Rightarrow>
    waiting_t list \<Rightarrow> bool" where
  "between c g fs ss ws \<longleftrightarrow>
     session_at c g fs ss ws \<and> (\<forall>p \<in> set ss. sendable c p) \<and> \<not> ready_to_disconnect c \<and>
     length (smqtt_mt_client.receive_buffer c) = BUFFER_SIZE \<and> (\<exists>s. up s \<and> smqtt_mt_client.server c = traced s)"

lemma send_sendable:
  assumes "between c g fs ss ws" "sendable c p"
  shows "\<exists>w. session_send p c g =
    Some (c, g\<lparr>mt_env.outside := (w, snd (mt_env.outside g) @ [Tx (slot_packet c p) SMQTT_NET_OK])\<rparr>)"
proof -
  let ?slot = "buffer_slots c ! unat p"
  obtain x l where o: "mt_env.outside g = (x, l)" by force
  from assms(1) obtain s where s: "up s" "smqtt_mt_client.server c = traced s" by (auto simp: between_def)
  have b: "length (buffer ?slot) = BUFFER_SIZE" using assms by (simp add: between_def session_at_def sendable_def)
  then have "2 \<le> length (buffer ?slot)" by (simp add: BUFFER_SIZE_def)
  moreover have "unat (ucast (message_length ?slot) :: size_t) \<le> length (buffer ?slot)"
    using assms(2) by (simp add: sendable_def unat_ucast_up)
  ultimately obtain w where
    "server_send s (buffer ?slot) (ucast (message_length ?slot)) x = Some (SMQTT_NET_OK, s, w)"
    using up_reliable [OF s(1)] unfolding reliable_def by blast
  then have "server_send (traced s) (buffer ?slot) (ucast (message_length ?slot)) (x, l) =
      Some (SMQTT_NET_OK, traced s, w, l @ [Tx (slot_packet c p) SMQTT_NET_OK])"
    by (simp add: traced_send slot_packet_def Let_def unat_ucast_up)
  with assms(2) s(2) show ?thesis
    by (intro exI [of _ w]) (cases c, simp add: session_send_def sendable_def list_get_in o)
qed

lemma receive_silent:
  assumes "between c g fs ss ws"
    and "\<And>s b n w. \<lbrakk>up s; rx_limit \<le> length b\<rbrakk> \<Longrightarrow> \<exists>b' s' w'. server_receive s b n w = Some (0, b', s', w')"
  shows "\<exists>c' w b. session_receive c g =
      Some (None, c', g\<lparr>mt_env.outside := (w, snd (mt_env.outside g) @ [Rx 0 b])\<rparr>) \<and>
    between c' (g\<lparr>mt_env.outside := (w, snd (mt_env.outside g) @ [Rx 0 b])\<rparr>) fs ss ws \<and> buffer_slots c' = buffer_slots c"
proof -
  obtain x l where o: "mt_env.outside g = (x, l)" by force
  from assms(1) obtain s where s: "up s" "smqtt_mt_client.server c = traced s"
    "length (smqtt_mt_client.receive_buffer c) = BUFFER_SIZE" by (auto simp: between_def)
  then have "rx_limit \<le> length (smqtt_mt_client.receive_buffer c)" by (simp add: rx_limit_def BUFFER_SIZE_def)
  from up_receive [OF s(1) this, of "buffer_size c" x] assms(2) [OF s(1) this, of "buffer_size c" x]
  obtain b s' w where r: "server_receive s (smqtt_mt_client.receive_buffer c) (buffer_size c) x = Some (0, b, s', w)"
    "up s'" "length b = BUFFER_SIZE" using s(3) by force
  then have "server_receive (traced s) (smqtt_mt_client.receive_buffer c) (buffer_size c) (x, l) =
      Some (0, b, traced s', w, l @ [Rx 0 b])" by (simp add: traced_receive)
  with s(2) have "session_receive c g = Some (None,
      c\<lparr>smqtt_mt_client.receive_buffer := b, smqtt_mt_client.server := traced s'\<rparr>, g\<lparr>mt_env.outside := (w, l @ [Rx 0 b])\<rparr>)"
    by (simp add: session_receive_def Let_def o)
  with assms(1) r(2,3) show ?thesis
    by (intro exI [of _ "c\<lparr>smqtt_mt_client.receive_buffer := b, smqtt_mt_client.server := traced s'\<rparr>"] exI [of _ w] exI [of _ b])
      (auto simp: between_def session_at_def sendable_def o)
qed

text \<open>One iteration: the first submitted slot, if there is one, is sent and freed.\<close>

lemma between_update:
  assumes "between c g fs ss ws" "session_at c' g' fs' ss' ws" "set ss' \<subseteq> set ss" "buffer_slots c' = buffer_slots c"
    "ready_to_disconnect c' = ready_to_disconnect c" "smqtt_mt_client.server c' = smqtt_mt_client.server c"
    "smqtt_mt_client.receive_buffer c' = smqtt_mt_client.receive_buffer c"
  shows "between c' g' fs' ss' ws"
  using assms by (auto simp: between_def sendable_def)

lemma sending_half:
  assumes "between c g fs ss ws" "slot_heap g a = None"
  shows "\<exists>r c1 g1 c2 g2. session_take c g = Some (False, r, c1, g1) \<and>
    (case r of None \<Rightarrow> Some (c1, g1) | Some p \<Rightarrow> Option.bind (session_send p c1 g1) (\<lambda>(c, g). session_return a p c g)) =
      Some (c2, g2) \<and>
    between c2 g2 (fs @ take 1 ss) (tl ss) ws \<and> buffer_slots c2 = buffer_slots c \<and>
    packets_sent (snd (mt_env.outside g2)) = packets_sent (snd (mt_env.outside g)) @ map (slot_packet c) (take 1 ss) \<and>
    (\<forall>x. x \<noteq> a \<longrightarrow> slot_heap g x = None \<longrightarrow> slot_heap g2 x = None)"
proof -
  from assms(1) have "session_at c g fs ss ws" "\<not> ready_to_disconnect c" by (simp_all add: between_def)
  from session_takes [OF this] obtain q h where
    t: "session_take c g = Some (False, (case ss of [] \<Rightarrow> None | p # _ \<Rightarrow> Some p), c\<lparr>send_queue := q\<rparr>, g\<lparr>slot_heap := h\<rparr>)"
      "session_at (c\<lparr>send_queue := q\<rparr>) (g\<lparr>slot_heap := h\<rparr>) fs (tl ss) ws" "\<forall>a. slot_heap g a = None \<longrightarrow> h a = None" by blast
  let ?c = "c\<lparr>send_queue := q\<rparr>" and ?g = "g\<lparr>slot_heap := h\<rparr>"
  have b: "between ?c ?g fs (tl ss) ws" by (rule between_update [OF assms(1) t(2)]) (cases ss, auto)
  show ?thesis
  proof (cases ss)
    case Nil
    with t b show ?thesis by auto
  next
    case (Cons p ps)
    with assms(1) have p: "sendable ?c p" by (simp add: between_def sendable_def)
    from send_sendable [OF b p] obtain w where s: "session_send p ?c ?g = Some (?c,
      ?g\<lparr>mt_env.outside := (w, snd (mt_env.outside ?g) @ [Tx (slot_packet ?c p) SMQTT_NET_OK])\<rparr>)" by blast
    let ?g1 = "?g\<lparr>mt_env.outside := (w, snd (mt_env.outside ?g) @ [Tx (slot_packet ?c p) SMQTT_NET_OK])\<rparr>"
    have "session_at ?c ?g1 fs ps ws" "slot_heap ?g1 a = None" "unat p < length (buffer_slots ?c)"
      using t(2,3) assms(2) p Cons by (simp_all add: session_at_def sendable_def)
    from session_returns [OF this] obtain q' h' where
      r: "session_return a p ?c ?g1 = Some (?c\<lparr>free_queue := q'\<rparr>, ?g1\<lparr>slot_heap := h'\<rparr>)"
        "session_at (?c\<lparr>free_queue := q'\<rparr>) (?g1\<lparr>slot_heap := h'\<rparr>) (fs @ [p]) ps ws"
        "\<forall>b. b \<noteq> a \<longrightarrow> slot_heap ?g1 b = None \<longrightarrow> h' b = None" by blast
    have "between (?c\<lparr>free_queue := q'\<rparr>) (?g1\<lparr>slot_heap := h'\<rparr>) (fs @ [p]) ps ws"
      by (rule between_update [OF b r(2)]) (simp_all add: Cons)
    with t(1,3) s r Cons show ?thesis
      by (intro exI [of _ "Some p"] exI [of _ ?c] exI [of _ ?g] exI [of _ "?c\<lparr>free_queue := q'\<rparr>"]
          exI [of _ "?g1\<lparr>slot_heap := h'\<rparr>"]) simp
  qed
qed

lemma silent_iteration:
  assumes "between c g fs ss ws" "slot_heap g a = None"
    and "\<And>s b n w. \<lbrakk>up s; rx_limit \<le> length b\<rbrakk> \<Longrightarrow> \<exists>b' s' w'. server_receive s b n w = Some (0, b', s', w')"
  shows "\<exists>c' g'. session_iteration a b c g = Some (False, c', g') \<and> between c' g' (fs @ take 1 ss) (tl ss) ws \<and>
    buffer_slots c' = buffer_slots c \<and>
    packets_sent (snd (mt_env.outside g')) = packets_sent (snd (mt_env.outside g)) @ map (slot_packet c) (take 1 ss) \<and>
    (\<forall>x. x \<noteq> a \<longrightarrow> slot_heap g x = None \<longrightarrow> slot_heap g' x = None)"
proof -
  from sending_half [OF assms(1,2)] obtain r c1 g1 c2 g2 where
    h: "session_take c g = Some (False, r, c1, g1)"
      "(case r of None \<Rightarrow> Some (c1, g1) | Some p \<Rightarrow> Option.bind (session_send p c1 g1) (\<lambda>(c, g). session_return a p c g)) =
        Some (c2, g2)" and
    k: "between c2 g2 (fs @ take 1 ss) (tl ss) ws" "buffer_slots c2 = buffer_slots c"
      "packets_sent (snd (mt_env.outside g2)) = packets_sent (snd (mt_env.outside g)) @ map (slot_packet c) (take 1 ss)"
      "\<forall>x. x \<noteq> a \<longrightarrow> slot_heap g x = None \<longrightarrow> slot_heap g2 x = None" by blast
  from receive_silent [OF k(1) assms(3)] obtain c3 w b' where
    r: "session_receive c2 g2 = Some (None, c3, g2\<lparr>mt_env.outside := (w, snd (mt_env.outside g2) @ [Rx 0 b'])\<rparr>)"
      "between c3 (g2\<lparr>mt_env.outside := (w, snd (mt_env.outside g2) @ [Rx 0 b'])\<rparr>) (fs @ take 1 ss) (tl ss) ws"
      "buffer_slots c3 = buffer_slots c2" by blast
  with h k show ?thesis by (simp add: session_iteration_def)
qed

lemma loop_drains:
  assumes "\<And>s b n w. \<lbrakk>up s; rx_limit \<le> length b\<rbrakk> \<Longrightarrow> \<exists>b' s' w'. server_receive s b n w = Some (0, b', s', w')"
  shows "\<lbrakk>between c g fs ss ws; length ss \<le> length ms; distinct (map fst ms); \<forall>a \<in> fst ` set ms. slot_heap g a = None\<rbrakk> \<Longrightarrow>
    \<exists>c' g'. session_thread_loop ms c g = Some (False, c', g') \<and> between c' g' (fs @ ss) [] ws \<and>
      packets_sent (snd (mt_env.outside g')) = packets_sent (snd (mt_env.outside g)) @ map (slot_packet c) ss"
proof (induction ms arbitrary: c g fs ss)
  case Nil
  then show ?case by simp
next
  case (Cons m ms)
  obtain a b where m: "m = (a, b)" by force
  from Cons.prems(4) m have "slot_heap g a = None" by simp
  from silent_iteration [OF Cons.prems(1) this assms, of b] obtain c1 g1 where
    i: "session_iteration a b c g = Some (False, c1, g1)" "between c1 g1 (fs @ take 1 ss) (tl ss) ws"
      "buffer_slots c1 = buffer_slots c"
      "packets_sent (snd (mt_env.outside g1)) = packets_sent (snd (mt_env.outside g)) @ map (slot_packet c) (take 1 ss)"
      "\<forall>x. x \<noteq> a \<longrightarrow> slot_heap g x = None \<longrightarrow> slot_heap g1 x = None" by blast
  have "length (tl ss) \<le> length ms" "distinct (map fst ms)" using Cons.prems(2,3) by auto
  moreover have "\<forall>x \<in> fst ` set ms. slot_heap g1 x = None"
  proof
    fix x
    assume x: "x \<in> fst ` set ms"
    with Cons.prems(3) m have "x \<noteq> a" by auto
    moreover have "slot_heap g x = None" using x Cons.prems(4) by auto
    ultimately show "slot_heap g1 x = None" using i(5) by blast
  qed
  ultimately obtain c' g' where
    "session_thread_loop ms c1 g1 = Some (False, c', g')" "between c' g' ((fs @ take 1 ss) @ tl ss) [] ws"
    "packets_sent (snd (mt_env.outside g')) = packets_sent (snd (mt_env.outside g1)) @ map (slot_packet c1) (tl ss)"
    using Cons.IH [OF i(2)] by blast
  moreover have "take 1 ss @ tl ss = ss" by (cases ss) simp_all
  moreover from this have "map (slot_packet c) (take 1 ss) @ map (slot_packet c) (tl ss) = map (slot_packet c) ss"
    by (metis map_append)
  ultimately show ?case using i(1,4) m slot_packet_slots [OF i(3)] by simp
qed

end

text \<open>A network on which nothing arrives: every \<^verbatim>\<open>recv\<close> times out.\<close>

lemma network_silent:
  assumes "fd_live im" "\<And>fd n w. \<exists>w'. sk_recv api fd n w = (-1, [], w')"
  shows "\<exists>im' w'. network_receive api (Some im) b n w = Some (0, b, Some im', w')"
proof -
  obtain ret fds w1 where sel: "sk_select api (socket im + 1) [socket im] (0, 1000) w = (ret, fds, w1)"
    by (cases "sk_select api (socket im + 1) [socket im] (0, 1000) w")
  from assms(2) obtain w2 where "sk_recv api (socket im) 2 w1 = (-1, [], w2)" by blast
  with assms(1) sel show ?thesis by (simp add: network_receive_def fd_set_add_def fd_live_def Let_def)
qed

context steady_network
begin

lemma network_drains:
  assumes "fd_live im" "\<And>fd n w. \<exists>w'. sk_recv api fd n w = (-1, [], w')"
    "smqtt_mt_client.server c = traced (create_network_server api im)"
    "length (smqtt_mt_client.receive_buffer c) = BUFFER_SIZE" "session_at c g fs ss ws" "\<forall>p \<in> set ss. sendable c p"
    "\<not> ready_to_disconnect c" "length ss \<le> length ms" "distinct (map fst ms)" "\<forall>a \<in> fst ` set ms. slot_heap g a = None"
  shows "\<exists>c' g'. session_thread_loop ms c g = Some (False, c', g') \<and> session_at c' g' (fs @ ss) [] ws \<and>
    packets_sent (snd (mt_env.outside g')) = packets_sent (snd (mt_env.outside g)) @ map (slot_packet c) ss"
proof -
  have "\<exists>b' s' w'. server_receive s b n w = Some (0, b', s', w')" if u: "up s" for s b n w
  proof -
    from u obtain j where j: "fd_live j" "s = (create_network_server api raw)\<lparr>impl := Some j\<rparr>" by (auto simp: up_def)
    from network_silent [OF j(1) assms(2), of b n w] j(2) show ?thesis
      by (auto simp: server_receive_def create_network_server_def)
  qed
  moreover have "between c g fs ss ws" using assms(3-7) network_up(1) [OF assms(1)] by (auto simp: between_def)
  ultimately show ?thesis using loop_drains [of c g fs ss ws ms] assms(8-10) by (force simp: between_def)
qed

end

subsection \<open>Liveness\<close>

text \<open>C7: what was submitted is sent. Over a network on which nothing arrives, and whose \<^verbatim>\<open>send\<close> makes no short writes, the session
  thread that runs at least as many iterations as there are submitted slots has run without undefined behaviour, has not
  ended, has sent the packets of all those slots in order and nothing else, and has put every slot back into the free queue.\<close>

theorem session_drains_queue:
  assumes "posix_sockets api" "\<forall>fd bs w. fst (sk_send api fd bs w) \<in> {int (length bs), -1}" "fd_live im"
    "\<forall>fd n w. \<exists>w'. sk_recv api fd n w = (-1, [], w')"
    "smqtt_mt_client.server c = traced (create_network_server api im)"
    "length (smqtt_mt_client.receive_buffer c) = BUFFER_SIZE" "session_at c g fs ss ws" "\<forall>p \<in> set ss. sendable c p"
    "\<not> ready_to_disconnect c" "length ss \<le> length ms" "distinct (map fst ms)" "\<forall>a \<in> fst ` set ms. slot_heap g a = None"
  shows "\<exists>c' g'. session_thread_loop ms c g = Some (False, c', g') \<and> session_at c' g' (fs @ ss) [] ws \<and>
    packets_sent (snd (mt_env.outside g')) = packets_sent (snd (mt_env.outside g)) @ map (slot_packet c) ss"
  by (rule steady_network.network_drains [OF steady_networkI [OF assms(1,2)] assms(3) _ assms(5-12)]) (use assms(4) in blast)

lemma short_sendable:
  assumes "session_at c g fs ss ws" "unat p < length (buffer_slots c)" "length (slot_packet c p) < BUFFER_SIZE"
  shows "sendable c p"
  using assms by (auto simp: sendable_def slot_packet_def session_at_def Let_def)

lemma ping_slots_fresh:
  "\<lbrakk>smqtt_mt_ping a b c t cb ctx g = Some (st, c', g'); x \<noteq> b; slot_heap g x = None\<rbrakk> \<Longrightarrow> slot_heap g' x = None"
  by (auto simp: smqtt_mt_ping_def enqueue_slot_for_send_def Let_def Option.bind_eq_Some_conv split: if_splits
      dest!: enqueue_waiting_slots enqueue_fresh get_buffer_slot_heaps [where a = x])

text \<open>A network on which nothing arrives, for the witness.\<close>

definition mute_sockets :: "peer sockets_api" where
  "mute_sockets = willing_sockets\<lparr>sk_recv := \<lambda>fd n p. (-1, [], p)\<rparr>"

lemma mute_laws:
  "posix_sockets mute_sockets" "\<forall>fd bs w. fst (sk_send mute_sockets fd bs w) \<in> {int (length bs), -1}"
  "\<forall>fd n w. \<exists>w'. sk_recv mute_sockets fd n w = (-1, [], w')"
  by (simp_all add: mute_sockets_def willing_sockets_def posix_sockets_def recv_ok_def)

theorem session_drains_queue_witness:
  "\<exists>(c :: (server_impl_t, peer \<times> event list) smqtt_mt_client) g c1 g1 c2 g2.
    smqtt_mt_ping 5 20 c 0 (Some 1) 2 g = Some (SMQTT_MT_OK, c1, g1) \<and> snd (mt_env.outside g1) = [] \<and>
    session_thread_loop [(30, 31), (32, 33)] c1 g1 = Some (False, c2, g2) \<and>
    packets_sent (snd (mt_env.outside g2)) = [[PACK_MESSAGE_TYPE PINGREQ, 0]]"
proof (rule sample_started [of "traced (create_network_server mute_sockets sample_impl)" 10 "(arriving, [])"])
  fix c :: "(server_impl_t, peer \<times> event list) smqtt_mt_client" and g
  assume st: "start_session_thread sample_memory (sample_mt (traced (create_network_server mute_sockets sample_impl))) 10 1024
      (traced (create_network_server mute_sockets sample_impl)) (sample_mt_env (arriving, [])) = Some (True, c, g)"
    and a: "session_at c g (map of_nat [0..<unat (10 :: slot_index_t)]) [] []"
    and k: "ack_heap g = (\<lambda>_. None)" "smqtt_mt_client.server c = traced (create_network_server mute_sockets sample_impl)"
      "smqtt_mt_client.connected c" "mt_env.outside g = (arriving, [])" "length (smqtt_mt_client.receive_buffer c) = BUFFER_SIZE"
      "\<And>a. unat (10 :: slot_index_t) \<le> a \<Longrightarrow> slot_heap g a = None"
  have "map of_nat [0..<unat (10 :: slot_index_t)] = (0 :: slot_index_t) # map of_nat [1..<10]"
    by (simp add: upt_conv_Cons)
  with a have a: "session_at c g (0 # map of_nat [1..<10]) [] []" by simp
  have free: "slot_heap g 20 = None" "slot_heap g 30 = None" "slot_heap g 32 = None" by (rule k(6), simp)+
  have ready: "\<not> ready_to_disconnect c" using st by (auto simp: start_session_thread_def Let_def Option.bind_eq_Some_conv)
  have "ack_heap g 5 = None" using k(1) by simp
  from mt_ping_request [OF a k(3) this free(1), of 0 "Some 1" 2] obtain c1 g1 where
    p: "smqtt_mt_ping 5 20 c 0 (Some 1) 2 g = Some (SMQTT_MT_OK, c1, g1)"
      "session_at c1 g1 (map of_nat [1..<10]) [0] [\<lparr>wtype = PINGRESP, callback = Some 1, cb_context = 2, wdata = No_data\<rparr>]"
      "same_session (c, g) (c1, g1)" "slot_packet c1 0 = [PACK_MESSAGE_TYPE PINGREQ, 0]"
    by (auto simp: request_done_def)
  have "sendable c1 0"
    by (rule short_sendable [OF p(2)]) (use p(3,4) a in \<open>simp_all add: same_session_def session_at_def BUFFER_SIZE_def\<close>)
  then have "\<forall>p \<in> set [0]. sendable c1 p" by simp
  moreover have "\<forall>a \<in> fst ` set [(30, 31), (32, 33)]. slot_heap g1 a = None"
    using ping_slots_fresh [OF p(1)] free by simp
  ultimately obtain c2 g2 where "session_thread_loop [(30, 31), (32, 33)] c1 g1 = Some (False, c2, g2)"
    "packets_sent (snd (mt_env.outside g2)) = packets_sent (snd (mt_env.outside g1)) @ map (slot_packet c1) [0]"
    using session_drains_queue [OF mute_laws(1,2) willing_laws(3) mute_laws(3) _ _ p(2), of "[(30, 31), (32, 33)]"] p(3) k(2,5) ready
    by (auto simp: same_session_def simp del: session_thread_loop.simps)
  with p k(4) show ?thesis
    by (intro exI [of _ c] exI [of _ g] exI [of _ c1] exI [of _ g1] exI [of _ c2] exI [of _ g2])
      (simp add: same_session_def del: session_thread_loop.simps)
qed

end
