(* ===== verification/MT_Race.thy ===== *)
theory MT_Race
  imports MT_Behaviour
begin

section \<open>Concurrent calls of \<^verbatim>\<open>smqtt_mt_publish\<close>\<close>

text \<open>
  \<^verbatim>\<open>smqtt_mt_publish\<close> statement by statement, with what happens outside the mutex apart from the critical sections:
  the reads of \<^verbatim>\<open>publish_packet_id\<close> for the packet and for the request, and its increment. Run without interference the
  statements are the call; interleaved with those of another caller they show what the missing lock costs.
\<close>

declare publish_wire.simps [simp del]

subsection \<open>The statements\<close>

text \<open>The arguments of a call and the addresses of the queue entries it creates.\<close>

record publish_call =
  pub_topic :: bytes
  pub_msg :: "bytes option"
  pub_qos :: QoS
  pub_retain :: bool
  pub_callback :: "nat option"
  pub_context :: nat
  ack_entry :: nat
  send_entry :: nat

datatype publish_pc =
    Pub_begin
  | Pub_slot slot_index_t
  | Pub_built slot_index_t nat
  | Pub_waiting slot_index_t nat waiting_t
  | Pub_registered slot_index_t nat
  | Pub_ready slot_index_t nat
  | Pub_returned smqtt_mt_status_t

definition pub_request :: "publish_call \<Rightarrow> message_type_t \<Rightarrow> u16 \<Rightarrow> waiting_t" where
  "pub_request k t i = \<lparr>wtype = t, callback = pub_callback k, cb_context = pub_context k, wdata = Id_data i\<rparr>"

fun publish_statement ::
  "publish_call \<Rightarrow> publish_pc \<Rightarrow> ('i, 'w) smqtt_mt_client \<Rightarrow> 'w mt_env \<Rightarrow>
    (publish_pc \<times> ('i, 'w) smqtt_mt_client \<times> 'w mt_env) option" where
  "publish_statement k Pub_begin c g =
     (if \<not> connected c then Some (Pub_returned SMQTT_MT_NOT_CONNECTED, c, g)
      else if pub_qos k > QoS2 then Some (Pub_returned SMQTT_MT_INVALID, c, g)
      else do { (slot, c, g) \<leftarrow> get_buffer_slot c g; Some (Pub_slot slot, c, g) })"
| "publish_statement k (Pub_slot slot) c g =
     do {
       (len, c) \<leftarrow> fill_slot (\<lambda>b. make_publish_message b (of_nat BUFFER_SIZE) (pub_topic k) (publish_packet_id c)
         (pub_qos k) (pub_retain k) (pub_msg k)) slot c;
       Some (Pub_built slot len, c, g)
     }"
| "publish_statement k (Pub_built slot len) c g =
     (if pub_qos k = QoS1 then Some (Pub_waiting slot len (pub_request k PUBACK (publish_packet_id c)), c, g)
      else if pub_qos k = QoS2 then Some (Pub_waiting slot len (pub_request k PUBREC (publish_packet_id c)), c, g)
      else Some (Pub_ready slot len, c, g))"
| "publish_statement k (Pub_waiting slot len w) c g =
     do { (_, c, g) \<leftarrow> enqueue_waiting (ack_entry k) c w g; Some (Pub_registered slot len, c, g) }"
| "publish_statement k (Pub_registered slot len) c g =
     Some (Pub_ready slot len, c\<lparr>publish_packet_id := publish_packet_id c + 1\<rparr>, g)"
| "publish_statement k (Pub_ready slot len) c g =
     do { (stat, c, g) \<leftarrow> enqueue_slot_for_send (send_entry k) c slot (of_nat len) g; Some (Pub_returned stat, c, g) }"
| "publish_statement k (Pub_returned stat) c g = Some (Pub_returned stat, c, g)"

text \<open>A number of statements of one call, and the statements of two calls in the order of a schedule.\<close>

fun publish_statements ::
  "nat \<Rightarrow> publish_call \<Rightarrow> publish_pc \<Rightarrow> ('i, 'w) smqtt_mt_client \<Rightarrow> 'w mt_env \<Rightarrow>
    (publish_pc \<times> ('i, 'w) smqtt_mt_client \<times> 'w mt_env) option" where
  "publish_statements 0 k at c g = Some (at, c, g)"
| "publish_statements (Suc n) k at c g =
     do { (at, c, g) \<leftarrow> publish_statement k at c g; publish_statements n k at c g }"

fun interleaved ::
  "bool list \<Rightarrow> publish_call \<Rightarrow> publish_call \<Rightarrow> publish_pc \<Rightarrow> publish_pc \<Rightarrow> ('i, 'w) smqtt_mt_client \<Rightarrow> 'w mt_env \<Rightarrow>
    (publish_pc \<times> publish_pc \<times> ('i, 'w) smqtt_mt_client \<times> 'w mt_env) option" where
  "interleaved [] k l at at' c g = Some (at, at', c, g)"
| "interleaved (True # sched) k l at at' c g =
     do { (at, c, g) \<leftarrow> publish_statement k at c g; interleaved sched k l at at' c g }"
| "interleaved (False # sched) k l at at' c g =
     do { (at', c, g) \<leftarrow> publish_statement l at' c g; interleaved sched k l at at' c g }"

subsection \<open>Without interference\<close>

definition publish_outcome ::
  "(publish_pc \<times> ('i, 'w) smqtt_mt_client \<times> 'w mt_env) option \<Rightarrow>
    (smqtt_mt_status_t \<times> ('i, 'w) smqtt_mt_client \<times> 'w mt_env) option" where
  "publish_outcome res =
     do { (at, c, g) \<leftarrow> res; case at of Pub_returned stat \<Rightarrow> Some (stat, c, g) | _ \<Rightarrow> None }"

text \<open>Run without interference, the statements are the call: six of them, from the beginning, return exactly what
  \<^verbatim>\<open>smqtt_mt_publish\<close> returns, with the same client and environment, on every branch and also where the call is
  undefined or does not return.\<close>

theorem publish_is_its_statements:
  "publish_outcome (publish_statements 6 k Pub_begin c g) =
    smqtt_mt_publish (ack_entry k) (send_entry k) c (pub_topic k) (pub_msg k) (pub_qos k) (pub_retain k) (pub_callback k)
      (pub_context k) g"
  by (auto simp: eval_nat_numeral publish_outcome_def smqtt_mt_publish_def pub_request_def Let_def split: option.splits Option.bind_split prod.splits)

subsection \<open>With interference\<close>

text \<open>The packet of a call that reads the identifier \<open>i\<close>, and the request it leaves behind.\<close>

abbreviation pub_packet :: "publish_call \<Rightarrow> u16 \<Rightarrow> bytes" where
  "pub_packet k i \<equiv> publish_wire (pub_topic k, i, pub_qos k, pub_retain k, pub_msg k)"

abbreviation pub_awaited :: "publish_call \<Rightarrow> message_type_t" where
  "pub_awaited k \<equiv> (if pub_qos k = QoS1 then PUBACK else PUBREC)"

text \<open>Each statement at a session whose queues are known; the parts it leaves alone are listed with it.\<close>

lemma slot_statements:
  assumes "session_at c g (p # fs) ss ws" "connected c" "pub_qos k \<le> QoS2" "publish_packet_id c = i" "length (pub_packet k i) \<le> BUFFER_SIZE"
  shows "\<exists>c0 g0 c1 g1 b. publish_statement k Pub_begin c g = Some (Pub_slot p, c0, g0) \<and>
    publish_statement k (Pub_slot p) c0 g0 = Some (Pub_built p (length (pub_packet k i)), c1, g1) \<and>
    session_at c1 g1 fs ss ws \<and> unat p < length (buffer_slots c) \<and>
    buffer_slots c1 = (buffer_slots c)[unat p := (buffer_slots c ! unat p)\<lparr>buffer := b\<rparr>] \<and>
    take (length (pub_packet k i)) b = pub_packet k i \<and>
    publish_packet_id c1 = i \<and> connected c1 \<and> ack_heap g1 = ack_heap g \<and>
    (\<forall>a. slot_heap g a = None \<longrightarrow> slot_heap g1 a = None)"
proof (rule get_buffer_slot_takes [OF assms(1)])
  fix q h
  let ?c = "c\<lparr>free_queue := q\<rparr>" and ?g = "g\<lparr>slot_heap := h\<rparr>" and ?w = "pub_packet k i"
  assume t: "get_buffer_slot c g = Some (p, ?c, ?g)" "session_at ?c ?g fs ss ws" "\<And>a. slot_heap g a = None \<Longrightarrow> h a = None"
  have sl: "\<forall>slot \<in> set (buffer_slots ?c). length (buffer slot) = BUFFER_SIZE" "unat p < length (buffer_slots ?c)"
    using assms(1) by (simp_all add: session_at_def)
  show ?thesis
  proof (rule fill_slot_stores [OF sl builds_publish [OF assms(5), of "of_nat BUFFER_SIZE"]])
    fix b
    assume f: "fill_slot (\<lambda>b. make_publish_message b (of_nat BUFFER_SIZE) (pub_topic k) i (pub_qos k) (pub_retain k)
        (pub_msg k)) p ?c = Some (length ?w, ?c\<lparr>buffer_slots := (buffer_slots ?c)[unat p := (buffer_slots ?c ! unat p)\<lparr>buffer := b\<rparr>]\<rparr>)"
      "length b = BUFFER_SIZE" "take (length ?w) b = ?w"
    have "session_at (?c\<lparr>buffer_slots := (buffer_slots ?c)[unat p := (buffer_slots ?c ! unat p)\<lparr>buffer := b\<rparr>]\<rparr>) ?g fs ss ws"
      by (rule fill_session_at [OF t(2)]) (simp add: f(2))
    with t f sl(2) assms(2-4) show ?thesis by (simp add: not_less) blast
  qed
qed

lemma register_statement:
  assumes "session_at c g fs ss ws" "ack_heap g (ack_entry k) = None"
  shows "\<exists>c1 g1. publish_statement k (Pub_waiting p n r) c g = Some (Pub_registered p n, c1, g1) \<and>
    session_at c1 g1 fs ss (ws @ [r]) \<and> buffer_slots c1 = buffer_slots c \<and> publish_packet_id c1 = publish_packet_id c \<and>
    slot_heap g1 = slot_heap g \<and> (\<forall>a. a \<noteq> ack_entry k \<longrightarrow> ack_heap g a = None \<longrightarrow> ack_heap g1 a = None)"
proof (rule register_takes [OF assms, of r])
  fix q h
  assume r: "enqueue_waiting (ack_entry k) c r g = Some (SMQTT_MT_OK, c\<lparr>ack_queue := q\<rparr>, g\<lparr>ack_heap := h\<rparr>)"
    "session_at (c\<lparr>ack_queue := q\<rparr>) (g\<lparr>ack_heap := h\<rparr>) fs ss (ws @ [r])"
  with enqueue_waiting_fresh [OF r(1)] show ?thesis by simp
qed

lemma submit_statement:
  assumes "session_at c g fs ss ws" "unat p < length (buffer_slots c)" "slot_heap g (send_entry k) = None"
  shows "\<exists>c1 g1. publish_statement k (Pub_ready p n) c g = Some (Pub_returned SMQTT_MT_OK, c1, g1) \<and>
    session_at c1 g1 fs (ss @ [p]) ws \<and> publish_packet_id c1 = publish_packet_id c \<and>
    buffer_slots c1 = (buffer_slots c)[unat p := (buffer_slots c ! unat p)\<lparr>message_length := of_nat n\<rparr>] \<and>
    (\<forall>a. a \<noteq> send_entry k \<longrightarrow> slot_heap g a = None \<longrightarrow> slot_heap g1 a = None)"
proof (rule submit_takes [OF assms, of "of_nat n"])
  fix q h
  let ?c = "c\<lparr>buffer_slots := (buffer_slots c)[unat p := (buffer_slots c ! unat p)\<lparr>message_length := of_nat n\<rparr>], send_queue := q\<rparr>"
  assume r: "enqueue_slot_for_send (send_entry k) c p (of_nat n) g = Some (SMQTT_MT_OK, ?c, g\<lparr>slot_heap := h\<rparr>)"
    "session_at ?c (g\<lparr>slot_heap := h\<rparr>) fs (ss @ [p]) ws"
  have "\<forall>a. a \<noteq> send_entry k \<longrightarrow> slot_heap g a = None \<longrightarrow> h a = None"
    using r(1) by (auto simp: enqueue_slot_for_send_def Let_def Option.bind_eq_Some_conv dest!: enqueue_fresh arg_cong [of _ _ slot_heap])
  with r show ?thesis by simp
qed

text \<open>Pairs of statements, one of each call.\<close>

lemma interleaved_append:
  "interleaved (s @ t) k l at at' c g = Option.bind (interleaved s k l at at' c g) (\<lambda>(at, at', c, g). interleaved t k l at at' c g)"
  by (induction s k l at at' c g rule: interleaved.induct) (auto simp: Option.bind_eq_Some_conv split: Option.bind_split)

abbreviation filled_slots :: "slot_index_t \<Rightarrow> bytes \<Rightarrow> slot_index_t \<Rightarrow> bytes \<Rightarrow> buffer_slot_t list \<Rightarrow> buffer_slot_t list" where
  "filled_slots p b q b' sl \<equiv>
     sl[unat p := (sl ! unat p)\<lparr>buffer := b\<rparr>, unat q := (sl[unat p := (sl ! unat p)\<lparr>buffer := b\<rparr>] ! unat q)\<lparr>buffer := b'\<rparr>]"

abbreviation sized_slots :: "slot_index_t \<Rightarrow> u16 \<Rightarrow> slot_index_t \<Rightarrow> u16 \<Rightarrow> buffer_slot_t list \<Rightarrow> buffer_slot_t list" where
  "sized_slots p n q m sl \<equiv> sl[unat p := (sl ! unat p)\<lparr>message_length := n\<rparr>,
     unat q := (sl[unat p := (sl ! unat p)\<lparr>message_length := n\<rparr>] ! unat q)\<lparr>message_length := m\<rparr>]"

lemma both_filled:
  assumes "session_at c g (p # q # fs) ss ws" "connected c" "publish_packet_id c = i" "pub_qos k \<le> QoS2" "pub_qos l \<le> QoS2"
    "length (pub_packet k i) \<le> BUFFER_SIZE" "length (pub_packet l i) \<le> BUFFER_SIZE"
  shows "\<exists>c1 g1 b b'. interleaved [True, True, False, False] k l Pub_begin Pub_begin c g =
      Some (Pub_built p (length (pub_packet k i)), Pub_built q (length (pub_packet l i)), c1, g1) \<and>
    session_at c1 g1 fs ss ws \<and> publish_packet_id c1 = i \<and> ack_heap g1 = ack_heap g \<and>
    (\<forall>a. slot_heap g a = None \<longrightarrow> slot_heap g1 a = None) \<and>
    unat p < length (buffer_slots c) \<and> unat q < length (buffer_slots c) \<and>
    buffer_slots c1 = filled_slots p b q b' (buffer_slots c) \<and>
    take (length (pub_packet k i)) b = pub_packet k i \<and> take (length (pub_packet l i)) b' = pub_packet l i"
proof -
  let ?v = "pub_packet k i" and ?w = "pub_packet l i"
  from slot_statements [OF assms(1,2,4,3,6)] obtain c0 g0 c1 g1 b where
    a: "publish_statement k Pub_begin c g = Some (Pub_slot p, c0, g0)"
      "publish_statement k (Pub_slot p) c0 g0 = Some (Pub_built p (length ?v), c1, g1)" and
    k: "session_at c1 g1 (q # fs) ss ws" "unat p < length (buffer_slots c)"
      "buffer_slots c1 = (buffer_slots c)[unat p := (buffer_slots c ! unat p)\<lparr>buffer := b\<rparr>]" "take (length ?v) b = ?v"
      "publish_packet_id c1 = i" "connected c1" "ack_heap g1 = ack_heap g"
      "\<forall>a. slot_heap g a = None \<longrightarrow> slot_heap g1 a = None" by (elim exE conjE)
  from slot_statements [OF k(1,6) assms(5) k(5) assms(7)] obtain c2 g2 c3 g3 b' where
    b: "publish_statement l Pub_begin c1 g1 = Some (Pub_slot q, c2, g2)"
      "publish_statement l (Pub_slot q) c2 g2 = Some (Pub_built q (length ?w), c3, g3)" and
    l: "session_at c3 g3 fs ss ws" "unat q < length (buffer_slots c1)"
      "buffer_slots c3 = (buffer_slots c1)[unat q := (buffer_slots c1 ! unat q)\<lparr>buffer := b'\<rparr>]" "take (length ?w) b' = ?w"
      "publish_packet_id c3 = i" "ack_heap g3 = ack_heap g1" "\<forall>a. slot_heap g1 a = None \<longrightarrow> slot_heap g3 a = None" by (elim exE conjE)
  have "interleaved [True, True, False, False] k l Pub_begin Pub_begin c g =
      Some (Pub_built p (length ?v), Pub_built q (length ?w), c3, g3)"
    using a b by (simp del: publish_statement.simps)
  moreover have "unat q < length (buffer_slots c)" "buffer_slots c3 = filled_slots p b q b' (buffer_slots c)" using k(3) l(2,3) by simp_all
  ultimately show ?thesis using k(2,4,7,8) l by (intro exI [of _ c3] exI [of _ g3] exI [of _ b] exI [of _ b']) simp
qed

lemma both_registered:
  assumes "session_at c g fs ss ws" "ack_heap g (ack_entry k) = None" "ack_heap g (ack_entry l) = None" "ack_entry l \<noteq> ack_entry k"
  shows "\<exists>c1 g1. interleaved [True, False] k l (Pub_waiting p n r) (Pub_waiting q m s) c g =
      Some (Pub_registered p n, Pub_registered q m, c1, g1) \<and>
    session_at c1 g1 fs ss (ws @ [r, s]) \<and> buffer_slots c1 = buffer_slots c \<and> publish_packet_id c1 = publish_packet_id c \<and>
    slot_heap g1 = slot_heap g"
proof -
  from register_statement [OF assms(1,2), of p n r] obtain c1 g1 where
    a: "publish_statement k (Pub_waiting p n r) c g = Some (Pub_registered p n, c1, g1)" "session_at c1 g1 fs ss (ws @ [r])"
      "buffer_slots c1 = buffer_slots c" "publish_packet_id c1 = publish_packet_id c" "slot_heap g1 = slot_heap g"
      "\<forall>a. a \<noteq> ack_entry k \<longrightarrow> ack_heap g a = None \<longrightarrow> ack_heap g1 a = None" by (elim exE conjE)
  have "ack_heap g1 (ack_entry l) = None" using a(6) assms(3,4) by simp
  from register_statement [OF a(2) this, of q m s] a(1,3-5) show ?thesis by (auto simp del: publish_statement.simps)
qed

lemma both_submitted:
  assumes "session_at c g fs ss ws" "unat p < length (buffer_slots c)" "unat q < length (buffer_slots c)"
    "slot_heap g (send_entry k) = None" "slot_heap g (send_entry l) = None" "send_entry l \<noteq> send_entry k"
  shows "\<exists>c1 g1. interleaved [True, False] k l (Pub_ready p n) (Pub_ready q m) c g =
      Some (Pub_returned SMQTT_MT_OK, Pub_returned SMQTT_MT_OK, c1, g1) \<and>
    session_at c1 g1 fs (ss @ [p, q]) ws \<and> publish_packet_id c1 = publish_packet_id c \<and>
    buffer_slots c1 = sized_slots p (of_nat n) q (of_nat m) (buffer_slots c)"
proof -
  from submit_statement [OF assms(1,2,4), of n] obtain c1 g1 where
    a: "publish_statement k (Pub_ready p n) c g = Some (Pub_returned SMQTT_MT_OK, c1, g1)" "session_at c1 g1 fs (ss @ [p]) ws"
      "publish_packet_id c1 = publish_packet_id c"
      "buffer_slots c1 = (buffer_slots c)[unat p := (buffer_slots c ! unat p)\<lparr>message_length := of_nat n\<rparr>]"
      "\<forall>a. a \<noteq> send_entry k \<longrightarrow> slot_heap g a = None \<longrightarrow> slot_heap g1 a = None" by (elim exE conjE)
  have "unat q < length (buffer_slots c1)" "slot_heap g1 (send_entry l) = None" using a(4,5) assms(3,5,6) by simp_all
  from submit_statement [OF a(2) this, of m] a(1,3,4) show ?thesis by (auto simp del: publish_statement.simps)
qed

lemma race_packets:
  assumes "p \<noteq> q" "unat p < length sl" "unat q < length sl" "take (length v) b = v" "take (length w) b' = w"
    "length v \<le> BUFFER_SIZE" "length w \<le> BUFFER_SIZE"
    "buffer_slots c = sized_slots p (of_nat (length v)) q (of_nat (length w)) (filled_slots p b q b' sl)"
  shows "slot_packet c p = v \<and> slot_packet c q = w"
proof -
  have "unat p \<noteq> unat q" using assms(1) by (simp add: word_unat_eq_iff)
  moreover have "unat (of_nat (length v) :: u16) = length v" "unat (of_nat (length w) :: u16) = length w"
    using assms(6,7) by (intro unat_of_nat_small, simp add: BUFFER_SIZE_def)+
  ultimately show ?thesis using assms(2-5,8) by (simp add: slot_packet_def Let_def)
qed

text \<open>The schedule of the race: both calls read the counter before either increments it.\<close>

definition race :: "bool list" where
  "race = [True, True, False, False] @ [True, False] @ [True, False] @ [True, False] @ [True, False]"

text \<open>C34: the missing lock on \<^verbatim>\<open>publish_packet_id\<close> lets two publications share a packet identifier. Of two calls at quality 1 or 2
  that run at the same time with two slots free, both can return \<^verbatim>\<open>SMQTT_MT_OK\<close> with both packets submitted, each
  complete, and both requests waiting, all four with the same identifier \<open>i\<close>; the counter then skips \<open>i + 1\<close>.\<close>

theorem concurrent_publish_same_id:
  assumes "session_at c g (p # q # fs) ss ws" "p \<noteq> q" "connected c" "publish_packet_id c = i"
    "pub_qos k \<in> {QoS1, QoS2}" "pub_qos l \<in> {QoS1, QoS2}"
    "length (pub_packet k i) \<le> BUFFER_SIZE" "length (pub_packet l i) \<le> BUFFER_SIZE"
    "ack_heap g (ack_entry k) = None" "ack_heap g (ack_entry l) = None" "ack_entry l \<noteq> ack_entry k"
    "slot_heap g (send_entry k) = None" "slot_heap g (send_entry l) = None" "send_entry l \<noteq> send_entry k"
  shows "\<exists>c' g'. interleaved race k l Pub_begin Pub_begin c g =
      Some (Pub_returned SMQTT_MT_OK, Pub_returned SMQTT_MT_OK, c', g') \<and>
    session_at c' g' fs (ss @ [p, q]) (ws @ [pub_request k (pub_awaited k) i, pub_request l (pub_awaited l) i]) \<and>
    slot_packet c' p = pub_packet k i \<and> slot_packet c' q = pub_packet l i \<and> publish_packet_id c' = i + 2"
proof -
  let ?r = "pub_request k (pub_awaited k) i" and ?s = "pub_request l (pub_awaited l) i"
    and ?m = "length (pub_packet k i)" and ?n = "length (pub_packet l i)"
  have "pub_qos k \<le> QoS2" "pub_qos l \<le> QoS2" using assms(5,6) by auto
  from both_filled [OF assms(1,3,4) this assms(7,8)] obtain c1 g1 b b' where
    f: "interleaved [True, True, False, False] k l Pub_begin Pub_begin c g = Some (Pub_built p ?m, Pub_built q ?n, c1, g1)"
      "session_at c1 g1 fs ss ws" "publish_packet_id c1 = i" "ack_heap g1 = ack_heap g"
      "\<forall>a. slot_heap g a = None \<longrightarrow> slot_heap g1 a = None" "unat p < length (buffer_slots c)" "unat q < length (buffer_slots c)"
      "buffer_slots c1 = filled_slots p b q b' (buffer_slots c)" "take ?m b = pub_packet k i" "take ?n b' = pub_packet l i"
    by (elim exE conjE)
  have "interleaved [True, False] k l (Pub_built p ?m) (Pub_built q ?n) c1 g1 =
      Some (Pub_waiting p ?m ?r, Pub_waiting q ?n ?s, c1, g1)" using assms(5,6) f(3) by auto
  moreover from f(4) assms(9,10) have "ack_heap g1 (ack_entry k) = None" "ack_heap g1 (ack_entry l) = None" by simp_all
  from both_registered [OF f(2) this assms(11), of p ?m ?r q ?n ?s] obtain c2 g2 where
    r: "interleaved [True, False] k l (Pub_waiting p ?m ?r) (Pub_waiting q ?n ?s) c1 g1 =
        Some (Pub_registered p ?m, Pub_registered q ?n, c2, g2)" "session_at c2 g2 fs ss (ws @ [?r, ?s])"
      "buffer_slots c2 = buffer_slots c1" "publish_packet_id c2 = publish_packet_id c1" "slot_heap g2 = slot_heap g1" by (elim exE conjE)
  let ?c = "c2\<lparr>publish_packet_id := i + 2\<rparr>"
  have "interleaved [True, False] k l (Pub_registered p ?m) (Pub_registered q ?n) c2 g2 =
      Some (Pub_ready p ?m, Pub_ready q ?n, ?c, g2)" using r(4) f(3) by (simp add: add.assoc)
  moreover have "session_at ?c g2 fs ss (ws @ [?r, ?s])" "unat p < length (buffer_slots ?c)" "unat q < length (buffer_slots ?c)"
    "slot_heap g2 (send_entry k) = None" "slot_heap g2 (send_entry l) = None"
    using r(2,3,5) f(5-8) assms(12,13) by (simp_all add: session_at_def)
  from both_submitted [OF this assms(14), of ?m ?n] obtain c3 g3 where
    s: "interleaved [True, False] k l (Pub_ready p ?m) (Pub_ready q ?n) ?c g2 =
        Some (Pub_returned SMQTT_MT_OK, Pub_returned SMQTT_MT_OK, c3, g3)" "session_at c3 g3 fs (ss @ [p, q]) (ws @ [?r, ?s])"
      "publish_packet_id c3 = publish_packet_id ?c" "buffer_slots c3 = sized_slots p (of_nat ?m) q (of_nat ?n) (buffer_slots ?c)"
    by (elim exE conjE)
  ultimately have "interleaved race k l Pub_begin Pub_begin c g = Some (Pub_returned SMQTT_MT_OK, Pub_returned SMQTT_MT_OK, c3, g3)"
    using f(1) r(1) by (simp add: race_def interleaved_append del: interleaved.simps append_Cons)
  moreover have "slot_packet c3 p = pub_packet k i \<and> slot_packet c3 q = pub_packet l i"
    by (rule race_packets [OF assms(2) f(6,7,9,10) assms(7,8)]) (use s(4) r(3) f(8) in simp)
  ultimately show ?thesis using s(2,3) by (intro exI [of _ c3] exI [of _ g3]) simp
qed

lemma short_publications:
  "length (publish_wire ([116], 1, QoS1, False, Some [104])) \<le> BUFFER_SIZE"
  "length (publish_wire ([117], 1, QoS1, False, None)) \<le> BUFFER_SIZE"
proof -
  have "strlen [116] = 1" "strlen [117] = 1" "strlen [104] = 1" "cstr [116] = [116]" "cstr [117] = [117]" "cstr [104] = [104]"
    by (simp_all add: strlen_def cstr_def)
  moreover have "size_field 6 = [6]" "size_field 5 = [5]" by (simp_all add: size_field_small)
  ultimately show "length (publish_wire ([116], 1, QoS1, False, Some [104])) \<le> BUFFER_SIZE"
    "length (publish_wire ([117], 1, QoS1, False, None)) \<le> BUFFER_SIZE"
    by (simp_all add: BUFFER_SIZE_def publish_wire.simps short_wire_def)
qed

theorem concurrent_publish_same_id_witness:
  "\<exists>(c :: (unit, bytes list \<times> event list) smqtt_mt_client) g c' g'.
    interleaved race
      \<lparr>pub_topic = [116], pub_msg = Some [104], pub_qos = QoS1, pub_retain = False, pub_callback = Some 3, pub_context = 1,
        ack_entry = 5, send_entry = 20\<rparr>
      \<lparr>pub_topic = [117], pub_msg = None, pub_qos = QoS1, pub_retain = False, pub_callback = Some 4, pub_context = 2,
        ack_entry = 6, send_entry = 21\<rparr> Pub_begin Pub_begin c g =
      Some (Pub_returned SMQTT_MT_OK, Pub_returned SMQTT_MT_OK, c', g') \<and>
    session_at c' g' (map of_nat [2..<10]) [0, 1]
      [\<lparr>wtype = PUBACK, callback = Some 3, cb_context = 1, wdata = Id_data 1\<rparr>,
       \<lparr>wtype = PUBACK, callback = Some 4, cb_context = 2, wdata = Id_data 1\<rparr>] \<and>
    slot_packet c' 0 = publish_wire ([116], 1, QoS1, False, Some [104]) \<and>
    slot_packet c' 1 = publish_wire ([117], 1, QoS1, False, None) \<and> publish_packet_id c' = 3"
proof (rule sample_started [of "traced scripted" 10 "([], [])"])
  fix c :: "(unit, bytes list \<times> event list) smqtt_mt_client" and g
  assume a: "session_at c g (map of_nat [0..<unat (10 :: slot_index_t)]) [] []"
    and k: "connected c" "publish_packet_id c = 1" "ack_heap g = (\<lambda>_. None)"
      "\<And>a. unat (10 :: slot_index_t) \<le> a \<Longrightarrow> slot_heap g a = None"
  have "map of_nat [0..<unat (10 :: slot_index_t)] = (0 :: slot_index_t) # 1 # map of_nat [2..<10]"
    by (simp add: upt_conv_Cons)
  with a have a: "session_at c g (0 # 1 # map of_nat [2..<10]) [] []" by simp
  have "slot_heap g 20 = None" "slot_heap g 21 = None" by (rule k(4), simp)+
  with concurrent_publish_same_id [OF a _ k(1,2), of
    "\<lparr>pub_topic = [116], pub_msg = Some [104], pub_qos = QoS1, pub_retain = False, pub_callback = Some 3, pub_context = 1,
      ack_entry = 5, send_entry = 20\<rparr>"
    "\<lparr>pub_topic = [117], pub_msg = None, pub_qos = QoS1, pub_retain = False, pub_callback = Some 4, pub_context = 2,
      ack_entry = 6, send_entry = 21\<rparr>"] k(3) short_publications
  show ?thesis by (simp add: pub_request_def) blast
qed

end
