(* ===== verification/Cli.thy ===== *)
theory Cli
  imports Client
begin

section \<open>The command line program (\<^verbatim>\<open>smqttc/main.c\<close>)\<close>

text \<open>
  \<^verbatim>\<open>main\<close> parses its arguments and makes the calls of the blocking client. The arguments are C strings, and
  \<^verbatim>\<open>argv[argc]\<close> is \<^verbatim>\<open>NULL\<close>. \<^verbatim>\<open>print_usage_and_exit\<close> and \<^verbatim>\<open>exit\<close> end the program; of the output the lines on the
  standard output are kept, those on the error output are not. \<open>errno\<close> is the value of \<^verbatim>\<open>errno\<close> when the program starts,
  which C defines to be 0.
\<close>

subsection \<open>The C library\<close>

text \<open>A character of a string, the terminating NUL included.\<close>

definition char_at :: "bytes \<Rightarrow> nat \<Rightarrow> u8 option" where
  "char_at s i = buf_get (cstr s @ [0]) i"

text \<open>
  \<^verbatim>\<open>strtoul(s, NULL, 10)\<close>: white space, a sign, digits. The second result is the new value of \<^verbatim>\<open>errno\<close>, if it is set:
  a number that does not fit gives the largest one and \<^verbatim>\<open>ERANGE\<close>.
\<close>

abbreviation ERANGE :: int where "ERANGE \<equiv> 34"

abbreviation ENOMSG :: int where "ENOMSG \<equiv> 42"

definition is_space :: "u8 \<Rightarrow> bool" where
  "is_space c \<longleftrightarrow> c = 32 \<or> 9 \<le> c \<and> c \<le> 13"

definition is_digit :: "u8 \<Rightarrow> bool" where
  "is_digit c \<longleftrightarrow> 48 \<le> c \<and> c \<le> 57"

fun decimal :: "nat \<Rightarrow> bytes \<Rightarrow> nat" where
  "decimal n [] = n"
| "decimal n (c # cs) = (if is_digit c then decimal (10 * n + unat (c - 48)) cs else n)"

definition strtoul :: "bytes \<Rightarrow> 64 word \<times> int option" where
  "strtoul s =
     (let t = dropWhile is_space (cstr s);
          negative = (t \<noteq> [] \<and> hd t = 45);
          digits = (if t \<noteq> [] \<and> (hd t = 45 \<or> hd t = 43) then tl t else t);
          n = decimal 0 digits
      in if n \<ge> 2 ^ 64 then (- 1, Some ERANGE)
         else (if negative then - of_nat n else of_nat n, None))"

subsection \<open>Arguments\<close>

datatype operation = PUBLISH_op | SUBSCRIBE_op

record cli_options =
  operation :: operation
  user :: "bytes option"
  pw :: "bytes option"
  keep_alive_sec :: u32
  qos :: QoS
  clean_session :: bool
  last_will :: bool
  last_will_qos :: QoS
  last_will_retain :: bool
  last_will_topic :: "bytes option"
  last_will_message :: "bytes option"
  publish_message :: "bytes option"
  host :: bytes
  cli_port :: u16
  client_id :: bytes
  topic :: bytes

definition default_options :: cli_options where
  "default_options =
     \<lparr>operation = PUBLISH_op, user = None, pw = None, keep_alive_sec = 30, qos = QoS0, clean_session = False,
      last_will = False, last_will_qos = QoS0, last_will_retain = False, last_will_topic = None,
      last_will_message = None, publish_message = None, host = [49, 50, 55, 46, 48, 46, 48, 46, 49],
      cli_port = 1883, client_id = [], topic = []\<rparr>"

text \<open>\<^verbatim>\<open>argv[i]\<close>: a string, \<^verbatim>\<open>NULL\<close> at \<^verbatim>\<open>argc\<close>, undefined behind it.\<close>

definition argv_at :: "bytes list \<Rightarrow> nat \<Rightarrow> bytes option option" where
  "argv_at argv i =
     (if i < length argv then Some (Some (argv ! i)) else if i = length argv then Some None else None)"

datatype usage = Usage_exit

text \<open>
  The macro \<^verbatim>\<open>ADVANCE_ARG\<close> lets \<^verbatim>\<open>arg\<close> reach \<^verbatim>\<open>argc\<close>. What follows it runs on the argument found there, which may be
  \<^verbatim>\<open>NULL\<close>.
\<close>

definition ADVANCE_ARG ::
  "bytes list \<Rightarrow> nat \<Rightarrow> (nat \<Rightarrow> bytes option \<Rightarrow> (usage + 'a) option) \<Rightarrow> (usage + 'a) option" where
  "ADVANCE_ARG argv arg k =
     (if arg + 1 > length argv then Some (Inl Usage_exit)
      else do { a \<leftarrow> argv_at argv (arg + 1); k (arg + 1) a })"

definition parse_u :: "bytes list \<Rightarrow> cli_options \<Rightarrow> nat \<Rightarrow> (usage + cli_options \<times> nat) option" where
  "parse_u argv opts arg = ADVANCE_ARG argv arg (\<lambda>arg a. Some (Inr (opts\<lparr>user := a\<rparr>, arg)))"

definition parse_p :: "bytes list \<Rightarrow> cli_options \<Rightarrow> nat \<Rightarrow> (usage + cli_options \<times> nat) option" where
  "parse_p argv opts arg = ADVANCE_ARG argv arg (\<lambda>arg a. Some (Inr (opts\<lparr>pw := a\<rparr>, arg)))"

definition parse_k :: "bytes list \<Rightarrow> int \<Rightarrow> cli_options \<Rightarrow> nat \<Rightarrow> (usage + cli_options \<times> nat) option" where
  "parse_k argv errno opts arg = ADVANCE_ARG argv arg (\<lambda>arg a. do {
     s \<leftarrow> a;
     let v = fst (strtoul s);
     let errno = (case snd (strtoul s) of None \<Rightarrow> errno | Some e \<Rightarrow> e);
     if errno \<noteq> ENOMSG then Some (Inl Usage_exit)
     else Some (Inr (opts\<lparr>keep_alive_sec := ucast v\<rparr>, arg))
   })"

text \<open>The case of \<^verbatim>\<open>q\<close> falls through to that of \<^verbatim>\<open>c\<close>.\<close>

definition parse_q :: "bytes list \<Rightarrow> cli_options \<Rightarrow> nat \<Rightarrow> (usage + cli_options \<times> nat) option" where
  "parse_q argv opts arg = ADVANCE_ARG argv arg (\<lambda>arg a. do {
     s \<leftarrow> a;
     q \<leftarrow> char_at s 0;
     if q = 48 then Some (Inr (opts\<lparr>clean_session := True\<rparr>, arg))
     else if q = 49 then Some (Inr (opts\<lparr>qos := QoS1, clean_session := True\<rparr>, arg))
     else if q = 50 then Some (Inr (opts\<lparr>qos := QoS2, clean_session := True\<rparr>, arg))
     else Some (Inl Usage_exit)
   })"

text \<open>The case of \<^verbatim>\<open>W\<close> falls through to the default, which ends the program.\<close>

definition parse_W :: "bytes list \<Rightarrow> nat \<Rightarrow> (usage + cli_options \<times> nat) option" where
  "parse_W argv arg = ADVANCE_ARG argv arg (\<lambda>arg a. do {
     s \<leftarrow> a;
     wq \<leftarrow> char_at s 0;
     if wq \<notin> {48, 49, 50} then Some (Inl Usage_exit)
     else ADVANCE_ARG argv arg (\<lambda>arg a. do {
       s \<leftarrow> a;
       wr \<leftarrow> char_at s 0;
       if wr \<notin> {89, 78} then Some (Inl Usage_exit)
       else ADVANCE_ARG argv arg (\<lambda>arg a. ADVANCE_ARG argv arg (\<lambda>arg a. Some (Inl Usage_exit)))
     })
   })"

definition parse_switch ::
  "bytes list \<Rightarrow> int \<Rightarrow> u8 \<Rightarrow> cli_options \<Rightarrow> nat \<Rightarrow> (usage + cli_options \<times> nat) option" where
  "parse_switch argv errno sw opts arg =
     (if sw = 117 then parse_u argv opts arg
      else if sw = 112 then parse_p argv opts arg
      else if sw = 107 then parse_k argv errno opts arg
      else if sw = 113 then parse_q argv opts arg
      else if sw = 99 then Some (Inr (opts\<lparr>clean_session := True\<rparr>, arg))
      else if sw = 87 then parse_W argv arg
      else Some (Inl Usage_exit))"

lemma ADVANCE_ARG_Inr:
  "ADVANCE_ARG argv arg k = Some (Inr r) \<Longrightarrow> \<exists>a. k (arg + 1) a = Some (Inr r)"
  by (auto simp: ADVANCE_ARG_def Option.bind_eq_Some_conv split: if_splits)

lemma parse_switch_advances: "parse_switch argv errno sw opts arg = Some (Inr (opts', arg')) \<Longrightarrow> arg \<le> arg'"
  by (auto simp: parse_switch_def parse_u_def parse_p_def parse_k_def parse_q_def parse_W_def Let_def
      Option.bind_eq_Some_conv split: if_splits prod.splits dest!: ADVANCE_ARG_Inr)

function parse_loop :: "bytes list \<Rightarrow> int \<Rightarrow> cli_options \<Rightarrow> nat \<Rightarrow> (usage + cli_options \<times> nat) option" where
  "parse_loop argv errno opts arg =
     (if arg < length argv then do {
        c \<leftarrow> char_at (argv ! arg) 0;
        if c = 45 then do {
          sw \<leftarrow> char_at (argv ! arg) 1;
          r \<leftarrow> parse_switch argv errno sw opts arg;
          case r of
            Inl e \<Rightarrow> Some (Inl e)
          | Inr (opts, arg) \<Rightarrow> parse_loop argv errno opts (arg + 1)
        }
        else Some (Inr (opts, arg))
      }
      else Some (Inr (opts, arg)))"
  by pat_completeness auto

termination
  by (relation "measure (\<lambda>(argv, errno, opts, arg). length argv - arg)")
    (auto dest: parse_switch_advances)

declare parse_loop.simps [simp del]

definition parse_positionals :: "bytes list \<Rightarrow> cli_options \<Rightarrow> nat \<Rightarrow> usage + cli_options" where
  "parse_positionals argv opts arg =
     (if arg + 2 \<ge> length argv then Inl Usage_exit
      else
        (let host_port = argv ! arg;
             pos = dropWhile (\<lambda>c. c \<noteq> 58) (cstr host_port);
             opts = (if pos = [] then opts\<lparr>host := host_port\<rparr>
               else opts\<lparr>host := pos, cli_port := ucast (fst (strtoul (tl pos)))\<rparr>)
         in Inr (opts\<lparr>client_id := argv ! (arg + 1), topic := argv ! (arg + 2)\<rparr>)))"

definition after_options :: "bytes list \<Rightarrow> usage + cli_options \<times> nat \<Rightarrow> usage + cli_options" where
  "after_options argv r = (case r of Inl e \<Rightarrow> Inl e | Inr (opts, arg) \<Rightarrow> parse_positionals argv opts arg)"

definition parse_args :: "bytes list \<Rightarrow> int \<Rightarrow> (usage + cli_options) option" where
  "parse_args argv errno =
     do {
       op \<leftarrow> list_get argv 1;
       start \<leftarrow>
         (if cstr op = [45, 80] then
            (if 2 \<ge> length argv then Some (Inl Usage_exit)
             else Some (Inr (default_options\<lparr>operation := PUBLISH_op, publish_message := Some (argv ! 2)\<rparr>, 3)))
          else if cstr op = [45, 83] then Some (Inr (default_options\<lparr>operation := SUBSCRIBE_op\<rparr>, 2))
          else Some (Inl Usage_exit));
       case start of
         Inl e \<Rightarrow> Some (Inl e)
       | Inr (opts, arg) \<Rightarrow> do {
           r \<leftarrow> parse_loop argv errno opts arg;
           Some (after_options argv r)
         }
     }"

subsection \<open>Running\<close>

datatype stdout_line = Sent_message | Subscribed | Got_message bytes

text \<open>The values \<^verbatim>\<open>main\<close> passes; \<^verbatim>\<open>keep_alive_sec\<close> is narrowed to the \<^verbatim>\<open>uint16_t\<close> of the parameter.\<close>

definition params_of :: "cli_options \<Rightarrow> connect_params" where
  "params_of opts =
     \<lparr>cp_server_ip = host opts, cp_port = ucast (cli_port opts), cp_client_id = client_id opts, cp_user = user opts,
      cp_pw = pw opts, cp_keep_alive_sec = ucast (keep_alive_sec opts), cp_clean_session = clean_session opts,
      cp_last_will = last_will opts, cp_will_qos = last_will_qos opts, cp_will_retain = last_will_retain opts,
      cp_will_topic = last_will_topic opts, cp_will_message = last_will_message opts\<rparr>"

text \<open>\<^verbatim>\<open>printf("%.*s", n, s)\<close> prints at most \<open>n\<close> characters, up to a NUL.\<close>

definition printed :: "bytes \<Rightarrow> u16 \<Rightarrow> bytes" where
  "printed s n = cstr (take (unat n) s)"

partial_function (option) message_loop ::
  "('i, 'w) smqtt_client \<Rightarrow> stdout_line list \<Rightarrow> 'w smqtt_env \<Rightarrow> (int \<times> stdout_line list \<times> 'w smqtt_env) option" where
  "message_loop client out g =
     do {
       (stat, d, client, g) \<leftarrow> smqtt_get_next_message client g;
       if stat \<noteq> SMQTT_OK then Some (1, out, g)
       else do {
         m \<leftarrow> out_message d;
         n \<leftarrow> out_message_size d;
         message_loop client (out @ [Got_message (printed m n)]) g
       }
     }"

definition run_publish ::
  "cli_options \<Rightarrow> ('i, 'w) smqtt_client \<Rightarrow> 'w smqtt_env \<Rightarrow> (int \<times> stdout_line list \<times> 'w smqtt_env) option" where
  "run_publish opts client g =
     do {
       (stat, client, g) \<leftarrow> smqtt_publish client (topic opts) (publish_message opts) QoS1 False g;
       let out = (if stat \<noteq> SMQTT_OK then [] else [Sent_message]);
       (_, client, g) \<leftarrow> smqtt_disconnect client g;
       Some (0, out, g)
     }"

definition run_subscribe ::
  "cli_options \<Rightarrow> ('i, 'w) smqtt_client \<Rightarrow> 'w smqtt_env \<Rightarrow> (int \<times> stdout_line list \<times> 'w smqtt_env) option" where
  "run_subscribe opts client g =
     do {
       (stat, client, g) \<leftarrow> smqtt_subscribe client 1 [topic opts] [qos opts] g;
       if stat \<noteq> SMQTT_OK then Some (1, [], g)
       else message_loop client [Subscribed] g
     }"

text \<open>The exit status, what was printed, and the outside. A client pointer that was not set is \<^verbatim>\<open>NULL\<close>.\<close>

definition main ::
  "'w sockets_api \<Rightarrow> server_impl_t \<Rightarrow> bool \<Rightarrow> u16 \<Rightarrow> bytes list \<Rightarrow> int \<Rightarrow> 'w smqtt_env \<Rightarrow>
    (int \<times> stdout_line list \<times> 'w smqtt_env) option" where
  "main api raw allocated raw_id argv errno g =
     (if length argv > 1 then do {
        r \<leftarrow> parse_args argv errno;
        case r of
          Inl e \<Rightarrow> Some (1, [], g)
        | Inr opts \<Rightarrow> do {
            (stat, out, g) \<leftarrow> smqtt_connect api raw allocated raw_id (params_of opts) g;
            if stat \<noteq> SMQTT_OK then Some (1, [], g)
            else do {
              client \<leftarrow> (case out of Client c \<Rightarrow> Some c | _ \<Rightarrow> None);
              case operation opts of
                PUBLISH_op \<Rightarrow> run_publish opts client g
              | SUBSCRIBE_op \<Rightarrow> run_subscribe opts client g
            }
          }
      }
      else Some (1, [], g))"

end
