(* ===== verification/Byte_Stream.thy ===== *)
theory Byte_Stream
  imports Network
begin

section \<open>Packets on a stream of bytes\<close>

text \<open>
  A stream socket hands out the bytes the peer sent in order, as many at a time as the caller asks for, and reports an
  error when none arrive in time. The locale \<open>byte_stream\<close> states that, \<open>mk bs\<close> being the outside when the bytes \<open>bs\<close> are
  still to come. \<^verbatim>\<open>network_receive\<close> cuts such a stream into packets as long as the size field of every packet has one
  byte; it takes the second byte of a packet for the whole size.
\<close>

subsection \<open>The contract of a stream\<close>

locale byte_stream =
  fixes api :: "'w sockets_api" and fd :: int and mk :: "bytes \<Rightarrow> 'w"
  assumes recv_bytes: "bs \<noteq> [] \<Longrightarrow> sk_recv api fd n (mk bs) = (int (length (take n bs)), take n bs, mk (drop n bs))"
    and recv_silence: "sk_recv api fd n (mk []) = (-1, [], mk [])"
    and select_ready: "\<exists>ret fds'. 0 \<le> ret \<and> sk_select api k fds t (mk bs) = (ret, fds', mk bs)"
begin

text \<open>A packet at the front of the stream, and silence.\<close>

lemma receive_front:
  assumes "fd_live im" "socket im = fd" "rx_limit \<le> length b" "length body = unat l"
  shows "\<exists>fds. network_receive api (Some im) b n (mk (h # l # body @ rest)) =
    Some (int (unat l) + 2, [h, l] @ body @ drop (2 + unat l) b, Some (im\<lparr>read_fds := fds\<rparr>), mk rest)"
proof -
  from select_ready [of "socket im + 1" "[socket im]" "(0, 1000)"] obtain ret fds where
    "0 \<le> ret" "sk_select api (socket im + 1) [socket im] (0, 1000) (mk (h # l # body @ rest)) = (ret, fds, mk (h # l # body @ rest))"
    by blast
  moreover have "sk_recv api (socket im) 2 (mk (h # l # body @ rest)) = (2, [h, l], mk (body @ rest))"
    using recv_bytes [of "h # l # body @ rest" 2] assms(2) by (simp add: numeral_2_eq_2)
  moreover have "if l = 0 then body = [] \<and> mk rest = mk (body @ rest)
     else sk_recv api (socket im) (unat l) (mk (body @ rest)) = (int (unat l), body, mk rest)"
  proof (cases "l = 0")
    case False
    then have "body \<noteq> []" using assms(4) by (auto simp: unat_eq_0)
    with recv_bytes [of "body @ rest" "unat l"] assms(2,4) False show ?thesis by simp
  qed (use assms(4) in simp)
  ultimately show ?thesis
    using network_receive_framed [OF assms(1,3), where api = api and h = h and l = l and body = body and n = n] assms(4) by blast
qed

lemma receive_silence:
  assumes "fd_live im" "socket im = fd"
  shows "\<exists>fds. network_receive api (Some im) b n (mk []) = Some (0, b, Some (im\<lparr>read_fds := fds\<rparr>), mk [])"
proof -
  from select_ready [of "socket im + 1" "[socket im]" "(0, 1000)" "[]"] obtain ret fds where
    "0 \<le> ret" "sk_select api (socket im + 1) [socket im] (0, 1000) (mk []) = (ret, fds, mk [])" by blast
  with assms recv_silence [of 2] show ?thesis
    by (auto simp: network_receive_def fd_set_add_def fd_live_def Let_def)
qed

end

text \<open>The scripted peer with everything in one segment is a stream.\<close>

definition peer_stream :: "int list \<Rightarrow> bytes list \<Rightarrow> bytes \<Rightarrow> peer" where
  "peer_stream results out bs = \<lparr>to_client = (if bs = [] then [] else [bs]), send_results = results, sent = out\<rparr>"

interpretation peer_bytes: byte_stream peer_sockets fd "peer_stream results out" for fd results out
proof
  fix k fds t bs
  show "\<exists>ret fds'. 0 \<le> ret \<and>
      sk_select peer_sockets k fds t (peer_stream results out bs) = (ret, fds', peer_stream results out bs)"
    by (simp add: peer_sockets_def)
qed (auto simp: peer_sockets_def peer_recv_def peer_stream_def)

subsection \<open>Cutting the stream\<close>

text \<open>A packet whose second byte is its whole size field, and a number of receives in a row into one buffer.\<close>

fun framed :: "bytes \<Rightarrow> bool" where
  "framed (h # l # body) \<longleftrightarrow> l < 128 \<and> length body = unat l"
| "framed _ \<longleftrightarrow> False"

fun receive_packets :: "'w sockets_api \<Rightarrow> nat \<Rightarrow> server_impl_t \<Rightarrow> bytes \<Rightarrow> size_t \<Rightarrow> 'w \<Rightarrow> (bytes list \<times> 'w) option" where
  "receive_packets api 0 im b n w = Some ([], w)"
| "receive_packets api (Suc k) im b n w =
     do {
       (sz, b, i, w) \<leftarrow> network_receive api (Some im) b n w;
       im \<leftarrow> i;
       (ps, w) \<leftarrow> receive_packets api k im b n w;
       Some (take (nat sz) b # ps, w)
     }"

lemma framed_cases:
  assumes "framed p"
  obtains h l body where "p = h # l # body" "l < 128" "length body = unat l"
  using assms by (cases p rule: framed.cases) auto

context byte_stream
begin

lemma receive_framed:
  assumes "fd_live im" "socket im = fd" "rx_limit \<le> length b" "framed p"
  shows "\<exists>fds. network_receive api (Some im) b n (mk (p @ rest)) =
    Some (int (length p), p @ drop (length p) b, Some (im\<lparr>read_fds := fds\<rparr>), mk rest)"
  using assms(4)
proof (rule framed_cases)
  fix h l body
  assume "p = h # l # body" "l < 128" "length body = unat l"
  with receive_front [OF assms(1-3), of body l n h rest] show ?thesis by (simp add: add.commute)
qed

lemma receives_framed:
  "\<lbrakk>fd_live im; socket im = fd; rx_limit \<le> length b; list_all framed ps\<rbrakk> \<Longrightarrow>
    receive_packets api (length ps) im b n (mk (concat ps @ rest)) = Some (ps, mk rest)"
proof (induction ps arbitrary: im b)
  case (Cons p ps)
  from Cons.prems receive_framed [of im b p n "concat ps @ rest"] obtain fds where
    r: "network_receive api (Some im) b n (mk (p @ concat ps @ rest)) =
      Some (int (length p), p @ drop (length p) b, Some (im\<lparr>read_fds := fds\<rparr>), mk (concat ps @ rest))" by auto
  have "receive_packets api (length ps) (im\<lparr>read_fds := fds\<rparr>) (p @ drop (length p) b) n (mk (concat ps @ rest)) = Some (ps, mk rest)"
    using Cons.prems by (intro Cons.IH) (auto simp: fd_live_def)
  with r show ?case by simp
qed simp

end

end
