(* ===== verification/Client_Stream.thy ===== *)
theory Client_Stream
  imports Byte_Stream Client_Properties
begin

section \<open>The blocking client on a stream of bytes\<close>

text \<open>
  What \<^verbatim>\<open>network_receive\<close> and \<^verbatim>\<open>smqtt_get_next_message\<close> make of the bytes a peer sends: packets with a one byte size
  field are cut out of the stream one after the other and messages in them are delivered; when nothing arrives in time
  the client reads the packet it already has again, at the wrong place.
\<close>

subsection \<open>Framing\<close>

text \<open>C26: \<^verbatim>\<open>network_receive\<close> cuts a stream into packets. When the bytes that arrive are any number of packets, each with a size field of
  one byte, below 128, followed by anything, as many calls into one array of at least 257 bytes return exactly these packets,
  in order, each with its size, and leave exactly what follows them in the stream.\<close>

theorem network_receive_framing:
  assumes "byte_stream api (socket im) mk" "fd_live im" "rx_limit \<le> length b" "list_all framed ps"
  shows "receive_packets api (length ps) im b n (mk (concat ps @ rest)) = Some (ps, mk rest)"
  by (rule byte_stream.receives_framed [OF assms(1,2) refl assms(3,4)])

theorem network_receive_framing_witness:
  "receive_packets peer_sockets 3 sample_impl (replicate 300 7) 300
      (peer_stream [] [] [144, 3, 0, 5, 1, 208, 0, 48, 4, 0, 1, 116, 104, 1]) =
    Some ([[144, 3, 0, 5, 1], [208, 0], [48, 4, 0, 1, 116, 104]], peer_stream [] [] [1])"
proof -
  let ?ps = "[[144, 3, 0, 5, 1], [208, 0], [48, 4, 0, 1, 116, 104]] :: bytes list"
  have "fd_live sample_impl" "rx_limit \<le> length (replicate 300 (7 :: u8))" "list_all framed ?ps"
    by (simp_all add: fd_live_def sample_impl_def FD_SETSIZE_def rx_limit_def)
  from network_receive_framing [OF peer_bytes.byte_stream_axioms this, of 300 "[]" "[]" "[1]"] show ?thesis
    by (simp add: numeral_3_eq_3 del: receive_packets.simps)
qed

subsection \<open>Receiving a message\<close>

text \<open>A client whose socket is the stream.\<close>

definition stream_client :: "'w sockets_api \<Rightarrow> int \<Rightarrow> (server_impl_t, 'w) smqtt_client \<Rightarrow> 'w smqtt_env \<Rightarrow> bool" where
  "stream_client api fd c g \<longleftrightarrow>
     (\<exists>im. fd_live im \<and> socket im = fd \<and> smqtt_client.server c = create_network_server api im) \<and> buffers_ok g"

lemma framed_bounds: "framed p \<Longrightarrow> 2 \<le> length p \<and> length p \<le> 129"
  by (erule framed_cases) (auto simp: word_less_nat_alt)

context byte_stream
begin

lemma receive_packet_framed:
  assumes "stream_client api fd c g" "outside g = mk (p @ rest)" "framed p"
  obtains c' where "receive_packet c g = Some (int (length p), c',
      g\<lparr>receive_buffer := p @ drop (length p) (receive_buffer g), outside := mk rest\<rparr>)"
    "stream_client api fd c' (g\<lparr>receive_buffer := p @ drop (length p) (receive_buffer g), outside := mk rest\<rparr>)"
proof -
  from assms(1) obtain im where im: "fd_live im" "socket im = fd" "smqtt_client.server c = create_network_server api im"
    and q: "length (send_buffer g) = BUFFER_SIZE" "quiet_tail (receive_buffer g)" by (auto simp: stream_client_def buffers_ok_def)
  have len: "rx_limit \<le> length (receive_buffer g)" using q(2) by (simp add: quiet_tail_def rx_limit_def BUFFER_SIZE_def)
  from receive_framed [OF im(1,2) len assms(3), of "of_nat BUFFER_SIZE" rest] assms(2) obtain fds where
    "network_receive api (Some im) (receive_buffer g) (of_nat BUFFER_SIZE) (outside g) = Some (int (length p),
      p @ drop (length p) (receive_buffer g), Some (im\<lparr>read_fds := fds\<rparr>), mk rest)" by auto
  then have "receive_packet c g = Some (int (length p), c\<lparr>smqtt_client.server := create_network_server api (im\<lparr>read_fds := fds\<rparr>)\<rparr>,
      g\<lparr>receive_buffer := p @ drop (length p) (receive_buffer g), outside := mk rest\<rparr>)"
    using im(3) by (simp add: receive_packet_def server_receive_def create_network_server_def)
  moreover have "quiet_tail (p @ drop (length p) (receive_buffer g))"
    using q(2) framed_bounds [OF assms(3)] by (intro quiet_tail_drop [OF _ _ q(2)]) (auto simp: quiet_tail_def rx_limit_def BUFFER_SIZE_def)
  ultimately show thesis
    using im q(1) by (intro that) (auto simp: stream_client_def buffers_ok_def fd_live_def intro!: exI [of _ "im\<lparr>read_fds := fds\<rparr>"])
qed

lemma next_message_front:
  assumes "stream_client api fd c g" "framed (publish_wire (topic, i, QoS0, retain, Some m))"
    "publish_decodable (topic, i, QoS0, retain, Some m)"
    "outside g = mk (publish_wire (topic, i, QoS0, retain, Some m) @ rest)"
  obtains c' b where "smqtt_get_next_message c g = Some (SMQTT_OK, \<lparr>out_packet_id = None, out_message = Some (cstr m),
      out_message_size = Some (of_nat (length (cstr m)))\<rparr>, c', g\<lparr>receive_buffer := b, outside := mk rest\<rparr>)"
    "stream_client api fd c' (g\<lparr>receive_buffer := b, outside := mk rest\<rparr>)"
proof -
  let ?w = "publish_wire (topic, i, QoS0, retain, Some m)"
  let ?b = "?w @ drop (length ?w) (receive_buffer g)"
  from receive_packet_framed [OF assms(1,4,2)] obtain c' where
    r: "receive_packet c g = Some (int (length ?w), c', g\<lparr>receive_buffer := ?b, outside := mk rest\<rparr>)"
      "stream_client api fd c' (g\<lparr>receive_buffer := ?b, outside := mk rest\<rparr>)" .
  have "bytes_at ?b 0 ?w" by (rule bytes_at_whole)
  from publish.parse_wire [OF TrueI assms(3) this] obtain d where
    d: "deserialize_response ?b (length ?w) = Some (Some (Publish_body d))" "p_qos d = QoS0" "p_packet_id d = 0"
      "shows_string ?b (p_message_size d, p_message d) m"
    by (auto simp: no_packet_id_def)
  from d(4) have s: "unat (p_message_size d) = length (cstr m)" "bytes_at ?b (p_message d) (cstr m)"
    by (simp_all add: shows_string_def)
  have "strncpy_mem ?b (p_message d) (unat (p_message_size d)) = Some (cstr m)"
    using s cstr_no_nul [of m] by (intro strncpy_mem_exact) (auto simp: bytes_at_def)
  moreover have "parse_received (g\<lparr>receive_buffer := ?b, outside := mk rest\<rparr>) (int (length ?w)) = Some (Some (Publish_body d))"
    unfolding parse_received_def using d(1) long_back [of "length ?w"] framed_bounds [OF assms(2)] by simp
  ultimately have "smqtt_get_next_message c g = Some (SMQTT_OK, \<lparr>out_packet_id = None, out_message = Some (cstr m),
      out_message_size = Some (of_nat (length (cstr m)))\<rparr>, c', g\<lparr>receive_buffer := ?b, outside := mk rest\<rparr>)"
    using r(1) d(2,3) word_eq_of_natI [OF s(1)] by (auto simp: smqtt_get_next_message_def acknowledge_def)
  with r(2) show thesis by (rule that [rotated])
qed

text \<open>A packet of another type ends the messages.\<close>

lemma next_message_other:
  assumes "stream_client api fd c g" "framed p" "outside g = mk (p @ rest)"
    "message_type_of (UNPACK_MESSAGE_TYPE (hd p)) \<noteq> Some PUBLISH"
  obtains st d c' b where "smqtt_get_next_message c g = Some (st, d, c', g\<lparr>receive_buffer := b, outside := mk rest\<rparr>)" "st \<noteq> SMQTT_OK"
proof -
  let ?b = "p @ drop (length p) (receive_buffer g)"
  let ?g = "g\<lparr>receive_buffer := ?b, outside := mk rest\<rparr>"
  from receive_packet_framed [OF assms(1,3,2)] obtain c' where
    r: "receive_packet c g = Some (int (length p), c', ?g)" "stream_client api fd c' ?g" .
  then have q: "quiet_tail ?b" by (simp add: stream_client_def buffers_ok_def)
  then have "6 \<le> length ?b" by (simp add: quiet_tail_def BUFFER_SIZE_def)
  from framed_bounds [OF assms(2)] have p: "p \<noteq> []" "2 \<le> length p" "length p \<le> 129" by auto
  from deserialize_quiet [OF q, of "length p"] obtain x where x: "deserialize_response ?b (length p) = Some x" ..
  have "x \<noteq> Some (Publish_body d)" for d
  proof (rule deserialize_cases [OF \<open>6 \<le> length ?b\<close>, of "length p"])
    fix off n t
    assume t: "deserialize_response ?b (length p) = map_option Some (parse_body ?b off n t)"
      "message_type_of (UNPACK_MESSAGE_TYPE (?b ! 0)) = Some t"
    have "?b ! 0 = hd p" using p(1) by (cases p) simp_all
    with t(2) assms(4) have "t \<noteq> PUBLISH" by auto
    with t(1) x show ?thesis by (cases "parse_body ?b off n t") (auto dest!: parse_body_type)
  qed (use x in auto)
  moreover have "parse_received ?g (int (length p)) = Some x"
    unfolding parse_received_def using x long_back [of "length p"] p(3) by simp
  ultimately have "smqtt_get_next_message c g =
      Some (case x of None \<Rightarrow> SMQTT_BAD_MESSAGE | Some _ \<Rightarrow> SMQTT_UNEXPECTED, nothing, c', ?g)"
    using r(1) by (cases x) (auto simp: smqtt_get_next_message_def split: response_t.split)
  then show thesis by (rule that) (simp split: option.split)
qed

end

text \<open>C16: a message the broker publishes at quality 0 is delivered: when a PUBLISH packet is next in the stream, its size field is one byte,
  below 128, and its topic is shorter than 256 bytes, \<^verbatim>\<open>smqtt_get_next_message\<close> returns \<^verbatim>\<open>SMQTT_OK\<close> with exactly the message
  and its size, sends nothing, and leaves exactly what follows the packet in the stream.\<close>

theorem next_message_delivers:
  assumes "byte_stream api (socket im) mk" "fd_live im" "smqtt_client.server c = create_network_server api im" "buffers_ok g"
    "framed (publish_wire (topic, i, QoS0, retain, Some m))" "publish_decodable (topic, i, QoS0, retain, Some m)"
    "outside g = mk (publish_wire (topic, i, QoS0, retain, Some m) @ rest)"
  shows "\<exists>c' b. smqtt_get_next_message c g =
    Some (SMQTT_OK, \<lparr>out_packet_id = None, out_message = Some (cstr m),
      out_message_size = Some (of_nat (length (cstr m)))\<rparr>, c', g\<lparr>receive_buffer := b, outside := mk rest\<rparr>)"
proof -
  have "stream_client api (socket im) c g" using assms(2-4) by (auto simp: stream_client_def)
  from byte_stream.next_message_front [OF assms(1) this assms(5-7)] show ?thesis by blast
qed

lemma sample_publication:
  "publish_wire ([116], 0, QoS0, False, Some [104, 105]) = [48, 5, 0, 1, 116, 104, 105]"
  "publish_decodable ([116], 0, QoS0, False, Some [104, 105])"
proof -
  have strs: "strlen [116] = 1" "strlen [104, 105] = 2" "cstr [116] = [116]" "cstr [104, 105] = [104, 105]"
    by (simp_all add: strlen_def cstr_def)
  have "size_field 5 = [5]" by (simp add: size_field_small)
  with strs show "publish_wire ([116], 0, QoS0, False, Some [104, 105]) = [48, 5, 0, 1, 116, 104, 105]"
    by (simp add: publish_wire.simps string_wire_def short_wire_def PACK_MESSAGE_TYPE_def)
  show "publish_decodable ([116], 0, QoS0, False, Some [104, 105])" by (simp add: short_string_def strs)
qed

theorem next_message_delivers_witness:
  "\<exists>c' g'. smqtt_get_next_message sample_client (sample_env [[48, 5, 0, 1, 116, 104, 105, 208, 0]] []) =
    Some (SMQTT_OK, \<lparr>out_packet_id = None, out_message = Some [104, 105], out_message_size = Some 2\<rparr>, c', g')"
proof -
  have "fd_live sample_impl" "smqtt_client.server sample_client = create_network_server peer_sockets sample_impl"
    "buffers_ok (sample_env [[48, 5, 0, 1, 116, 104, 105, 208, 0]] [])"
    "framed (publish_wire ([116], 0, QoS0, False, Some [104, 105]))"
    by (simp_all add: fd_live_def sample_impl_def FD_SETSIZE_def sample_client_def sample_env_def buffers_initial
        sample_publication(1))
  moreover have "outside (sample_env [[48, 5, 0, 1, 116, 104, 105, 208, 0]] []) =
      peer_stream [] [] (publish_wire ([116], 0, QoS0, False, Some [104, 105]) @ [208, 0])"
    by (simp add: sample_publication(1) sample_env_def initial_env_def peer_stream_def)
  moreover have "cstr [104, 105] = [104, 105]" by (simp add: cstr_def)
  ultimately show ?thesis
    using next_message_delivers [OF peer_bytes.byte_stream_axioms _ _ _ _ sample_publication(2)] by fastforce
qed

subsection \<open>Silence\<close>

lemma strncpy_mem_upto:
  "\<lbrakk>drop i b = s @ 0 # t; 0 \<notin> set s; length s < n\<rbrakk> \<Longrightarrow> strncpy_mem b i n = Some (s @ replicate (n - length s) 0)"
proof (induction n arbitrary: i s)
  case (Suc n)
  then have i: "i < length b" by (cases "i < length b") auto
  then have d: "drop i b = b ! i # drop (Suc i) b" by (simp add: Cons_nth_drop_Suc)
  show ?case
  proof (cases s)
    case Nil
    with Suc.prems(1) d i show ?thesis by (simp add: buf_get_in)
  next
    case (Cons c cs)
    with Suc.prems d have "drop (Suc i) b = cs @ 0 # t" "b ! i = c" "c \<noteq> 0" "0 \<notin> set cs" "length cs < n" by auto
    with Suc.IH [of "Suc i" cs] Cons i show ?thesis by (simp add: buf_get_in)
  qed
qed simp

lemma silent_parse:
  assumes "h = 48 \<or> h = 49"
  shows "deserialize_response (h # l # 0 # rest) 0 = Some (Some (Publish_body
    \<lparr>p_qos = QoS0, p_retain = (h AND 1 \<noteq> 0), p_topic_size = 0, p_topic = 3, p_packet_id = no_packet_id,
     p_message_size = 65534, p_message = 3\<rparr>))"
proof -
  have "message_type_of (UNPACK_MESSAGE_TYPE h) = Some PUBLISH" "drop_bit 1 h AND 3 = 0"
    using assms by (auto simp: UNPACK_MESSAGE_TYPE_def)
  then show ?thesis
    by (simp add: deserialize_response_def decode_size_def decode_loop.simps buf_get_def parse_publish_def short_from_buffer_eq Let_def)
qed

lemma framed_size_field:
  assumes "framed (h # size_field n @ rest)"
  shows "size_field n = [ucast n]"
proof (rule size_field_small, rule ccontr)
  assume "\<not> unat n < 128"
  moreover have "(4 :: nat) = Suc 3" by simp
  ultimately have s: "size_field n = of_nat (unat n mod 128 + 128) # varlen_upto 3 (unat n div 128)"
    by (simp only: size_field_def varlen_upto.simps if_False)
  have "unat (of_nat (unat n mod 128 + 128) :: u8) = unat n mod 128 + 128" by (intro unat_of_nat_small) simp
  with assms s show False by (simp add: word_less_nat_alt)
qed

context byte_stream
begin

lemma receive_packet_silence:
  assumes "stream_client api fd c g" "outside g = mk []"
  obtains c' where "receive_packet c g = Some (0, c', g)"
proof -
  from assms(1) obtain im where im: "fd_live im" "socket im = fd" "smqtt_client.server c = create_network_server api im"
    by (auto simp: stream_client_def)
  from receive_silence [OF im(1,2), of "receive_buffer g" "of_nat BUFFER_SIZE"] assms(2) obtain fds where
    "network_receive api (Some im) (receive_buffer g) (of_nat BUFFER_SIZE) (outside g) =
      Some (0, receive_buffer g, Some (im\<lparr>read_fds := fds\<rparr>), mk [])" by auto
  then have "receive_packet c g = Some (0, c\<lparr>smqtt_client.server := create_network_server api (im\<lparr>read_fds := fds\<rparr>)\<rparr>, g)"
    using im(3) assms(2) [symmetric] by (simp add: receive_packet_def server_receive_def create_network_server_def)
  then show thesis by (rule that)
qed

end

text \<open>C33: when nothing arrives in time, \<^verbatim>\<open>smqtt_get_next_message\<close> does not say so. \<^verbatim>\<open>network_receive\<close> returns 0, only negative sizes are
  tested for, and the packet still in the buffer is parsed with an empty size field: if it is a PUBLISH at quality 0 with a
  one byte size field, a topic of 1 to 255 bytes and a NUL behind it, the call returns \<^verbatim>\<open>SMQTT_OK\<close> with a size of 65534 and the length byte of the topic,
  the topic and the old message as one string.\<close>

theorem silence_delivers_packet_bytes:
  assumes "byte_stream api (socket im) mk" "fd_live im" "smqtt_client.server c = create_network_server api im" "buffers_ok g"
    "outside g = mk []" "receive_buffer g = publish_wire (topic, i, QoS0, retain, Some m) @ 0 # tail"
    "framed (publish_wire (topic, i, QoS0, retain, Some m))" "short_string topic" "cstr topic \<noteq> []"
  shows "\<exists>c' cs. smqtt_get_next_message c g =
      Some (SMQTT_OK, \<lparr>out_packet_id = None, out_message = Some cs, out_message_size = Some 65534\<rparr>, c', g) \<and>
    cstr cs = of_nat (length (cstr topic)) # cstr topic @ cstr m"
proof -
  let ?h = "PACK_MESSAGE_TYPE PUBLISH OR of_bool retain :: u8"
  let ?s = "of_nat (length (cstr topic)) # cstr topic @ cstr m :: bytes"
  have h: "?h = 48 \<or> ?h = 49" by (cases retain) (simp_all add: PACK_MESSAGE_TYPE_def)
  have len: "length (cstr topic) < 256" using assms(8) by (simp add: short_string_def)
  have "(ucast (strlen topic) :: u8) = of_nat (length (cstr topic))"
  proof -
    have "unat (strlen topic) = length (cstr topic)" unfolding strlen_def using len by (intro unat_of_nat_small) simp
    then show ?thesis by (metis of_nat_unat)
  qed
  with assms(7) framed_size_field have "\<exists>l. publish_wire (topic, i, QoS0, retain, Some m) = ?h # l # 0 # ?s"
    by (simp add: publish_wire.simps string_wire_def short_wire_def del: framed.simps) fastforce
  then obtain l where w: "publish_wire (topic, i, QoS0, retain, Some m) = ?h # l # 0 # ?s" ..
  with assms(6) have b: "receive_buffer g = ?h # l # 0 # ?s @ 0 # tail" by simp
  have "(of_nat (length (cstr topic)) :: u8) \<noteq> 0" using len assms(9) by (simp add: word_unat_eq_iff unat_of_nat)
  then have nul: "0 \<notin> set ?s" using cstr_no_nul [of topic] cstr_no_nul [of m] by simp
  have "length ?s < 65534" using framed_bounds [OF assms(7)] w by simp
  then have copy: "strncpy_mem (receive_buffer g) 3 65534 = Some (?s @ replicate (65534 - length ?s) 0)"
    using strncpy_mem_upto [of 3 "receive_buffer g" ?s tail 65534] b nul by (simp add: numeral_3_eq_3)
  have "stream_client api (socket im) c g" using assms(2-4) by (auto simp: stream_client_def)
  from byte_stream.receive_packet_silence [OF assms(1) this assms(5)] obtain c' where r: "receive_packet c g = Some (0, c', g)" .
  have "cstr (?s @ replicate (65534 - length ?s) 0) = ?s"
    using nul \<open>length ?s < 65534\<close> unfolding cstr_def by (subst takeWhile_append2) auto
  with r copy silent_parse [OF h] b show ?thesis
    by (auto simp: smqtt_get_next_message_def parse_received_def acknowledge_def no_packet_id_def)
qed

theorem silence_delivers_packet_bytes_witness:
  "\<exists>c' cs. smqtt_get_next_message sample_client
      ((sample_env [] [])\<lparr>receive_buffer := [48, 5, 0, 1, 116, 104, 105] @ replicate 1017 0\<rparr>) =
    Some (SMQTT_OK, \<lparr>out_packet_id = None, out_message = Some cs, out_message_size = Some 65534\<rparr>, c',
      (sample_env [] [])\<lparr>receive_buffer := [48, 5, 0, 1, 116, 104, 105] @ replicate 1017 0\<rparr>) \<and>
    cstr cs = [1, 116, 104, 105]"
proof -
  let ?g = "(sample_env [] [])\<lparr>receive_buffer := [48, 5, 0, 1, 116, 104, 105] @ replicate 1017 0\<rparr>"
  have strs: "cstr [116] = [116]" "cstr [104, 105] = [104, 105]" by (simp_all add: cstr_def)
  have "quiet_tail (receive_buffer ?g)"
    by (auto simp: quiet_tail_def BUFFER_SIZE_def rx_limit_def nth_append nth_Cons')
  then have "buffers_ok ?g" by (simp add: buffers_ok_def sample_env_def initial_env_def)
  moreover have "fd_live sample_impl" "smqtt_client.server sample_client = create_network_server peer_sockets sample_impl"
    "framed (publish_wire ([116], 0, QoS0, False, Some [104, 105]))" "short_string [116]" "cstr [116] \<noteq> []"
    by (simp_all add: fd_live_def sample_impl_def FD_SETSIZE_def sample_client_def sample_publication short_string_def strs)
  moreover have "outside ?g = peer_stream [] [] []" by (simp add: sample_env_def initial_env_def peer_stream_def)
  moreover have "receive_buffer ?g = publish_wire ([116], 0, QoS0, False, Some [104, 105]) @ 0 # replicate 1016 0"
    using replicate_Suc [of 1016 "0 :: u8"] by (simp add: sample_publication(1))
  ultimately show ?thesis
    using silence_delivers_packet_bytes [OF peer_bytes.byte_stream_axioms, of sample_impl sample_client ?g] by (fastforce simp: strs)
qed

end
