(* ===== verification/Cli_Properties.thy ===== *)
theory Cli_Properties
  imports Cli Client_Stream
begin

section \<open>Correctness of the command line program\<close>

text \<open>
  Options as data, written as arguments and read back, the calls of the client that a command line stands for, and the
  options that the program rejects although its usage text offers them.
\<close>

subsection \<open>Command lines\<close>

text \<open>The options that work, what they mean, and how they are written. \<^verbatim>\<open>-q\<close> also asks for a clean session.\<close>

datatype cli_option = Opt_user bytes | Opt_pw bytes | Opt_clean | Opt_qos QoS

fun option_ok :: "cli_option \<Rightarrow> bool" where
  "option_ok (Opt_qos q) \<longleftrightarrow> q \<le> QoS2"
| "option_ok _ \<longleftrightarrow> True"

fun option_args :: "cli_option \<Rightarrow> bytes list" where
  "option_args (Opt_user u) = [[45, 117], u]"
| "option_args (Opt_pw p) = [[45, 112], p]"
| "option_args Opt_clean = [[45, 99]]"
| "option_args (Opt_qos q) = [[45, 113], [48 + ucast q]]"

fun set_option :: "cli_option \<Rightarrow> cli_options \<Rightarrow> cli_options" where
  "set_option (Opt_user u) s = s\<lparr>user := Some u\<rparr>"
| "set_option (Opt_pw p) s = s\<lparr>pw := Some p\<rparr>"
| "set_option Opt_clean s = s\<lparr>clean_session := True\<rparr>"
| "set_option (Opt_qos q) s = s\<lparr>qos := (if q = QoS0 then qos s else q), clean_session := True\<rparr>"

definition operation_args :: "bytes option \<Rightarrow> bytes list" where
  "operation_args m = (case m of None \<Rightarrow> [[45, 83]] | Some m \<Rightarrow> [[45, 80], m])"

definition operation_options :: "bytes option \<Rightarrow> cli_options" where
  "operation_options m =
     (case m of None \<Rightarrow> default_options\<lparr>operation := SUBSCRIBE_op\<rparr>
      | Some m \<Rightarrow> default_options\<lparr>operation := PUBLISH_op, publish_message := Some m\<rparr>)"

definition command_line :: "bytes \<Rightarrow> bytes option \<Rightarrow> cli_option list \<Rightarrow> bytes list \<Rightarrow> bytes list" where
  "command_line prog m os rest = prog # operation_args m @ concat (map option_args os) @ rest"

lemma char_at_literal: "x \<noteq> 0 \<Longrightarrow> y \<noteq> 0 \<Longrightarrow> char_at [x, y] 0 = Some x \<and> char_at [x, y] 1 = Some y"
  by (simp add: char_at_def cstr_def buf_get_def)

lemma argv_at_append [simp]:
  "argv_at (pre @ a # xs) (length pre) = Some (Some a)"
  "argv_at (pre @ a # b # xs) (Suc (length pre)) = Some (Some b)"
  by (simp_all add: argv_at_def nth_append)

text \<open>One switch at position \<^term>\<open>length pre\<close>.\<close>

lemma parse_loop_switch:
  assumes "y \<noteq> 0"
  shows "parse_loop (pre @ [45, y] # xs) e s (length pre) =
    Option.bind (parse_switch (pre @ [45, y] # xs) e y s (length pre)) (\<lambda>r. case r of
        Inl u \<Rightarrow> Some (Inl u)
      | Inr (s, arg) \<Rightarrow> parse_loop (pre @ [45, y] # xs) e s (arg + 1))"
  using char_at_literal [of 45 y] assms by (subst parse_loop.simps) (simp add: nth_append)

lemma qos_char: "q \<le> QoS2 \<Longrightarrow> char_at [48 + ucast q] 0 = Some (48 + ucast q) \<and>
    (q = QoS0 \<and> 48 + ucast q = (48 :: u8) \<or> q = QoS1 \<and> 48 + ucast q = (49 :: u8) \<or> q = QoS2 \<and> 48 + ucast q = (50 :: u8))"
  by (frule qos_cases) (auto simp: char_at_def cstr_def buf_get_def)

lemma parse_switch_option:
  assumes "option_ok opt"
  shows "parse_loop (pre @ option_args opt @ xs) e s (length pre) =
    parse_loop ((pre @ option_args opt) @ xs) e (set_option opt s) (length (pre @ option_args opt))"
proof (cases opt)
  case (Opt_user u)
  then show ?thesis using parse_loop_switch [of 117 pre "u # xs" e s] by (simp add: parse_switch_def parse_u_def ADVANCE_ARG_def)
next
  case (Opt_pw p)
  then show ?thesis using parse_loop_switch [of 112 pre "p # xs" e s] by (simp add: parse_switch_def parse_p_def ADVANCE_ARG_def)
next
  case Opt_clean
  then show ?thesis using parse_loop_switch [of 99 pre xs e s] by (simp add: parse_switch_def)
next
  case (Opt_qos q)
  with assms have q: "q \<le> QoS2" by simp
  have "s\<lparr>qos := qos s, clean_session := True\<rparr> = s\<lparr>clean_session := True\<rparr>" by simp
  with Opt_qos qos_char [OF q] show ?thesis
    using parse_loop_switch [of 113 pre "[48 + ucast q] # xs" e s]
    by (auto simp: parse_switch_def parse_q_def ADVANCE_ARG_def)
qed

lemma parse_loop_options:
  assumes "\<forall>opt \<in> set os. option_ok opt"
  shows "parse_loop (pre @ concat (map option_args os) @ xs) e s (length pre) =
    parse_loop (pre @ concat (map option_args os) @ xs) e (fold set_option os s) (length (pre @ concat (map option_args os)))"
  using assms
proof (induction os arbitrary: pre s)
  case (Cons opt os)
  have "parse_loop (pre @ concat (map option_args (opt # os)) @ xs) e s (length pre) =
      parse_loop ((pre @ option_args opt) @ concat (map option_args os) @ xs) e (set_option opt s) (length (pre @ option_args opt))"
    using parse_switch_option [of opt pre "concat (map option_args os) @ xs"] Cons.prems by simp
  also have "\<dots> = parse_loop ((pre @ option_args opt) @ concat (map option_args os) @ xs) e (fold set_option os (set_option opt s))
      (length ((pre @ option_args opt) @ concat (map option_args os)))"
    using Cons.IH [of "pre @ option_args opt" "set_option opt s"] Cons.prems by simp
  finally show ?case by simp
qed simp

text \<open>All the options are read; what follows them is left.\<close>

lemma parse_args_start:
  "parse_args (prog # operation_args m @ xs) e =
    Option.bind (parse_loop (prog # operation_args m @ xs) e (operation_options m) (length (prog # operation_args m)))
      (\<lambda>r. Some (after_options (prog # operation_args m @ xs) r))"
proof -
  have c: "cstr [45, 80] = [45, 80]" "cstr [45, 83] = [45, 83]" "[45, 83] \<noteq> [45, 80 :: u8]" by (simp_all add: cstr_def)
  have n: "Suc (Suc (Suc 0)) = 3" "Suc (Suc 0) = 2" by simp_all
  show ?thesis
  proof (cases m)
    case None
    with c show ?thesis by (simp add: parse_args_def operation_args_def operation_options_def list_get_def n)
  next
    case (Some x)
    with c show ?thesis by (simp add: parse_args_def operation_args_def operation_options_def list_get_def n)
  qed
qed

lemma parse_args_command:
  assumes "\<forall>opt \<in> set os. option_ok opt"
  shows "parse_args (command_line prog m os rest) e =
    Option.bind (parse_loop (command_line prog m os rest) e (fold set_option os (operation_options m))
        (length (prog # operation_args m @ concat (map option_args os))))
      (\<lambda>r. Some (after_options (command_line prog m os rest) r))"
  using parse_args_start [of prog m "concat (map option_args os) @ rest" e]
    parse_loop_options [OF assms, of "prog # operation_args m" rest e "operation_options m"]
  by (simp add: command_line_def)

text \<open>The options a command line with the arguments \<open>h\<close>, \<open>i\<close> and \<open>t\<close> asks for.\<close>

definition options_of :: "bytes option \<Rightarrow> cli_option list \<Rightarrow> bytes \<Rightarrow> bytes \<Rightarrow> bytes \<Rightarrow> cli_options" where
  "options_of m os h i t = (fold set_option os (operation_options m))\<lparr>host := h, client_id := i, topic := t\<rparr>"

lemma parse_loop_end: "char_at h 0 \<noteq> Some 45 \<Longrightarrow> parse_loop (pre @ h # xs) e s (length pre) = Some (Inr (s, length pre))"
  by (subst parse_loop.simps) (auto simp: nth_append char_at_def buf_get_def)

lemma parse_args_complete:
  assumes "\<forall>opt \<in> set os. option_ok opt" "char_at h 0 \<noteq> Some 45"
  shows "parse_args (command_line prog m os (h # i # t # rest)) e =
    Some (parse_positionals (command_line prog m os (h # i # t # rest)) (fold set_option os (operation_options m))
      (length (prog # operation_args m @ concat (map option_args os))))"
  using parse_args_command [OF assms(1), of prog m "h # i # t # rest" e]
    parse_loop_end [OF assms(2), of "prog # operation_args m @ concat (map option_args os)" "i # t # rest" e]
  by (simp add: command_line_def after_options_def)

lemma positionals_at:
  "parse_positionals (pre @ h # i # t # rest) s (length pre) =
    (let pos = dropWhile (\<lambda>c. c \<noteq> 58) (cstr h) in
     Inr ((if pos = [] then s\<lparr>host := h\<rparr> else s\<lparr>host := pos, cli_port := ucast (fst (strtoul (tl pos)))\<rparr>)
       \<lparr>client_id := i, topic := t\<rparr>))"
  by (simp add: parse_positionals_def Let_def nth_append)

lemma parse_args_options:
  assumes "\<forall>opt \<in> set os. option_ok opt" "char_at h 0 \<noteq> Some 45" "58 \<notin> set (cstr h)"
  shows "parse_args (command_line prog m os (h # i # t # rest)) e = Some (Inr (options_of m os h i t))"
proof -
  have "dropWhile (\<lambda>c. c \<noteq> 58) (cstr h) = []" using assms(3) by (simp add: dropWhile_eq_Nil_conv) blast
  with positionals_at [of "prog # operation_args m @ concat (map option_args os)" h i t rest] show ?thesis
    unfolding parse_args_complete [OF assms(1,2)] by (simp add: command_line_def options_of_def)
qed

text \<open>The options as the usage text describes them.\<close>

fun usage_option :: "cli_option \<Rightarrow> cli_options \<Rightarrow> cli_options" where
  "usage_option (Opt_user u) s = s\<lparr>user := Some u\<rparr>"
| "usage_option (Opt_pw p) s = s\<lparr>pw := Some p\<rparr>"
| "usage_option Opt_clean s = s\<lparr>clean_session := True\<rparr>"
| "usage_option (Opt_qos q) s = s\<lparr>qos := q\<rparr>"

definition usage_options :: "bytes option \<Rightarrow> cli_option list \<Rightarrow> bytes \<Rightarrow> bytes \<Rightarrow> bytes \<Rightarrow> cli_options" where
  "usage_options m os h i t = (fold usage_option os (operation_options m))\<lparr>host := h, client_id := i, topic := t\<rparr>"

fun option_qualities :: "cli_option list \<Rightarrow> QoS list" where
  "option_qualities [] = []"
| "option_qualities (Opt_qos q # os) = q # option_qualities os"
| "option_qualities (_ # os) = option_qualities os"

lemma options_differ:
  "fold set_option os (s\<lparr>qos := q, clean_session := k\<rparr>) =
    (fold usage_option os s)\<lparr>qos := (let qs = filter (\<lambda>q. q \<noteq> QoS0) (option_qualities os) in if qs = [] then q else last qs),
      clean_session := k \<or> Opt_clean \<in> set os \<or> option_qualities os \<noteq> []\<rparr>"
proof (induction os arbitrary: s q k)
  case (Cons opt os)
  show ?case
  proof (cases opt)
    case (Opt_user u)
    have "set_option opt (s\<lparr>qos := q, clean_session := k\<rparr>) = (usage_option opt s)\<lparr>qos := q, clean_session := k\<rparr>"
      using Opt_user by (cases s) simp
    with Opt_user Cons.IH [where s = "usage_option opt s" and q = q and k = k] show ?thesis
      by (simp del: set_option.simps usage_option.simps)
  next
    case (Opt_pw p)
    have "set_option opt (s\<lparr>qos := q, clean_session := k\<rparr>) = (usage_option opt s)\<lparr>qos := q, clean_session := k\<rparr>"
      using Opt_pw by (cases s) simp
    with Opt_pw Cons.IH [where s = "usage_option opt s" and q = q and k = k] show ?thesis
      by (simp del: set_option.simps usage_option.simps)
  next
    case Opt_clean
    have "set_option opt (s\<lparr>qos := q, clean_session := k\<rparr>) = (usage_option opt s)\<lparr>qos := q, clean_session := True\<rparr>"
      using Opt_clean by (cases s) simp
    with Opt_clean Cons.IH [where s = "usage_option opt s" and q = q and k = True] show ?thesis
      by (simp del: set_option.simps usage_option.simps)
  next
    case (Opt_qos r)
    have "set_option opt (s\<lparr>qos := q, clean_session := k\<rparr>) =
        (usage_option opt s)\<lparr>qos := (if r = QoS0 then q else r), clean_session := True\<rparr>"
      using Opt_qos by (cases s) simp
    with Opt_qos Cons.IH [where s = "usage_option opt s" and q = "if r = QoS0 then q else r" and k = True] show ?thesis
      by (simp add: Let_def del: set_option.simps usage_option.simps)
  qed
qed simp

lemma usage_qos: "qos (fold usage_option os s) = (if option_qualities os = [] then qos s else last (option_qualities os))"
  by (induction os arbitrary: s rule: option_qualities.induct) auto

lemma usage_clean: "clean_session (fold usage_option os s) \<longleftrightarrow> clean_session s \<or> Opt_clean \<in> set os"
  by (induction os arbitrary: s rule: option_qualities.induct) auto

text \<open>The options come out as described exactly when the two faults of \<^verbatim>\<open>-q\<close> do not show.\<close>

lemma last_nonzero:
  "(let qs' = filter (\<lambda>q. q \<noteq> QoS0) qs in if qs' = [] then QoS0 else last qs') = (if qs = [] then QoS0 else last qs) \<longleftrightarrow>
    (qs \<noteq> [] \<and> last qs \<noteq> QoS0) \<or> set qs \<subseteq> {QoS0}"
proof (induction qs rule: rev_induct)
  case (snoc q qs)
  have "last (filter (\<lambda>q. q \<noteq> QoS0) qs) \<noteq> QoS0" if "filter (\<lambda>q. q \<noteq> QoS0) qs \<noteq> []"
    using last_in_set [OF that] by simp
  then show ?case by (auto simp: Let_def filter_empty_conv)
qed simp

text \<open>C29: the arguments of \<^verbatim>\<open>main\<close> round trip, up to \<^verbatim>\<open>-q\<close>. Any sequence of the options \<^verbatim>\<open>-u\<close>, \<^verbatim>\<open>-p\<close>, \<^verbatim>\<open>-c\<close> and \<^verbatim>\<open>-q\<close>, written after the
  operation and before a host without a port, a client identifier and a topic, is read with the meaning the usage text
  gives it exactly when two things hold: with \<^verbatim>\<open>-q\<close> there is also \<^verbatim>\<open>-c\<close> (\<^verbatim>\<open>-q\<close> alone asks for a clean session as well), and the
  last \<^verbatim>\<open>-q\<close> is not 0 after an earlier 1 or 2 (\<^verbatim>\<open>-q 0\<close> does not take those back). Without \<^verbatim>\<open>-q\<close> it always holds. Further
  arguments are ignored.\<close>

theorem cli_options_roundtrip:
  assumes "\<forall>opt \<in> set os. option_ok opt" "char_at h 0 \<noteq> Some 45" "58 \<notin> set (cstr h)"
  shows "parse_args (command_line prog m os (h # i # t # rest)) e = Some (Inr (usage_options m os h i t)) \<longleftrightarrow>
    (option_qualities os \<noteq> [] \<longrightarrow> Opt_clean \<in> set os) \<and>
    (option_qualities os \<noteq> [] \<and> last (option_qualities os) \<noteq> QoS0 \<or> set (option_qualities os) \<subseteq> {QoS0})"
proof -
  let ?s = "operation_options m" and ?qs = "option_qualities os"
  let ?q = "let qs = filter (\<lambda>q. q \<noteq> QoS0) ?qs in if qs = [] then QoS0 else last qs"
  have d: "qos ?s = QoS0" "clean_session ?s = False" "?s\<lparr>qos := QoS0, clean_session := False\<rparr> = ?s"
    by (auto simp: operation_options_def default_options_def split: option.split)
  have "fold set_option os ?s = (fold usage_option os ?s)\<lparr>qos := ?q, clean_session := (Opt_clean \<in> set os \<or> ?qs \<noteq> [])\<rparr>"
    using options_differ [where s = ?s and q = QoS0 and k = False] d(3) by simp
  then have "options_of m os h i t =
      (usage_options m os h i t)\<lparr>qos := ?q, clean_session := (Opt_clean \<in> set os \<or> ?qs \<noteq> [])\<rparr>"
    by (simp add: options_of_def usage_options_def)
  moreover have "u\<lparr>qos := x, clean_session := y\<rparr> = u \<longleftrightarrow> qos u = x \<and> clean_session u = y" for u :: cli_options and x y
    by (cases u) auto
  moreover have "qos (usage_options m os h i t) = (if ?qs = [] then QoS0 else last ?qs)"
    "clean_session (usage_options m os h i t) \<longleftrightarrow> Opt_clean \<in> set os"
    by (simp_all add: usage_options_def usage_qos usage_clean d)
  ultimately have "options_of m os h i t = usage_options m os h i t \<longleftrightarrow>
      ?q = (if ?qs = [] then QoS0 else last ?qs) \<and> (?qs \<noteq> [] \<longrightarrow> Opt_clean \<in> set os)" by auto
  then show ?thesis unfolding parse_args_options [OF assms] last_nonzero by simp blast
qed

theorem cli_options_roundtrip_witness:
  "parse_args [[115], [45, 83], [45, 117], [98], [45, 99], [45, 113], [49], [104], [99], [116]] 0 =
    Some (Inr (default_options\<lparr>operation := SUBSCRIBE_op, user := Some [98], qos := QoS1, clean_session := True,
      host := [104], client_id := [99], topic := [116]\<rparr>))"
proof -
  have "\<forall>opt \<in> set [Opt_user [98], Opt_clean, Opt_qos QoS1]. option_ok opt" "char_at [104] 0 \<noteq> Some 45" "58 \<notin> set (cstr [104])"
    by (simp_all add: char_at_def buf_get_def cstr_def)
  from cli_options_roundtrip [OF this, of "[115]" None "[99]" "[116]" "[]" 0] show ?thesis
    by (simp add: command_line_def operation_args_def usage_options_def operation_options_def default_options_def)
qed

subsection \<open>What is run\<close>







text \<open>Messages as the broker publishes them at quality 0: topic, retain flag and content.\<close>

definition publication :: "bytes \<times> bool \<times> bytes \<Rightarrow> bytes" where
  "publication = (\<lambda>(t, retain, m). publish_wire (t, 0, QoS0, retain, Some m))"

definition deliverable :: "bytes \<times> bool \<times> bytes \<Rightarrow> bool" where
  "deliverable x \<longleftrightarrow> framed (publication x) \<and> (case x of (t, retain, m) \<Rightarrow> publish_decodable (t, 0, QoS0, retain, Some m))"

lemma printed_whole: "length (cstr m) < 65536 \<Longrightarrow> printed (cstr m) (of_nat (length (cstr m))) = cstr m"
  by (simp add: printed_def unat_of_nat_small)

context byte_stream
begin

lemma message_loop_prints:
  "\<lbrakk>stream_client api fd c g; outside g = mk (concat (map publication ms) @ p @ rest); \<forall>x \<in> set ms. deliverable x;
    framed p; message_type_of (UNPACK_MESSAGE_TYPE (hd p)) \<noteq> Some PUBLISH\<rbrakk> \<Longrightarrow>
    \<exists>g'. message_loop c out g = Some (1, out @ map (\<lambda>(t, retain, m). Got_message (cstr m)) ms, g') \<and> outside g' = mk rest"
proof (induction ms arbitrary: c g out)
  case Nil
  then have "outside g = mk (p @ rest)" by simp
  from next_message_other [OF Nil.prems(1,4) this Nil.prems(5)] show ?case
    by (subst message_loop.simps) fastforce
next
  case (Cons x ms)
  obtain t retain m where x: "x = (t, retain, m)" by (cases x)
  with Cons.prems(2,3) have d: "framed (publish_wire (t, 0, QoS0, retain, Some m))" "publish_decodable (t, 0, QoS0, retain, Some m)"
    "outside g = mk (publish_wire (t, 0, QoS0, retain, Some m) @ concat (map publication ms) @ p @ rest)"
    by (simp_all add: deliverable_def publication_def)
  from next_message_front [OF Cons.prems(1) d] obtain c' b where
    n: "smqtt_get_next_message c g = Some (SMQTT_OK, \<lparr>out_packet_id = None, out_message = Some (cstr m),
        out_message_size = Some (of_nat (length (cstr m)))\<rparr>, c', g\<lparr>receive_buffer := b, outside := mk (concat (map publication ms) @ p @ rest)\<rparr>)"
      "stream_client api fd c' (g\<lparr>receive_buffer := b, outside := mk (concat (map publication ms) @ p @ rest)\<rparr>)" .
  have "printed (cstr m) (of_nat (length (cstr m))) = cstr m" using d(2) by (intro printed_whole) simp
  with n(1) have "message_loop c out g =
      message_loop c' (out @ [Got_message (cstr m)]) (g\<lparr>receive_buffer := b, outside := mk (concat (map publication ms) @ p @ rest)\<rparr>)"
    by (subst message_loop.simps) simp
  with Cons.IH [OF n(2), of "out @ [Got_message (cstr m)]"] Cons.prems(3-5) x show ?case by simp
qed

end

text \<open>C30: with \<^verbatim>\<open>-S\<close>, once subscribed, the program prints exactly the messages that arrive: when the stream continues with any number of
  PUBLISH packets at quality 0 (one byte size fields, topics below 256 bytes) and then a packet of another type, it prints one
  line for each, with exactly the content, in order, and ends with status 1 at the other packet, having read no
  further.\<close>

theorem cli_subscribe_prints:
  assumes "byte_stream api (socket im) mk" "fd_live im" "smqtt_subscribe c 1 [topic opts] [qos opts] g = Some (SMQTT_OK, c1, g1)"
    "smqtt_client.server c1 = create_network_server api im" "buffers_ok g1"
    "outside g1 = mk (concat (map publication ms) @ p @ rest)" "\<forall>x \<in> set ms. deliverable x" "framed p"
    "message_type_of (UNPACK_MESSAGE_TYPE (hd p)) \<noteq> Some PUBLISH"
  shows "\<exists>g'. run_subscribe opts c g = Some (1, Subscribed # map (\<lambda>(t, retain, m). Got_message (cstr m)) ms, g') \<and>
    outside g' = mk rest"
proof -
  have "stream_client api (socket im) c1 g1" using assms(2,4,5) by (auto simp: stream_client_def)
  from byte_stream.message_loop_prints [OF assms(1) this assms(6-9), of "[Subscribed]"] assms(3) show ?thesis
    by (simp add: run_subscribe_def)
qed

lemma receive_keeps_id: "receive_packet c g = Some (sz, c', g') \<Longrightarrow> subscribe_packet_id c' = subscribe_packet_id c"
  by (auto simp: receive_packet_def Option.bind_eq_Some_conv)

lemma sample_suback: "suback_wire (2, 1, [True], [QoS1]) = [144, 3, 0, 2, 1]"
  by (simp add: short_wire_def size_field_small PACK_MESSAGE_TYPE_def suback_codes_def)

text \<open>A subscription over the scripted peer that is acknowledged; the bytes behind the acknowledgement are still to come.\<close>

lemma sample_subscription:
  obtains c1 g1 im out where
    "smqtt_subscribe sample_client 1 [[116]] [QoS0] (sample_env [[144, 3, 0, 2, 1] @ bs] []) = Some (SMQTT_OK, c1, g1)"
    "fd_live im" "smqtt_client.server c1 = create_network_server peer_sockets im" "buffers_ok g1"
    "outside g1 = peer_stream [] out bs"
proof -
  let ?g = "sample_env [[144, 3, 0, 2, 1] @ bs] []" and ?c = "sample_client\<lparr>subscribe_packet_id := 2\<rparr>"
  let ?w = "subscribe_wire (2, 1, [[116]], [QoS0])"
  have args: "subscribe_args_ok (2, 1, [[116]], [QoS0])" by simp
  have "strlen [116] = 1" "utf8_size [[116]] True = 4" "cstr [116] = [116]" "size_field 6 = [6]"
    by (simp_all add: strlen_def cstr_def utf8_size_def size_field_small)
  then have w: "?w = [130, 6, 0, 2, 0, 1, 116, 0]"
    by (simp add: string_wire_def short_wire_def topic_qos_wire_def PACK_MESSAGE_TYPE_def)
  note subscribe_wire.simps [simp del]
  have len: "length (send_buffer ?g) = BUFFER_SIZE" "buffers_ok ?g"
    by (simp_all add: sample_env_def buffers_initial) (simp add: initial_env_def)
  let ?b = "?w @ drop (length ?w) (send_buffer ?g)"
  have make: "make_subscribe_message (send_buffer ?g) (of_nat BUFFER_SIZE) 2 1 [[116]] [QoS0] = Some (?b, length ?w)"
    using subscribe.make_fits [OF args, of "send_buffer ?g"] len(1) w by (simp add: BUFFER_SIZE_def)
  let ?o = "(outside ?g)\<lparr>sent := [?w]\<rparr>"
  have "take (unat (of_nat (length ?w) :: size_t)) ?b = ?w" by (simp add: w)
  then have "sk_send peer_sockets (socket sample_impl) (take (unat (of_nat (length ?w) :: size_t)) ?b) (outside ?g) = (int (length ?w), ?o)"
    by (simp add: peer_sockets_def peer_send_def sample_env_def initial_env_def)
  from network_send_status [OF _ _ _ this] len(1)
  have "network_send peer_sockets (Some sample_impl) ?b (of_nat (length ?w)) (outside ?g) = Some (SMQTT_NET_OK, Some sample_impl, ?o)"
    by (simp add: w BUFFER_SIZE_def)
  then have t: "transmit (\<lambda>b. make_subscribe_message b (of_nat BUFFER_SIZE) 2 1 [[116]] [QoS0]) ?c ?g =
      Some (SMQTT_OK, ?c, ?g\<lparr>send_buffer := ?b, outside := ?o\<rparr>)"
    using make by (simp add: transmit_def server_send_def create_network_server_def sample_client_def del: subscribe_wire.simps)
  let ?g1 = "?g\<lparr>send_buffer := ?b, outside := ?o\<rparr>"
  have "stream_client peer_sockets 3 ?c ?g1" using len w
    by (auto simp: stream_client_def sample_client_def buffers_ok_def BUFFER_SIZE_def fd_live_def FD_SETSIZE_def sample_impl_def
        intro!: exI [of _ sample_impl])
  moreover have "outside ?g1 = peer_stream [] [?w] ([144, 3, 0, 2, 1] @ bs)"
    by (simp add: peer_stream_def sample_env_def initial_env_def)
  moreover have "framed [144, 3, 0, 2, 1]" by simp
  ultimately obtain c' where r: "receive_packet ?c ?g1 = Some (int (length [144, 3, 0, 2, 1 :: u8]), c',
      ?g1\<lparr>receive_buffer := [144, 3, 0, 2, 1] @ drop (length [144, 3, 0, 2, 1 :: u8]) (receive_buffer ?g1), outside := peer_stream [] [?w] bs\<rparr>)"
    "stream_client peer_sockets 3 c' (?g1\<lparr>receive_buffer := [144, 3, 0, 2, 1] @ drop (length [144, 3, 0, 2, 1 :: u8]) (receive_buffer ?g1),
      outside := peer_stream [] [?w] bs\<rparr>)" by (rule peer_bytes.receive_packet_framed)
  have five: "Suc (Suc (Suc (Suc (Suc 0)))) = 5" by simp
  let ?b2 = "[144, 3, 0, 2, 1] @ drop (length [144, 3, 0, 2, 1 :: u8]) (receive_buffer ?g1)"
  let ?g2 = "?g1\<lparr>receive_buffer := ?b2, outside := peer_stream [] [?w] bs\<rparr>"
  have "bytes_at ?b2 0 (suback_wire (2, 1, [True], [QoS1]))" unfolding sample_suback by (rule bytes_at_whole)
  then obtain d where d: "deserialize_response ?b2 5 = Some (Some (Suback_body d))" "sa_packet_id d = 2"
    using suback.parse_wire [of "(2, 1, [True], [QoS1])" ?b2] unfolding sample_suback by (auto simp: five)
  then have "await ?c ?g1 = Some (Some (Suback_body d), c', ?g2)" using r(1) by (simp add: await_def parse_received_def five)
  moreover have "subscribe_packet_id c' = 2" using receive_keeps_id [OF r(1)] by simp
  ultimately have "smqtt_subscribe sample_client 1 [[116]] [QoS0] ?g = Some (SMQTT_OK, c', ?g2)"
    using t d(2) by (simp add: smqtt_subscribe_def Let_def) (simp add: sample_client_def)
  moreover from r(2) obtain im where "fd_live im" "smqtt_client.server c' = create_network_server peer_sockets im" "buffers_ok ?g2"
    unfolding stream_client_def by blast
  ultimately show thesis by (rule that) simp
qed

theorem cli_subscribe_prints_witness:
  "\<exists>g'. run_subscribe (options_of None [] [49] [97] [116]) sample_client
      (sample_env [[144, 3, 0, 2, 1] @ [48, 5, 0, 1, 116, 104, 105] @ [208, 0]] []) =
    Some (1, [Subscribed, Got_message [104, 105]], g')"
proof (rule sample_subscription [of "[48, 5, 0, 1, 116, 104, 105] @ [208, 0]"])
  let ?o = "options_of None [] [49] [97] [116]" and ?ms = "[([116], False, [104, 105])]"
  let ?g = "sample_env [[144, 3, 0, 2, 1] @ [48, 5, 0, 1, 116, 104, 105] @ [208, 0]] []"
  fix c1 g1 im out
  assume r: "smqtt_subscribe sample_client 1 [[116]] [QoS0] ?g = Some (SMQTT_OK, c1, g1)" "fd_live im"
    "smqtt_client.server c1 = create_network_server peer_sockets im" "buffers_ok g1"
    "outside g1 = peer_stream [] out ([48, 5, 0, 1, 116, 104, 105] @ [208, 0])"
  have o: "topic ?o = [116]" "qos ?o = QoS0" by (simp_all add: options_of_def operation_options_def default_options_def)
  have p: "concat (map publication ?ms) = [48, 5, 0, 1, 116, 104, 105]" "\<forall>x \<in> set ?ms. deliverable x"
    using sample_publication by (simp_all add: publication_def deliverable_def del: publish_decodable.simps publish_wire.simps)
  have "outside g1 = peer_stream [] out (concat (map publication ?ms) @ [208, 0] @ [])" unfolding p(1) using r(5) by simp
  moreover have "framed [208, 0]" "message_type_of (UNPACK_MESSAGE_TYPE (hd [208, 0])) \<noteq> Some PUBLISH"
    by (simp_all add: UNPACK_MESSAGE_TYPE_def)
  moreover have "cstr [104, 105] = [104, 105]" by (simp add: cstr_def)
  ultimately show ?thesis
    using cli_subscribe_prints [OF peer_bytes.byte_stream_axioms [where results = "[]" and out = out] r(2) _ r(3,4) _ p(2), where opts = ?o and c = sample_client and
      g = ?g and p = "[208, 0]" and rest = "[]"]
      r(1) o by auto
qed

subsection \<open>What is rejected\<close>

lemma strtoul_errno: "snd (strtoul s) \<noteq> Some ENOMSG"
  by (simp add: strtoul_def Let_def)

lemma parse_args_rejects:
  assumes "\<forall>opt \<in> set os. option_ok opt" "y \<noteq> 0"
    "parse_switch (command_line prog m os ([45, y] # rest)) e y (fold set_option os (operation_options m))
      (length (prog # operation_args m @ concat (map option_args os))) = r"
    "r = Some (Inl Usage_exit) \<or> r = None"
  shows "parse_args (command_line prog m os ([45, y] # rest)) e = map_option (\<lambda>_. Inl Usage_exit) r"
  using parse_args_command [OF assms(1), of prog m "[45, y] # rest" e] assms(3,4)
    parse_loop_switch [OF assms(2), of "prog # operation_args m @ concat (map option_args os)" rest e]
  by (auto simp: command_line_def after_options_def)

text \<open>C40: the options \<^verbatim>\<open>-k\<close> and \<^verbatim>\<open>-W\<close> of the usage text never work: \<^verbatim>\<open>-k\<close> with any argument ends the program with the usage text,
  because \<^verbatim>\<open>errno\<close> is compared with a value that \<^verbatim>\<open>strtoul\<close> never sets, and so does a well formed \<^verbatim>\<open>-W\<close>, because its case
  falls through to that of unknown switches.\<close>

theorem cli_rejects_keep_alive_and_will:
  assumes "\<forall>opt \<in> set os. option_ok opt" "errno \<noteq> ENOMSG" "char_at wq 0 \<in> {Some 48, Some 49, Some 50}"
    "char_at wr 0 \<in> {Some 89, Some 78}"
  shows "parse_args (command_line prog m os ([45, 107] # k # rest)) errno = Some (Inl Usage_exit) \<and>
    parse_args (command_line prog m os ([45, 87] # wq # wr # wt # wm # rest)) errno = Some (Inl Usage_exit)"
proof
  let ?pre = "prog # operation_args m @ concat (map option_args os)"
  have "parse_k (?pre @ [45, 107] # k # rest) errno s (length ?pre) = Some (Inl Usage_exit)" for s
    using assms(2) strtoul_errno [of k] argv_at_append(2) [of ?pre "[45, 107]" k rest]
    by (auto simp: parse_k_def ADVANCE_ARG_def Let_def split: option.split)
  then show "parse_args (command_line prog m os ([45, 107] # k # rest)) errno = Some (Inl Usage_exit)"
    using parse_args_rejects [OF assms(1), of 107 prog m "k # rest" errno "Some (Inl Usage_exit)"]
    by (simp add: parse_switch_def command_line_def)
  have "parse_W (?pre @ [45, 87] # wq # wr # wt # wm # rest) (length ?pre) = Some (Inl Usage_exit)"
    using assms(3,4) by (auto simp: parse_W_def ADVANCE_ARG_def argv_at_def nth_append)
  then show "parse_args (command_line prog m os ([45, 87] # wq # wr # wt # wm # rest)) errno = Some (Inl Usage_exit)"
    using parse_args_rejects [OF assms(1), of 87 prog m "wq # wr # wt # wm # rest" errno "Some (Inl Usage_exit)"]
    by (simp add: parse_switch_def command_line_def)
qed

theorem cli_rejects_keep_alive_and_will_witness:
  "parse_args [[115], [45, 83], [45, 107], [54, 48], [104], [99], [116]] 0 = Some (Inl Usage_exit) \<and>
    parse_args [[115], [45, 83], [45, 87], [49], [89], [119], [109], [104], [99], [116]] 0 = Some (Inl Usage_exit)"
proof -
  have c: "char_at [49] 0 \<in> {Some 48, Some 49, Some 50}" "char_at [89] 0 \<in> {Some 89, Some 78}"
    by (simp_all add: char_at_def buf_get_def cstr_def)
  have e: "\<forall>opt \<in> set []. option_ok opt" "(0 :: int) \<noteq> ENOMSG" by simp_all
  from cli_rejects_keep_alive_and_will [OF e c, of "[115]" None "[54, 48]" "[[104], [99], [116]]" "[119]" "[109]"]
  show ?thesis by (simp add: command_line_def operation_args_def)
qed

text \<open>A port in the host argument is not usable: \<^verbatim>\<open>strchr\<close> is used for the host, so what is passed to \<^verbatim>\<open>smqtt_connect\<close> as host begins
  with the colon; and \<^verbatim>\<open>-q\<close> or \<^verbatim>\<open>-k\<close> as the last argument follows the null pointer at the end of \<^verbatim>\<open>argv\<close>.\<close>

theorem cli_host_port_lost:
  assumes "\<forall>opt \<in> set os. option_ok opt" "char_at (h @ 58 # p) 0 \<noteq> Some 45" "0 \<notin> set h" "58 \<notin> set h"
  shows "(\<exists>opts. parse_args (command_line prog m os ((h @ 58 # p) # i # t # rest)) errno = Some (Inr opts) \<and>
      cp_server_ip (params_of opts) = 58 # cstr p \<and> cp_port (params_of opts) = ucast (ucast (fst (strtoul (cstr p))) :: u16)) \<and>
    parse_args (command_line prog m os [[45, 113]]) errno = None \<and>
    parse_args (command_line prog m os [[45, 107]]) errno = None"
proof (intro conjI)
  let ?pre = "prog # operation_args m @ concat (map option_args os)"
  have "cstr (h @ 58 # p) = h @ 58 # cstr p" using assms(3) unfolding cstr_def by (subst takeWhile_append2) auto
  then have d: "dropWhile (\<lambda>c. c \<noteq> 58) (cstr (h @ 58 # p)) = 58 # cstr p" using assms(4) by (auto simp: dropWhile_append)
  show "\<exists>opts. parse_args (command_line prog m os ((h @ 58 # p) # i # t # rest)) errno = Some (Inr opts) \<and>
      cp_server_ip (params_of opts) = 58 # cstr p \<and> cp_port (params_of opts) = ucast (ucast (fst (strtoul (cstr p))) :: u16)"
    using positionals_at [of ?pre "h @ 58 # p" i t rest] d
    unfolding parse_args_complete [OF assms(1,2)] by (simp add: command_line_def params_of_def)
  have n: "argv_at (?pre @ [[45, y]]) (Suc (length ?pre)) = Some None" for y by (simp add: argv_at_def)
  then have "parse_q (?pre @ [[45, 113]]) s (length ?pre) = None" "parse_k (?pre @ [[45, 107]]) errno s (length ?pre) = None" for s
    by (simp_all add: parse_q_def parse_k_def ADVANCE_ARG_def)
  then show "parse_args (command_line prog m os [[45, 113]]) errno = None"
    "parse_args (command_line prog m os [[45, 107]]) errno = None"
    using parse_args_rejects [OF assms(1), of 113 prog m "[]" errno None]
      parse_args_rejects [OF assms(1), of 107 prog m "[]" errno None]
    by (simp_all add: parse_switch_def command_line_def)
qed

theorem cli_host_port_lost_witness:
  "\<exists>opts. parse_args [[115], [45, 83], [104, 58, 56], [99], [116]] 0 = Some (Inr opts) \<and>
    cp_server_ip (params_of opts) = [58, 56]"
proof -
  have "char_at ([104] @ 58 # [56]) 0 \<noteq> Some 45" "0 \<notin> set [104 :: u8]" "58 \<notin> set [104 :: u8]"
    "\<forall>opt \<in> set []. option_ok opt" by (simp_all add: char_at_def buf_get_def cstr_def)
  from cli_host_port_lost [OF this(4,1-3), of "[115]" None "[99]" "[116]" "[]" 0] show ?thesis
    by (auto simp: command_line_def operation_args_def cstr_def)
qed

end
