(* ===== verification/Spec2Isabelle.thy ===== *)
theory Spec2Isabelle
  imports Message_Properties Client_Properties Queue_Properties MT_Properties MT_Behaviour MT_Errors MT_Progress MT_Race
    Cli_Properties
begin

text \<open>
  \<^bold>\<open>A verification of the small MQTT client in C\<close>

  The program is a client for MQTT 3.1, in layers. \<^verbatim>\<open>src/libsmqttcore\<close> holds the wire format
  (\<^verbatim>\<open>messages.c\<close>), a transport interface of four function pointers (\<^verbatim>\<open>server.c\<close>) and its two
  implementations (\<^verbatim>\<open>local_server.c\<close>, \<^verbatim>\<open>network_server.c\<close>). \<^verbatim>\<open>src/libsmqttclient\<close> is a blocking
  client over it: each call builds a packet in a static send buffer, sends it, and parses the reply in a
  static receive buffer. \<^verbatim>\<open>src/libsmqttclient_mt\<close> is a second client, whose calls put packets into
  buffer slots and requests into queues that a session thread serves. \<^verbatim>\<open>src/smqttc\<close> is a command
  line program over the blocking client.

  \<^bold>\<open>How C is modelled.\<close> \<^verbatim>\<open>C_Prelude\<close>: integers are words of their width, an array is the list of its bytes,
  a pointer into it an index. A read or write outside an array, a null or a dangling pointer make the
  result \<^const>\<open>None\<close>; every function lives in the option monad, so a theorem that a call returns \<open>Some\<close>
  says that the C code ran without undefined behaviour and to its end. Two functions return an option
  of their own inside (\<^verbatim>\<open>NULL\<close>, no payload). The allocations the code does not check are supposed to
  succeed, memory from \<^verbatim>\<open>malloc\<close> holds any bytes and comes at an address given as an argument, released memory is
  tracked only in the queues, and printing is left out but for the standard output of the command line program.

  \<^bold>\<open>The wire format and the blocking client.\<close>

  \<^item> \<^verbatim>\<open>Messages\<close>: \<^verbatim>\<open>messages.h\<close> and the macros of \<^verbatim>\<open>messages.c\<close>: message types, parsed messages as a
    datatype with one constructor per member of the union, flags, 16 bit fields.
  \<^item> \<^verbatim>\<open>Varlen\<close>: \<^verbatim>\<open>encode_size\<close> and \<^verbatim>\<open>decode_size\<close>, with the base 128 digits \<open>varlen\<close> as specification. Both loops
    are total: the count of bytes used is below four.
  \<^item> \<^verbatim>\<open>Serialize\<close>: the cursor macros and the fourteen \<^verbatim>\<open>make_\<dots>_message\<close> functions. For each there is a packet
    as a byte list (\<open>connect_wire\<close>, \<open>publish_wire\<close>, \dots), and the locale \<open>serializer\<close> states once what all
    builders do: they store exactly the packet, and leave the array exactly when it does not fit.
  \<^item> \<^verbatim>\<open>Deserialize\<close>: \<^verbatim>\<open>deserialize_response\<close>, one definition per branch of its switch.
  \<^item> \<^verbatim>\<open>Roundtrip\<close>: the locale \<open>packet_codec\<close> extends \<open>serializer\<close> with the law that the parser finds the
    arguments in a built packet; interpreted for the fourteen packets.
  \<^item> \<^verbatim>\<open>Parse_Safety\<close>: where the parser reads. Lengths are at most 255, and a buffer whose bytes from 257 on
    are zero (\<open>quiet_tail\<close>) stops it, because \<^verbatim>\<open>network_receive\<close> stores at most 257 bytes.
  \<^item> \<^verbatim>\<open>Server\<close>: \<^verbatim>\<open>server_t\<close> as a record of functions over the outside world, the dispatchers and the local
    server. The locale \<open>transport\<close> is the contract the clients rely on; \<open>steady_transport\<close> extends it with the law
    that a send succeeds and leaves the server as it was, which the session thread relies on.
  \<^item> \<^verbatim>\<open>Network\<close>: \<^verbatim>\<open>network_server.c\<close> over a record of system calls. The locale \<open>posix_sockets\<close> has the one law
    the code relies on, the documented result of \<^verbatim>\<open>recv\<close>; by \<open>sublocale\<close> it gives the contract \<open>transport\<close>.
    With a \<^verbatim>\<open>send\<close> that takes everything or reports an error (\<open>steady_network\<close>) it also gives \<open>steady_transport\<close>.
    A scripted peer is the instance for concrete runs.
  \<^item> \<^verbatim>\<open>Byte_Stream\<close>: the locale \<open>byte_stream\<close> is a socket that hands out the bytes of a list in order and reports an error
    when there are none; inside it \<^verbatim>\<open>network_receive\<close> cuts a stream into packets (\<open>framed\<close>: a size field of one byte, below
    128). Interpreted on the scripted peer.
  \<^item> \<^verbatim>\<open>Client\<close>: \<^verbatim>\<open>smqttc.c\<close>, every function. The struct is a record, the two buffers and the world an
    environment; the functions work over any transport, as the code does through its pointers.
  \<^item> \<^verbatim>\<open>Client_Safety\<close>: inside \<open>transport\<close>, every call on a ready client is defined and keeps the buffers.
  \<^item> \<^verbatim>\<open>Client_Protocol\<close>: the publisher's handshake as a step relation over sent and received packets, and the
    refinement that every run of \<^verbatim>\<open>smqtt_publish\<close> is a run of it.
  \<^item> \<^verbatim>\<open>Client_Stream\<close>: \<^verbatim>\<open>smqtt_get_next_message\<close> on a byte stream: the message of a packet at its front, a packet of another
    type, and silence.
  \<^item> \<^verbatim>\<open>Cli\<close>: \<^verbatim>\<open>smqttc/main.c\<close>: the argument loop with its switch, one definition per case (fall through included), and
    the two operations. The loop that prints messages does not end by itself and is a partial function. The usage text gives
    the meaning of the options in \<^verbatim>\<open>Cli_Properties\<close> (\<open>usage_options\<close>), which the argument loop is compared with.

  \<^bold>\<open>The multithreaded client.\<close>

  \<^item> \<^verbatim>\<open>Queue\<close>: the linked queues of \<^verbatim>\<open>connection.c\<close> on an explicit heap, with list specifications; the locale
    \<open>fifo\<close> is the contract of a queue. The search loop follows pointers and is a partial function; on a
    well formed queue it is proved to end. \<^verbatim>\<open>Queue_Properties\<close> says which request the search is for without its code: a request
    has the identifier its packet was sent with (\<open>request_id\<close>) and waits for one type of reply (\<open>waits_for\<close>).
  \<^item> \<^verbatim>\<open>Session\<close>: the rest of \<^verbatim>\<open>connection.c\<close>. The struct and the slots are records; the code between a lock and its
    unlock is one definition (\<open>session_take\<close>, \<open>session_return\<close>, \<open>take_waiting\<close>, \dots), the cases of the switch on a
    received packet are one definition each, and \<open>session_iteration\<close> composes them as the body of
    \<^verbatim>\<open>session_thread_loop\<close> does. Callbacks are numbers, and the calls made are recorded.
  \<^item> \<^verbatim>\<open>Session_Steps\<close>: \<open>mt_step\<close>, the step relation of the session thread and any number of callers, with the
    critical sections as its steps. The locale \<open>shared_fifos\<close> is the contract of two queues on one heap;
    its interpretation on \<open>enqueue\<close> and \<open>dequeue\<close> carries the invariant \<open>slots_inv\<close>: every slot is in the free queue,
    in the send queue, with one caller or with the session thread, and in one of them only.
  \<^item> \<^verbatim>\<open>MT_Client\<close>: \<^verbatim>\<open>smqttc_mt.c\<close>, every function.
  \<^item> \<^verbatim>\<open>MT_Requests\<close>: the calls on the client's state read as lists (\<open>session_at\<close>), and each call and iteration
    as a run of \<open>mt_step\<close>.
  \<^item> \<^verbatim>\<open>MT_Handlers\<close>: the abstract session \<open>session_spec\<close>, which maps a parsed packet and the list of waiting requests
    to packets sent, callbacks made and requests left, and the proof that every handler implements it.
  \<^item> \<^verbatim>\<open>MT_Machine\<close>: \<open>session_step\<close>, an abstract machine for the whole client without slots, heaps and queues, and the
    locale \<open>forward_simulation\<close>; inside \<open>steady_transport\<close> it is instantiated with \<open>session_step\<close> and \<open>mt_step\<close>.
  \<^item> \<^verbatim>\<open>MT_Order\<close>: what \<^verbatim>\<open>server_send\<close> is given. The transport is traced (each call is logged with its bytes), and the log is
    related to the packets submitted through slots.
  \<^item> \<^verbatim>\<open>MT_Progress\<close>: iterations of the session thread while nothing arrives.
  \<^item> \<^verbatim>\<open>MT_Race\<close>: \<^verbatim>\<open>smqtt_mt_publish\<close> cut at its accesses to \<^verbatim>\<open>publish_packet_id\<close>, which no mutex protects, and two such
    calls under a schedule.

  \<^bold>\<open>What is shown.\<close> The properties, with their witnesses, are in \<^verbatim>\<open>Message_Properties\<close>, \<^verbatim>\<open>Client_Properties\<close>,
  \<^verbatim>\<open>Client_Stream\<close>, \<^verbatim>\<open>Queue_Properties\<close>, \<^verbatim>\<open>MT_Properties\<close>, \<^verbatim>\<open>MT_Behaviour\<close>, \<^verbatim>\<open>MT_Errors\<close>, \<^verbatim>\<open>MT_System\<close>,
  \<^verbatim>\<open>MT_Order\<close>, \<^verbatim>\<open>MT_Progress\<close>, \<^verbatim>\<open>MT_Race\<close> and \<^verbatim>\<open>Cli_Properties\<close>.

  \<^item> Messages: the size field round trips and is bounded; every builder stores its
    packet and nothing else; every packet parses back to its arguments, for strings below 256 bytes and
    packet identifiers below 256, which is the exact range in which 16 bit fields survive; the parser stays in
    the receive buffer of the blocking client for every input.
  \<^item> Transport: a stream of packets with one byte size fields is received packet by packet, and exactly which send results
    are noticed. Longer size fields are not understood.
  \<^item> Blocking client: whatever the peer does, no call leaves its buffers when the packet it builds fits the send buffer, and
    it writes behind the buffer when the packet does not; a publication
    follows the MQTT handshake and its success means that the handshake was completed; a message at quality 0 in a
    packet with a one byte size field is delivered, and the stream behind it is left.
  \<^item> Queues: order, termination of the search, and removal of exactly the first request that waits for a reply, but for
    SUBACK, where only the first subscription is looked at.
  \<^item> Multithreaded client: every interleaving of callers and session thread over a network without short writes is a run
    of the abstract machine, with the same packets, callbacks and requests; QoS2 messages delivered and held
    are together exactly those received; submitted packets are all sent while nothing arrives. In every interleaving a slot has one owner, and what
    the transport is given are the packets submitted, unchanged and in order, shuffled with acknowledgements; a call submits exactly its packet without waiting; an iteration of the session thread implements the
    abstract session; a QoS2 publication makes its callback once after the whole handshake, and a QoS2
    message is delivered once; taking a slot ends when one is free. A packet is handled inside the receive buffer, whose old
    content is arbitrary, when its message size ends before the buffer or at a NUL in it.
  \<^item> Command line: which sequences of options are read with the meaning of the usage text, and a command line makes the calls
    it stands for; the messages in a stream of packets are printed in order.

  Some properties state behaviour that is not what the code means to do: wide packet
  identifiers are lost, two publications at the same time can carry the same identifier, send errors and closed connections go unnoticed (the session thread delivers the last packet
  again), silence makes the blocking client deliver the bytes of the last packet, a short write makes the disconnect follow a null pointer, a caller that waits for a slot keeps the
  session thread from returning one, replies to subscriptions are matched by the wrong identifier
  or type, a disconnect uses a freed client (\<open>mt_disconnect_result\<close>, a lemma), and the options for keep alive and last will end the program.

  \<^bold>\<open>Bounds.\<close> 1024 is the size of the buffers, 10 the number of slots, 257 the most bytes a receive stores (a two byte
  header and the 255 bytes its second byte can ask for), 32 the number of topics a parsed message holds, and
  \<open>2 ^ 28\<close> the limit of four base 128 digits. The loops that may run for ever (\<open>search_loop\<close>, \<open>get_slot_loop\<close>,
  \<open>message_loop\<close>) are partial functions, for which not ending is \<^const>\<open>None\<close>. \<open>session_thread_loop\<close> takes the addresses
  of the queue entries of its iterations, and runs as many of them as it is given.

  \<^bold>\<open>What is not modelled.\<close> The creation of the thread and the mutex appear only as the atomic steps of \<open>mt_step\<close>;
  failures of \<^verbatim>\<open>pthread\<close> calls and the memory model below the mutex do not. Output to the error stream is left
  out, and so is \<^verbatim>\<open>debug_print\<close> of \<^verbatim>\<open>smqttc.c\<close>, which is never called. The tests and the test runner
  (\<^verbatim>\<open>src/test\<close>, \<^verbatim>\<open>src/test_mt\<close>, \<^verbatim>\<open>src/libtest\<close>) use the program and are not part of it.
\<close>

end
